(* ===== verification/Prelude.thy ===== *)
theory Prelude
  imports Main "HOL-Library.Finite_Map" "HOL-Library.Word" "HOL-Library.State_Monad"
    "HOL-Library.Char_ord" "HOL-Library.List_Lexorder" "HOL-Library.Multiset"
begin

text \<open>
  Prelude of the development: the names of the types the operator is written over (Go's sized
  integers, instants and durations), the collections of hints the component theories add to, the
  parts of Go's standard library that the operator calls (\<open>strconv\<close>, \<open>strings\<close>, \<open>fmt\<close>), and
  generic lemmas on lists and finite maps that several components share.
\<close>

section \<open>Types and hint collections\<close>

text \<open>
  Go's \<open>int32\<close> and \<open>int64\<close> are words; a signed comparison reads them with \<^const>\<open>sint\<close>.
  An instant (\<open>time.Time\<close>, \<open>metav1.Time\<close>) is the number of nanoseconds since the Unix epoch and a
  \<open>time.Duration\<close> a number of nanoseconds. A third-party struct that the operator only copies from
  one place to another is an \<open>opaque\<close> value: its serialised text.
\<close>

type_synonym int32 = "32 word"
type_synonym int64 = "64 word"
type_synonym gotime = int
type_synonym duration = int
type_synonym opaque = string

text \<open>\<open>io_intro\<close>: introduction rules of the event logic of theory \<open>Kube\<close>. \<open>builder_simps\<close>: what
  the builders put into the fields of the objects they return. \<open>ensures_intro\<close> and \<open>cluster_put\<close>: rules of
  the logic of theory \<open>Cluster\<close> and the writes it makes.\<close>

named_theorems io_intro
named_theorems builder_simps
named_theorems ensures_intro
named_theorems cluster_put

definition Second :: duration where [simp]: "Second = 1000000000"
definition Minute :: duration where [simp]: "Minute = 60 * Second"
definition Hour :: duration where [simp]: "Hour = 60 * Minute"

text \<open>The zero \<open>time.Time\<close>: January 1 of year 1, 00:00:00 UTC.\<close>

definition zero_time :: gotime where "zero_time = - 62135596800 * Second"

section \<open>Go's standard library, as far as the operator uses it\<close>

subsection \<open>strconv.Itoa, strconv.Atoi, strconv.ParseBool\<close>

definition digit_char :: "nat \<Rightarrow> char" where
  "digit_char d = char_of (48 + d)"

definition digit_val :: "char \<Rightarrow> nat option" where
  "digit_val c = (let n = of_char c :: nat in if 48 \<le> n \<and> n \<le> 57 then Some (n - 48) else None)"

fun nat_digits :: "nat \<Rightarrow> string" where
  "nat_digits n = (if n < 10 then [digit_char n] else nat_digits (n div 10) @ [digit_char (n mod 10)])"

declare nat_digits.simps [simp del]

definition Itoa :: "int \<Rightarrow> string" where
  "Itoa i = (if i < 0 then ''-'' @ nat_digits (nat (- i)) else nat_digits (nat i))"

fun parse_digits :: "nat \<Rightarrow> string \<Rightarrow> nat option" where
  "parse_digits acc [] = Some acc"
| "parse_digits acc (c # cs) =
     (case digit_val c of None \<Rightarrow> None | Some d \<Rightarrow> parse_digits (10 * acc + d) cs)"

definition parse_nat :: "string \<Rightarrow> nat option" where
  "parse_nat s = (if s = [] then None else parse_digits 0 s)"

definition in_int64 :: "int \<Rightarrow> bool" where
  "in_int64 i \<longleftrightarrow> - (2 ^ 63) \<le> i \<and> i < 2 ^ 63"

text \<open>\<open>Atoi\<close> takes an optional sign and decimal digits, and fails on anything else or when the
  value does not fit an \<open>int\<close> (64 bits).\<close>

definition Atoi :: "string \<Rightarrow> int option" where
  "Atoi s =
     (let v = (case s of
                 [] \<Rightarrow> None
               | c # cs \<Rightarrow>
                   (if c = CHR ''-'' then map_option (\<lambda>n. - int n) (parse_nat cs)
                    else if c = CHR ''+'' then map_option int (parse_nat cs)
                    else map_option int (parse_nat s)))
      in case v of None \<Rightarrow> None | Some i \<Rightarrow> if in_int64 i then Some i else None)"

definition ParseBool :: "string \<Rightarrow> bool option" where
  "ParseBool s =
     (if s \<in> {''1'', ''t'', ''T'', ''true'', ''TRUE'', ''True''} then Some True
      else if s \<in> {''0'', ''f'', ''F'', ''false'', ''FALSE'', ''False''} then Some False
      else None)"

subsection \<open>strings.ToLower, strings.Join, fmt's verbs\<close>

text \<open>\<open>ToLower\<close> on ASCII; bytes of other code points are left alone.\<close>

definition lower_char :: "char \<Rightarrow> char" where
  "lower_char c = (let n = of_char c :: nat in if 65 \<le> n \<and> n \<le> 90 then char_of (n + 32) else c)"

definition ToLower :: "string \<Rightarrow> string" where
  "ToLower s = map lower_char s"

fun Join :: "string list \<Rightarrow> string \<Rightarrow> string" where
  "Join [] sep = ''''"
| "Join [x] sep = x"
| "Join (x # y # xs) sep = x @ sep @ Join (y # xs) sep"

text \<open>The verb \<open>%q\<close>: a double-quoted Go literal. ASCII is exact (the escapes of
  \<open>strconv.Quote\<close>); bytes of multi-byte code points are copied, as \<open>%q\<close> does with every
  printable one.\<close>

definition hex_char :: "nat \<Rightarrow> char" where
  "hex_char d = (if d < 10 then char_of (48 + d) else char_of (87 + d))"

definition quote_char :: "char \<Rightarrow> string" where
  "quote_char c =
     (let n = of_char c :: nat; bs = [CHR 0x5C] in
      if n = 34 \<or> n = 92 then bs @ [c]
      else if n = 7 then bs @ ''a'' else if n = 8 then bs @ ''b''
      else if n = 12 then bs @ ''f'' else if n = 10 then bs @ ''n''
      else if n = 13 then bs @ ''r'' else if n = 9 then bs @ ''t''
      else if n = 11 then bs @ ''v''
      else if n < 32 \<or> n = 127 then bs @ ''x'' @ [hex_char (n div 16), hex_char (n mod 16)]
      else [c])"

definition Quote :: "string \<Rightarrow> string" where
  "Quote s = [CHR 0x22] @ concat (map quote_char s) @ [CHR 0x22]"

text \<open>The verb \<open>%v\<close> on a \<open>[]string\<close>.\<close>

definition show_strings :: "string list \<Rightarrow> string" where
  "show_strings xs = ''['' @ Join xs '' '' @ '']''"

section \<open>Lists and finite maps\<close>

lemma fmpred_upd_fresh:
  assumes "fmlookup m k = None"
  shows "fmpred P (fmupd k v m) \<longleftrightarrow> P k v \<and> fmpred P m"
proof
  assume h: "fmpred P (fmupd k v m)"
  have "P k' v'" if "fmlookup m k' = Some v'" for k' v'
  proof -
    from that assms have "k' \<noteq> k" by auto
    with that have "fmlookup (fmupd k v m) k' = Some v'" by simp
    then show ?thesis using h by (rule fmpredD [rotated])
  qed
  with h show "P k v \<and> fmpred P m" by (auto dest: fmpred_updD)
qed (auto intro: fmpred_upd)

lemma find_SomeD: "find P xs = Some x \<Longrightarrow> x \<in> set xs \<and> P x"
  by (induction xs) (auto split: if_splits)

lemma find_append: "find P (xs @ ys) = (case find P xs of Some x \<Rightarrow> Some x | None \<Rightarrow> find P ys)"
  by (induction xs) auto

lemma find_unique:
  assumes "x \<in> set xs" and "P x" and "\<And>y. y \<in> set xs \<Longrightarrow> P y \<Longrightarrow> y = x"
  shows "find P xs = Some x"
proof -
  have "find P xs \<noteq> None" using assms(1,2) by (auto simp: find_None_iff)
  then obtain y where "find P xs = Some y" by blast
  with find_SomeD [OF this] assms(3) show ?thesis by auto
qed

lemma set_map_filter: "y \<in> set (List.map_filter f xs) \<longleftrightarrow> (\<exists>x \<in> set xs. f x = Some y)"
  by (induction xs) (auto split: option.splits)

lemma first_error_None:
  "(case x of None \<Rightarrow> y | Some e \<Rightarrow> Some e) = None \<longleftrightarrow> x = None \<and> y = None"
  by (cases x) auto

lemma sort_eq_sorted_list_of_set:
  assumes "distinct xs" and "set xs = A"
  shows "sort xs = sorted_list_of_set A"
  using assms by (metis distinct_remdups_id sorted_list_of_set_sort_remdups)

text \<open>The elements of a list in the order of their first occurrence, each once: what the idiom
  ``if not seen then append to \<open>order\<close>'' collects.\<close>

definition first_occurrences :: "'a list \<Rightarrow> 'a list" where
  "first_occurrences xs = rev (remdups (rev xs))"

lemma first_occurrences_Nil [simp]: "first_occurrences [] = []"
  by (simp add: first_occurrences_def)

lemma first_occurrences_snoc:
  "first_occurrences (xs @ [x]) =
     (if x \<in> set xs then first_occurrences xs else first_occurrences xs @ [x])"
  by (simp add: first_occurrences_def)

lemma distinct_first_occurrences [simp]: "distinct (first_occurrences xs)"
  by (simp add: first_occurrences_def)

lemma set_first_occurrences [simp]: "set (first_occurrences xs) = set xs"
  by (simp add: first_occurrences_def)

lemma first_occurrences_eq_Nil [simp]: "first_occurrences xs = [] \<longleftrightarrow> xs = []"
  by (simp add: first_occurrences_def)

lemma mset_concat_filter:
  assumes "distinct ks" and "f ` set xs \<subseteq> set ks"
  shows "mset (concat (map (\<lambda>k. filter (\<lambda>x. f x = k) xs) ks)) = mset xs"
  using assms
proof (induction ks arbitrary: xs)
  case Nil
  then show ?case by simp
next
  case (Cons k ks)
  let ?rest = "filter (\<lambda>x. f x \<noteq> k) xs"
  have "map (\<lambda>k. filter (\<lambda>x. f x = k) xs) ks = map (\<lambda>k. filter (\<lambda>x. f x = k) ?rest) ks"
    using Cons.prems(1) by (auto intro!: filter_cong)
  moreover have "mset (concat (map (\<lambda>k. filter (\<lambda>x. f x = k) ?rest) ks)) = mset ?rest"
    using Cons.prems by (intro Cons.IH) auto
  moreover have "mset (filter (\<lambda>x. f x = k) xs) + mset ?rest = mset xs"
    by (induction xs) auto
  ultimately show ?case by (simp only: list.map concat.simps mset_append)
qed

end
