(* ===== verification/Api_Types.thy ===== *)
theory Api_Types
  imports Prelude
begin

text \<open>
  The data of the operator: the custom resources of \<open>api/v1alpha1\<close> (one record per Go struct, one
  field per Go field, the string-typed enums as strings with their declared constants) and, of the
  Kubernetes structs the operator reads or builds, the fields it touches. What it only copies is
  \<open>opaque\<close>. A Go pointer is an option, a slice a list, a Go map a finite map.
\<close>

section \<open>Kubernetes types, as far as the operator touches them\<close>

record owner_reference =
  orKind :: string
  orName :: string
  orUID :: string
  orController :: bool

record object_meta =
  mName :: string
  mNamespace :: string
  mUID :: string
  mLabels :: "(string, string) fmap"
  mGeneration :: int64
  mCreationTimestamp :: gotime
  mOwnerReferences :: "owner_reference list"
  mRest :: opaque

definition zero_meta :: object_meta where
  "zero_meta = \<lparr>mName = '''', mNamespace = '''', mUID = '''', mLabels = fmempty, mGeneration = 0,
     mCreationTimestamp = zero_time, mOwnerReferences = [], mRest = ''''\<rparr>"

text \<open>\<open>metav1.Condition\<close>.\<close>

definition ConditionTrue :: string where [simp]: "ConditionTrue = ''True''"
definition ConditionFalse :: string where [simp]: "ConditionFalse = ''False''"

record condition =
  cType :: string
  cStatus :: string
  cObservedGeneration :: int64
  cLastTransitionTime :: gotime
  cReason :: string
  cMessage :: string

record env_var =
  evName :: string
  evValue :: string
  evValueFrom :: "opaque option"

type_synonym resource_requirements = opaque
type_synonym toleration = opaque
type_synonym quantity = opaque

datatype int_or_string = FromInt int32 | FromString string

datatype probe_handler = TCPSocket int_or_string | OtherHandler opaque

record probe =
  prHandler :: probe_handler
  prInitialDelaySeconds :: int32
  prPeriodSeconds :: int32
  prTimeoutSeconds :: int32
  prFailureThreshold :: int32
  prRest :: opaque

record pod_security_context =
  pscRunAsNonRoot :: "bool option"
  pscRunAsUser :: "int64 option"
  pscFSGroup :: "int64 option"
  pscSeccompProfile :: "string option"

record security_context =
  scPrivileged :: "bool option"
  scAllowPrivilegeEscalation :: "bool option"
  scReadOnlyRootFilesystem :: "bool option"
  scRunAsUser :: "int64 option"
  scCapabilitiesAdd :: "string list"
  scCapabilitiesDrop :: "string list"

record container_port =
  cpName :: string
  cpContainerPort :: int32
  cpProtocol :: string

record volume_mount =
  vmName :: string
  vmMountPath :: string
  vmSubPath :: string

record container =
  ctName :: string
  ctImage :: string
  ctImagePullPolicy :: string
  ctCommand :: "string list"
  ctArgs :: "string list"
  ctEnv :: "env_var list"
  ctPorts :: "container_port list"
  ctResources :: resource_requirements
  ctVolumeMounts :: "volume_mount list"
  ctSecurityContext :: "security_context option"
  ctLivenessProbe :: "probe option"
  ctReadinessProbe :: "probe option"

datatype volume_source = PersistentVolumeClaim string | HostPath string | OtherVolume opaque

record volume =
  volName :: string
  volSource :: volume_source

record pod_spec =
  psServiceAccountName :: string
  psSecurityContext :: "pod_security_context option"
  psContainers :: "container list"
  psNodeSelector :: "(string, string) fmap"
  psTolerations :: "toleration list"
  psVolumes :: "volume list"
  psHostNetwork :: bool
  psHostPID :: bool
  psHostIPC :: bool

record deployment_spec =
  dsReplicas :: "int32 option"
  dsStrategyType :: string
  dsSelector :: "(string, string) fmap"
  dsTemplateLabels :: "(string, string) fmap"
  dsTemplateSpec :: pod_spec

record deployment =
  depMeta :: object_meta
  depSpec :: deployment_spec
  depReadyReplicas :: int32

record service_port =
  spName :: string
  spPort :: int32
  spTargetPort :: int_or_string
  spProtocol :: string
  spNodePort :: int32

record service_spec =
  ssType :: string
  ssSelector :: "(string, string) fmap"
  ssPorts :: "service_port list"
  ssClusterIP :: string
  ssRest :: opaque

record load_balancer_ingress =
  lbIP :: string
  lbHostname :: string

record service =
  svcMeta :: object_meta
  svcSpec :: service_spec
  svcIngress :: "load_balancer_ingress list"

record typed_object_reference =
  torAPIGroup :: "string option"
  torKind :: string
  torName :: string

record pvc_spec =
  pvcAccessModes :: "string list"
  pvcRequests :: "(string, quantity) fmap"
  pvcStorageClassName :: "string option"
  pvcDataSourceRef :: "typed_object_reference option"
  pvcSpecRest :: opaque

record persistent_volume_claim =
  pvcMeta :: object_meta
  pvcSpec :: pvc_spec

record service_account =
  saMeta :: object_meta

text \<open>\<open>snapshot.storage.k8s.io/v1 VolumeSnapshot\<close>. The outer option of \<open>vssError\<close> is the pointer
  to the error, the inner one the pointer to its message.\<close>

record volume_snapshot_spec =
  vssPVCName :: "string option"
  vssClassName :: "string option"

record volume_snapshot_status =
  vssBoundContentName :: "string option"
  vssReadyToUse :: "bool option"
  vssCreationTime :: "gotime option"
  vssRestoreSize :: "quantity option"
  vssError :: "string option option"

record volume_snapshot =
  vsMeta :: object_meta
  vsSpec :: volume_snapshot_spec
  vsStatus :: "volume_snapshot_status option"

section \<open>GameTemplate\<close>

definition SecurityProfileRestricted :: string where [simp]: "SecurityProfileRestricted = ''restricted''"
definition SecurityProfileAnyUID :: string where [simp]: "SecurityProfileAnyUID = ''anyuid''"

definition ExposureClusterIP :: string where [simp]: "ExposureClusterIP = ''ClusterIP''"
definition ExposureNodePort :: string where [simp]: "ExposureNodePort = ''NodePort''"
definition ExposureLoadBalancer :: string where [simp]: "ExposureLoadBalancer = ''LoadBalancer''"

definition UpdateRecreate :: string where [simp]: "UpdateRecreate = ''Recreate''"
definition UpdateRollingUpdate :: string where [simp]: "UpdateRollingUpdate = ''RollingUpdate''"

definition ConfigKeyTypeString :: string where [simp]: "ConfigKeyTypeString = ''string''"
definition ConfigKeyTypeInt :: string where [simp]: "ConfigKeyTypeInt = ''int''"
definition ConfigKeyTypeBool :: string where [simp]: "ConfigKeyTypeBool = ''bool''"
definition ConfigKeyTypeEnum :: string where [simp]: "ConfigKeyTypeEnum = ''enum''"

record template_port =
  tpName :: string
  tpContainerPort :: int32
  tpProtocol :: string
  tpExposeAs :: string
  tpPrimary :: bool

definition zero_template_port :: template_port where
  "zero_template_port = \<lparr>tpName = '''', tpContainerPort = 0, tpProtocol = '''', tpExposeAs = '''',
     tpPrimary = False\<rparr>"

record template_storage =
  tsDataPath :: string
  tsSubPath :: string
  tsDefaultSize :: string

record config_key =
  ckName :: string
  ckEnvVar :: string
  ckDescription :: string
  ckType :: string
  ckEnum :: "string list"
  ckDefault :: string
  ckRequired :: bool

record probe_spec =
  probesLiveness :: "probe option"
  probesReadiness :: "probe option"

record game_template_spec =
  tplImage :: string
  tplImagePullPolicy :: string
  tplPorts :: "template_port list"
  tplEnv :: "env_var list"
  tplConfigKeys :: "config_key list"
  tplCommand :: "string list"
  tplArgs :: "string list"
  tplStorage :: template_storage
  tplProbes :: "probe_spec option"
  tplUpdateStrategy :: string
  tplSecurityProfile :: string

record game_template_status =
  tplServersRegistered :: int32
  tplConditions :: "condition list"

record game_template =
  tplMeta :: object_meta
  tplSpec :: game_template_spec
  tplStatus :: game_template_status

section \<open>GameServer\<close>

definition PhasePending :: string where [simp]: "PhasePending = ''Pending''"
definition PhaseProvisioning :: string where [simp]: "PhaseProvisioning = ''Provisioning''"
definition PhaseReady :: string where [simp]: "PhaseReady = ''Ready''"
definition PhaseDegraded :: string where [simp]: "PhaseDegraded = ''Degraded''"
definition PhaseStopped :: string where [simp]: "PhaseStopped = ''Stopped''"

record storage_override =
  soClassName :: string
  soSize :: string

record exposure_override =
  eoPortName :: string
  eoExposeAs :: string
  eoNodePort :: int32

text \<open>\<open>templateRef\<close> and \<open>restoreFrom\<close> are structs with one field: the field stands for them.\<close>

record game_server_spec =
  gsTemplateRefName :: string
  gsConfig :: "(string, string) fmap"
  gsStorage :: storage_override
  gsResources :: resource_requirements
  gsNodeSelector :: "(string, string) fmap"
  gsTolerations :: "toleration list"
  gsExposeOverride :: "exposure_override list"
  gsSuspend :: bool
  gsEnvOverride :: "env_var list"
  gsRestoreFrom :: "string option"

record game_server_status =
  gsPhase :: string
  gsAddress :: string
  gsObservedGeneration :: int64
  gsTemplateGeneration :: int64
  gsReadyReplicas :: int32
  gsConditions :: "condition list"

record game_server =
  gsMeta :: object_meta
  gsSpec :: game_server_spec
  gsStatus :: game_server_status

definition ConditionAvailable :: string where [simp]: "ConditionAvailable = ''Available''"
definition ConditionReady :: string where [simp]: "ConditionReady = ''Ready''"
definition ConditionTemplateResolved :: string where
  [simp]: "ConditionTemplateResolved = ''TemplateResolved''"
definition ConditionConfigValid :: string where [simp]: "ConditionConfigValid = ''ConfigValid''"
definition ConditionRestoreSourceResolved :: string where
  [simp]: "ConditionRestoreSourceResolved = ''RestoreSourceResolved''"

section \<open>Backup and BackupSchedule\<close>

definition BackupPhasePending :: string where [simp]: "BackupPhasePending = ''Pending''"
definition BackupPhaseInProgress :: string where [simp]: "BackupPhaseInProgress = ''InProgress''"
definition BackupPhaseReady :: string where [simp]: "BackupPhaseReady = ''Ready''"
definition BackupPhaseFailed :: string where [simp]: "BackupPhaseFailed = ''Failed''"
definition BackupPhaseDeleted :: string where [simp]: "BackupPhaseDeleted = ''Deleted''"

text \<open>\<open>gameServerRef\<close> is a struct with the one field \<open>name\<close>.\<close>

record backup_spec =
  bGameServerRefName :: string
  bVolumeSnapshotClassName :: string
  bRetainForever :: bool

record backup_status =
  bPhase :: string
  bVolumeSnapshotName :: string
  bSnapshotHandle :: string
  bRestoreSize :: string
  bCreationTime :: "gotime option"
  bObservedGeneration :: int64
  bConditions :: "condition list"

definition zero_backup_status :: backup_status where
  "zero_backup_status = \<lparr>bPhase = '''', bVolumeSnapshotName = '''', bSnapshotHandle = '''',
     bRestoreSize = '''', bCreationTime = None, bObservedGeneration = 0, bConditions = []\<rparr>"

record backup =
  bMeta :: object_meta
  bSpec :: backup_spec
  bStatus :: backup_status

definition ConditionSnapshotBound :: string where [simp]: "ConditionSnapshotBound = ''SnapshotBound''"
definition ConditionBackupReady :: string where [simp]: "ConditionBackupReady = ''Ready''"

record backup_schedule_spec =
  bssGameServerRefName :: string
  bssSchedule :: string
  bssTimeZone :: string
  bssKeep :: int32
  bssSuspend :: bool
  bssVolumeSnapshotClassName :: string

record backup_schedule_status =
  bssLastScheduleTime :: "gotime option"
  bssLastSuccessfulTime :: "gotime option"
  bssActiveBackups :: "string list"
  bssObservedGeneration :: int64
  bssConditions :: "condition list"

record backup_schedule =
  bsMeta :: object_meta
  bsSpec :: backup_schedule_spec
  bsStatus :: backup_schedule_status

end
