(* ===== verification/Kube.thy ===== *)
theory Kube
  imports Api_Types
begin

text \<open>
  The boundary of the operator: the Kubernetes API client (\<open>client.Client\<close> of controller-runtime)
  and the third-party functions it calls. Neither is under the repository, so both are parameters:
  a record of functions \<open>'w client\<close> over an arbitrary world \<open>'w\<close>, and a record \<open>lib\<close> of pure
  functions. A reconciler is a program in the state monad over the world and the list of the API
  calls made so far; its early returns are branches. The event logic \<open>produces\<close> states what a program
  returns and which calls it makes, for every client and every world, so also for one in which other
  controllers and users change objects between two calls.
\<close>

section \<open>Errors, events, the client\<close>

datatype err_reason = NotFound | AlreadyExists | OtherReason

datatype go_error = GoError (err_reason: err_reason) (err_text: string)

definition IsNotFound :: "go_error \<Rightarrow> bool" where
  "IsNotFound e \<longleftrightarrow> err_reason e = NotFound"

definition IsAlreadyExists :: "go_error \<Rightarrow> bool" where
  "IsAlreadyExists e \<longleftrightarrow> err_reason e = AlreadyExists"

text \<open>\<open>fmt.Errorf("...: %w", err)\<close>: the text is prefixed and the reason stays visible through the
  wrapping. An error made by \<open>fmt.Errorf\<close> without \<open>%w\<close> has no API reason.\<close>

definition wrapf :: "string \<Rightarrow> go_error \<Rightarrow> go_error" where
  "wrapf prefix e = GoError (err_reason e) (prefix @ '': '' @ err_text e)"

definition errorf :: "string \<Rightarrow> go_error" where
  "errorf msg = GoError OtherReason msg"

text \<open>\<open>types.NamespacedName\<close>: the namespace and the name.\<close>

type_synonym key = "string \<times> string"

definition object_key :: "object_meta \<Rightarrow> key" where
  "object_key m = (mNamespace m, mName m)"

datatype object =
    OGameServer game_server | OGameTemplate game_template | OBackup backup
  | OBackupSchedule backup_schedule | OVolumeSnapshot volume_snapshot
  | OPVC persistent_volume_claim | ODeployment deployment | OService service
  | OServiceAccount service_account

datatype event =
    EvRead object | EvCreate object | EvUpdate object | EvUpdateStatus object | EvDelete object

text \<open>What the operator uses of \<open>client.Client\<close> for one kind. \<open>Create\<close>, \<open>Update\<close> and
  \<open>Status().Update\<close> write the server's answer into the object they are given: they return it.\<close>

record ('w, 'o) ops =
  opGet :: "key \<Rightarrow> 'w \<Rightarrow> (go_error + 'o) \<times> 'w"
  opList :: "string option \<Rightarrow> (string, string) fmap \<Rightarrow> 'w \<Rightarrow> (go_error + 'o list) \<times> 'w"
  opCreate :: "'o \<Rightarrow> 'w \<Rightarrow> (go_error + 'o) \<times> 'w"
  opUpdate :: "'o \<Rightarrow> 'w \<Rightarrow> (go_error + 'o) \<times> 'w"
  opStatusUpdate :: "'o \<Rightarrow> 'w \<Rightarrow> (go_error + 'o) \<times> 'w"
  opDelete :: "'o \<Rightarrow> 'w \<Rightarrow> go_error option \<times> 'w"

record 'w client =
  GameServers :: "('w, game_server) ops"
  GameTemplates :: "('w, game_template) ops"
  Backups :: "('w, backup) ops"
  BackupSchedules :: "('w, backup_schedule) ops"
  VolumeSnapshots :: "('w, volume_snapshot) ops"
  PVCs :: "('w, persistent_volume_claim) ops"
  Deployments :: "('w, deployment) ops"
  Services :: "('w, service) ops"
  ServiceAccounts :: "('w, service_account) ops"
  Clock :: "'w \<Rightarrow> gotime \<times> 'w"

text \<open>
  The pure functions that are parameters: the order in which Go's runtime iterates over a map with a
  given set of keys; \<open>resource.ParseQuantity\<close> and \<open>Quantity.String\<close>;
  \<open>ctrl.SetControllerReference\<close>, on the kind and metadata of the owner and the metadata of the object;
  \<open>time.LoadLocation\<close>, which reads the host's time zone database; the \<open>Parse\<close> of the cron parser and
  the \<open>Next\<close> of a schedule at an instant in a location; and \<open>slices.SortFunc\<close> on Backups by creation
  time, newest first, which Go does not promise to be stable.
\<close>

type_synonym location = string
type_synonym cron_schedule = string

record lib =
  MapOrder :: "string fset \<Rightarrow> string list"
  ParseQuantity :: "string \<Rightarrow> string + quantity"
  QuantityString :: "quantity \<Rightarrow> string"
  SetControllerReference :: "string \<times> object_meta \<Rightarrow> object_meta \<Rightarrow> go_error + object_meta"
  LoadLocation :: "string \<Rightarrow> string + location"
  ParseCron :: "string \<Rightarrow> string + cron_schedule"
  CronNext :: "cron_schedule \<Rightarrow> location \<Rightarrow> gotime \<Rightarrow> gotime"
  SortNewestFirst :: "backup list \<Rightarrow> backup list"

section \<open>Programs\<close>

record 'w sys =
  world :: 'w
  trace :: "event list"

type_synonym ('w, 'a) io = "('w sys, 'a) state"

definition return :: "'a \<Rightarrow> ('w, 'a) io" where
  "return a = State_Monad.return a"

definition emit :: "'w sys \<Rightarrow> event list \<Rightarrow> 'w \<Rightarrow> 'w sys" where
  "emit s es w = s\<lparr>world := w, trace := trace s @ es\<rparr>"

definition Now :: "('w \<Rightarrow> gotime \<times> 'w) \<Rightarrow> ('w, gotime) io" where
  "Now f = State (\<lambda>s. case f (world s) of (t, w) \<Rightarrow> (t, emit s [] w))"

definition Get :: "('o \<Rightarrow> object) \<Rightarrow> ('w, 'o) ops \<Rightarrow> key \<Rightarrow> ('w, go_error + 'o) io" where
  "Get mk ops k = State (\<lambda>s. case opGet ops k (world s) of
     (Inl e, w) \<Rightarrow> (Inl e, emit s [] w)
   | (Inr x, w) \<Rightarrow> (Inr x, emit s [EvRead (mk x)] w))"

definition List_objs :: "('o \<Rightarrow> object) \<Rightarrow> ('w, 'o) ops \<Rightarrow> string option \<Rightarrow> (string, string) fmap
    \<Rightarrow> ('w, go_error + 'o list) io" where
  "List_objs mk ops ns labels = State (\<lambda>s. case opList ops ns labels (world s) of
     (Inl e, w) \<Rightarrow> (Inl e, emit s [] w)
   | (Inr xs, w) \<Rightarrow> (Inr xs, emit s (map (EvRead \<circ> mk) xs) w))"

definition call_obj :: "event \<Rightarrow> ('w \<Rightarrow> (go_error + 'o) \<times> 'w) \<Rightarrow> ('w, go_error + 'o) io" where
  "call_obj ev f = State (\<lambda>s. case f (world s) of (r, w) \<Rightarrow> (r, emit s [ev] w))"

definition Create :: "('o \<Rightarrow> object) \<Rightarrow> ('w, 'o) ops \<Rightarrow> 'o \<Rightarrow> ('w, go_error + 'o) io" where
  "Create mk ops x = call_obj (EvCreate (mk x)) (opCreate ops x)"

definition Update :: "('o \<Rightarrow> object) \<Rightarrow> ('w, 'o) ops \<Rightarrow> 'o \<Rightarrow> ('w, go_error + 'o) io" where
  "Update mk ops x = call_obj (EvUpdate (mk x)) (opUpdate ops x)"

definition StatusUpdate :: "('o \<Rightarrow> object) \<Rightarrow> ('w, 'o) ops \<Rightarrow> 'o \<Rightarrow> ('w, go_error + 'o) io" where
  "StatusUpdate mk ops x = call_obj (EvUpdateStatus (mk x)) (opStatusUpdate ops x)"

definition Delete :: "('o \<Rightarrow> object) \<Rightarrow> ('w, 'o) ops \<Rightarrow> 'o \<Rightarrow> ('w, go_error option) io" where
  "Delete mk ops x = State (\<lambda>s. case opDelete ops x (world s) of (r, w) \<Rightarrow> (r, emit s [EvDelete (mk x)] w))"

text \<open>The error of a call whose object is not looked at again.\<close>

definition err_of :: "go_error + 'o \<Rightarrow> go_error option" where
  "err_of r = (case r of Inl e \<Rightarrow> Some e | Inr _ \<Rightarrow> None)"

lemma err_of_simps [simp]: "err_of (Inl e) = Some e" "err_of (Inr x) = None"
  by (simp_all add: err_of_def)

text \<open>\<open>ctrl.Result\<close> with its \<open>RequeueAfter\<close>, and what a \<open>Reconcile\<close> returns.\<close>

datatype ctrl_result = Result (RequeueAfter: duration)

type_synonym outcome = "ctrl_result \<times> go_error option"

text \<open>The calls a program makes and the value it returns, from a state.\<close>

definition events :: "('w, 'a) io \<Rightarrow> 'w sys \<Rightarrow> event list" where
  "events m s = drop (length (trace s)) (trace (snd (run_state m s)))"

definition result :: "('w, 'a) io \<Rightarrow> 'w sys \<Rightarrow> 'a" where
  "result m s = fst (run_state m s)"

section \<open>The event logic\<close>

text \<open>\<open>produces m R\<close>: from every state, \<open>m\<close> appends events \<open>es\<close> to the trace and returns a value
  \<open>a\<close> with \<open>R a es\<close>.\<close>

definition produces :: "('w, 'a) io \<Rightarrow> ('a \<Rightarrow> event list \<Rightarrow> bool) \<Rightarrow> bool" where
  "produces m R \<longleftrightarrow> (\<forall>s. \<exists>es. trace (snd (run_state m s)) = trace s @ es \<and> R (fst (run_state m s)) es)"

lemma producesI:
  assumes "\<And>s. \<exists>es. trace (snd (run_state m s)) = trace s @ es \<and> R (fst (run_state m s)) es"
  shows "produces m R"
  using assms by (simp add: produces_def)

lemma produces_eventsD: "produces m R \<Longrightarrow> R (result m s) (events m s)"
  by (auto simp: produces_def result_def events_def dest!: spec [of _ s])

lemma produces_mono:
  assumes "produces m R" and "\<And>a es. R a es \<Longrightarrow> R' a es"
  shows "produces m R'"
  using assms by (fastforce simp: produces_def)

lemma produces_return [io_intro]: "R a [] \<Longrightarrow> produces (return a) R"
  by (rule producesI) (simp add: return_def)

lemma produces_bind [io_intro]:
  assumes "produces m (\<lambda>a es. produces (f a) (\<lambda>b es'. R b (es @ es')))"
  shows "produces (State_Monad.bind m f) R"
proof (rule producesI)
  fix s
  obtain a s' where m: "run_state m s = (a, s')" by (cases "run_state m s")
  have "\<exists>es. trace (snd (run_state m s)) = trace s @ es
      \<and> produces (f (fst (run_state m s))) (\<lambda>b es'. R b (es @ es'))"
    using assms by (simp add: produces_def [of m])
  then obtain es where es: "trace s' = trace s @ es" and f: "produces (f a) (\<lambda>b es'. R b (es @ es'))"
    using m by auto
  from f obtain es' where "trace (snd (run_state (f a) s')) = trace s' @ es'"
      "R (fst (run_state (f a) s')) (es @ es')"
    unfolding produces_def by blast
  with m es show "\<exists>es. trace (snd (run_state (State_Monad.bind m f) s)) = trace s @ es
      \<and> R (fst (run_state (State_Monad.bind m f) s)) es"
    by simp
qed

text \<open>A run that first reads something without a call: the rest may depend on what was read.\<close>

lemma produces_after:
  assumes "produces m (\<lambda>_ es. es = [])" and "\<And>a. produces (f a) (R a)"
  shows "R (result m s) (result (State_Monad.bind m f) s) (events (State_Monad.bind m f) s)"
proof -
  obtain a s' where m: "run_state m s = (a, s')" by (cases "run_state m s")
  with assms(1) have "trace s' = trace s" unfolding produces_def by (metis append_Nil2 snd_conv)
  with m produces_eventsD [OF assms(2), of a s'] show ?thesis by (simp add: events_def result_def)
qed

lemma produces_Now [io_intro]: "(\<And>t. R t []) \<Longrightarrow> produces (Now f) R"
  by (rule producesI) (simp add: Now_def emit_def split: prod.splits)

lemma produces_Get [io_intro]:
  "(\<And>e. R (Inl e) []) \<Longrightarrow> (\<And>x. R (Inr x) [EvRead (mk x)]) \<Longrightarrow> produces (Get mk ops k) R"
  by (rule producesI) (simp add: Get_def emit_def split: prod.splits sum.splits)

lemma produces_List_objs [io_intro]:
  "(\<And>e. R (Inl e) []) \<Longrightarrow> (\<And>xs. R (Inr xs) (map (EvRead \<circ> mk) xs)) \<Longrightarrow>
   produces (List_objs mk ops ns labels) R"
  by (rule producesI) (simp add: List_objs_def emit_def split: prod.splits sum.splits)

lemma produces_call_obj: "(\<And>r. R r [ev]) \<Longrightarrow> produces (call_obj ev f) R"
  by (rule producesI) (simp add: call_obj_def emit_def split: prod.splits)

lemma produces_Create [io_intro]: "(\<And>r. R r [EvCreate (mk x)]) \<Longrightarrow> produces (Create mk ops x) R"
  unfolding Create_def by (rule produces_call_obj)

lemma produces_Update [io_intro]: "(\<And>r. R r [EvUpdate (mk x)]) \<Longrightarrow> produces (Update mk ops x) R"
  unfolding Update_def by (rule produces_call_obj)

lemma produces_StatusUpdate [io_intro]:
  "(\<And>r. R r [EvUpdateStatus (mk x)]) \<Longrightarrow> produces (StatusUpdate mk ops x) R"
  unfolding StatusUpdate_def by (rule produces_call_obj)

lemma produces_Delete [io_intro]: "(\<And>r. R r [EvDelete (mk x)]) \<Longrightarrow> produces (Delete mk ops x) R"
  by (rule producesI) (simp add: Delete_def emit_def split: prod.splits)

lemma produces_sum [io_intro]:
  "(\<And>e. r = Inl e \<Longrightarrow> produces (f e) R) \<Longrightarrow> (\<And>x. r = Inr x \<Longrightarrow> produces (g x) R) \<Longrightarrow>
   produces (case r of Inl e \<Rightarrow> f e | Inr x \<Rightarrow> g x) R"
  by (cases r) auto

lemma produces_option [io_intro]:
  "(r = None \<Longrightarrow> produces f R) \<Longrightarrow> (\<And>x. r = Some x \<Longrightarrow> produces (g x) R) \<Longrightarrow>
   produces (case r of None \<Rightarrow> f | Some x \<Rightarrow> g x) R"
  by (cases r) auto

lemma produces_if [io_intro]:
  "(b \<Longrightarrow> produces f R) \<Longrightarrow> (\<not> b \<Longrightarrow> produces g R) \<Longrightarrow> produces (if b then f else g) R"
  by simp

lemma produces_prod [io_intro]:
  "(\<And>x y. p = (x, y) \<Longrightarrow> produces (f x y) R) \<Longrightarrow> produces (case p of (x, y) \<Rightarrow> f x y) R"
  by (cases p) auto

lemma produces_Let [io_intro]: "produces (f x) R \<Longrightarrow> produces (let y = x in f y) R"
  by simp

text \<open>Predicates on event lists that a concatenation keeps: with them a program is checked piece by
  piece.\<close>

definition append_closed :: "(event list \<Rightarrow> bool) \<Rightarrow> bool" where
  "append_closed R \<longleftrightarrow> R [] \<and> (\<forall>es es'. R es \<longrightarrow> R es' \<longrightarrow> R (es @ es'))"

lemma append_closed_Nil: "append_closed R \<Longrightarrow> R []"
  by (simp add: append_closed_def)

lemma append_closed_append: "append_closed R \<Longrightarrow> R es \<Longrightarrow> R es' \<Longrightarrow> R (es @ es')"
  by (simp add: append_closed_def)

lemma append_closed_list_all [simp]: "append_closed (list_all P)"
  by (simp add: append_closed_def)

lemma produces_bind_closed:
  assumes "append_closed R" and "produces m (\<lambda>_. R)" and "\<And>a. produces (f a) (\<lambda>_. R)"
  shows "produces (State_Monad.bind m f) (\<lambda>_. R)"
proof (rule produces_bind, rule produces_mono [OF assms(2)])
  fix a es assume "R es"
  then show "produces (f a) (\<lambda>_ es'. R (es @ es'))"
    using assms(3) [of a] append_closed_append [OF assms(1)] by (blast intro: produces_mono)
qed

text \<open>The same with what the first program says about its value.\<close>

lemma produces_bind_closed_val:
  assumes "append_closed R" and "produces m (\<lambda>a es. R es \<and> Q a)"
    and "\<And>a. Q a \<Longrightarrow> produces (f a) (\<lambda>_. R)"
  shows "produces (State_Monad.bind m f) (\<lambda>_. R)"
proof (rule produces_bind, rule produces_mono [OF assms(2)])
  fix a es assume "R es \<and> Q a"
  then show "produces (f a) (\<lambda>_ es'. R (es @ es'))"
    using assms(3) [of a] append_closed_append [OF assms(1)] by (blast intro: produces_mono)
qed

lemma produces_conj:
  "produces m R \<Longrightarrow> produces m R' \<Longrightarrow> produces m (\<lambda>a es. R a es \<and> R' a es)"
  by (auto simp: produces_def) (metis append_same_eq same_append_eq)

end
