(* ===== verification/Labels.thy ===== *)
theory Labels
  imports Kube
begin

text \<open>
  The labels and the names of the objects a GameServer owns (\<open>internal/controller/builders.go\<close>,
  lines 25 to 85, and \<open>snapshot_builders.go\<close>): constants, \<open>baseLabels\<close>, \<open>selectorLabels\<close>,
  \<open>PVCName\<close>, \<open>DeploymentName\<close>, \<open>ServiceName\<close> and \<open>VolumeSnapshotName\<close>. The locale \<open>child_name\<close>
  is the interface of a deterministic name: two owners of one namespace never share a child.
\<close>

section \<open>Constants\<close>

definition appName :: string where [simp]: "appName = ''gameserver''"
definition managedByValue :: string where [simp]: "managedByValue = ''gameserver-operator''"
definition labelName :: string where "labelName = ''app.kubernetes.io/name''"
definition labelInstance :: string where "labelInstance = ''app.kubernetes.io/instance''"
definition labelManagedBy :: string where "labelManagedBy = ''app.kubernetes.io/managed-by''"
definition labelTemplate :: string where "labelTemplate = ''gameserver.feddern.dev/template''"
definition labelBackup :: string where "labelBackup = ''gameserver.feddern.dev/backup''"
definition labelSchedule :: string where "labelSchedule = ''gameserver.feddern.dev/schedule''"
definition dataVolumeName :: string where [simp]: "dataVolumeName = ''data''"
definition gameContainerName :: string where [simp]: "gameContainerName = ''game''"
definition snapshotAPIGroup :: string where [simp]: "snapshotAPIGroup = ''snapshot.storage.k8s.io''"

lemmas label_name_defs = labelName_def labelInstance_def labelManagedBy_def labelTemplate_def
  labelBackup_def labelSchedule_def

lemma label_names_neq [simp]:
  "labelName \<noteq> labelInstance" "labelName \<noteq> labelManagedBy" "labelName \<noteq> labelTemplate"
  "labelName \<noteq> labelBackup" "labelName \<noteq> labelSchedule"
  "labelInstance \<noteq> labelManagedBy" "labelInstance \<noteq> labelTemplate"
  "labelInstance \<noteq> labelBackup" "labelInstance \<noteq> labelSchedule"
  "labelManagedBy \<noteq> labelTemplate" "labelManagedBy \<noteq> labelBackup" "labelManagedBy \<noteq> labelSchedule"
  by (simp_all add: label_name_defs)

lemmas label_names_neq_sym [simp] = label_names_neq [THEN not_sym]

section \<open>Labels\<close>

definition baseLabels :: "game_server \<Rightarrow> (string, string) fmap" where
  "baseLabels gs =
     fmupd labelName appName (fmupd labelInstance (mName (gsMeta gs))
       (fmupd labelManagedBy managedByValue
         (fmupd labelTemplate (gsTemplateRefName (gsSpec gs)) fmempty)))"

definition selectorLabels :: "game_server \<Rightarrow> (string, string) fmap" where
  "selectorLabels gs = fmupd labelName appName (fmupd labelInstance (mName (gsMeta gs)) fmempty)"

text \<open>A label selector matches an object whose labels contain all its pairs.\<close>

definition selector_matches :: "(string, string) fmap \<Rightarrow> (string, string) fmap \<Rightarrow> bool" where
  "selector_matches sel labels \<longleftrightarrow> fmpred (\<lambda>k v. fmlookup labels k = Some v) sel"

lemma baseLabels_lookup [simp]:
  "fmlookup (baseLabels gs) labelName = Some appName"
  "fmlookup (baseLabels gs) labelInstance = Some (mName (gsMeta gs))"
  "fmlookup (baseLabels gs) labelManagedBy = Some managedByValue"
  "fmlookup (baseLabels gs) labelTemplate = Some (gsTemplateRefName (gsSpec gs))"
  by (simp_all add: baseLabels_def)

lemma selector_matches_iff:
  "selector_matches (selectorLabels gs) ls \<longleftrightarrow>
     fmlookup ls labelName = Some appName \<and> fmlookup ls labelInstance = Some (mName (gsMeta gs))"
  by (simp add: selector_matches_def selectorLabels_def fmpred_upd_fresh)

section \<open>Names\<close>

definition PVCName :: "game_server \<Rightarrow> string" where
  "PVCName gs = mName (gsMeta gs) @ ''-data''"

definition DeploymentName :: "game_server \<Rightarrow> string" where
  "DeploymentName gs = mName (gsMeta gs)"

definition ServiceName :: "game_server \<Rightarrow> string \<Rightarrow> string" where
  "ServiceName gs exposeAs = mName (gsMeta gs) @ ''-'' @ ToLower exposeAs"

definition VolumeSnapshotName :: "backup \<Rightarrow> string" where
  "VolumeSnapshotName b = mName (bMeta b)"

locale child_name =
  fixes meta_of :: "'o \<Rightarrow> object_meta"
    and child :: "'o \<Rightarrow> string"
  assumes child_determines_name: "child a = child b \<Longrightarrow> mName (meta_of a) = mName (meta_of b)"
    and child_deterministic: "mName (meta_of a) = mName (meta_of b) \<Longrightarrow> child a = child b"
begin

lemma same_child_same_owner:
  "(mNamespace (meta_of a), child a) = (mNamespace (meta_of b), child b) \<longleftrightarrow>
   object_key (meta_of a) = object_key (meta_of b)"
  by (auto simp: object_key_def dest: child_determines_name child_deterministic)

end

text \<open>The three exposure types of the CRD enum.\<close>

definition exposure_types :: "string set" where
  "exposure_types = {ExposureClusterIP, ExposureNodePort, ExposureLoadBalancer}"

lemma exposure_types_cases:
  assumes "e \<in> exposure_types"
  obtains "e = ExposureClusterIP" | "e = ExposureNodePort" | "e = ExposureLoadBalancer"
  using assms by (auto simp: exposure_types_def)

interpretation pvc_name: child_name gsMeta PVCName
  by unfold_locales (simp_all add: PVCName_def)

interpretation deployment_name: child_name gsMeta DeploymentName
  by unfold_locales (simp_all add: DeploymentName_def)

interpretation service_name: child_name gsMeta "\<lambda>gs. ServiceName gs e" for e
  by unfold_locales (simp_all add: ServiceName_def)

interpretation snapshot_name: child_name bMeta VolumeSnapshotName
  by unfold_locales (simp_all add: VolumeSnapshotName_def)

lemma ToLower_exposures [simp]:
  "ToLower ''ClusterIP'' = ''clusterip''" "ToLower ''NodePort'' = ''nodeport''"
  "ToLower ''LoadBalancer'' = ''loadbalancer''"
  by code_simp+

lemma last_segment_inject:
  assumes "x @ c # u = y @ c # v" and "c \<notin> set u" and "c \<notin> set v"
  shows "x = y \<and> u = v"
proof -
  have "takeWhile (\<lambda>d. d \<noteq> c) (rev (x @ c # u)) = rev u"
    and "takeWhile (\<lambda>d. d \<noteq> c) (rev (y @ c # v)) = rev v"
    using assms(2,3) by (auto simp: takeWhile_append)
  with assms(1) show ?thesis by auto
qed

text \<open>Two Services of one namespace have the same name only if they belong to the same GameServer
  and the same exposure type: the lower-cased type holds no dash.\<close>

lemma ServiceName_inject:
  assumes "e \<in> exposure_types" and "e' \<in> exposure_types"
    and "ServiceName a e = ServiceName b e'"
  shows "mName (gsMeta a) = mName (gsMeta b) \<and> e = e'"
proof -
  have nodash: "CHR ''-'' \<notin> set (ToLower x)" if "x \<in> exposure_types" for x
    using that by (auto simp: exposure_types_def)
  from assms(3) have "mName (gsMeta a) @ CHR ''-'' # ToLower e = mName (gsMeta b) @ CHR ''-'' # ToLower e'"
    by (simp add: ServiceName_def)
  from last_segment_inject [OF this nodash [OF assms(1)] nodash [OF assms(2)]]
  have "mName (gsMeta a) = mName (gsMeta b) \<and> ToLower e = ToLower e'" .
  with assms(1,2) show ?thesis by (auto simp: exposure_types_def)
qed

end
