(* ===== verification/Security.thy ===== *)
theory Security
  imports Kube
begin

text \<open>
  \<open>internal/controller/security.go\<close>: the security contexts and service account names of the game pod
  and of the manager, and the posture that \<open>docs/design.md\<close> and \<open>docs/openshift.md\<close> promise for
  every pod the operator creates.
\<close>

section \<open>security.go\<close>

definition AnyUIDServiceAccountName :: string where
  [simp]: "AnyUIDServiceAccountName = ''gameserver-anyuid''"

definition DefaultServiceAccountName :: string where
  [simp]: "DefaultServiceAccountName = ''gameserver-restricted''"

definition SeccompProfileTypeRuntimeDefault :: string where
  [simp]: "SeccompProfileTypeRuntimeDefault = ''RuntimeDefault''"

definition PodSecurityContext :: "string \<Rightarrow> pod_security_context" where
  "PodSecurityContext profile =
     (let seccomp = SeccompProfileTypeRuntimeDefault in
      if profile = SecurityProfileAnyUID
      then \<lparr>pscRunAsNonRoot = None, pscRunAsUser = None, pscFSGroup = None,
            pscSeccompProfile = Some seccomp\<rparr>
      else \<lparr>pscRunAsNonRoot = Some True, pscRunAsUser = None, pscFSGroup = None,
            pscSeccompProfile = Some seccomp\<rparr>)"

definition ContainerSecurityContext :: "string \<Rightarrow> security_context" where
  "ContainerSecurityContext profile =
     (let allowPriv = False; priv = False in
      \<lparr>scPrivileged = Some priv, scAllowPrivilegeEscalation = Some allowPriv,
       scReadOnlyRootFilesystem = None, scRunAsUser = None,
       scCapabilitiesAdd = [], scCapabilitiesDrop = [''ALL'']\<rparr>)"

definition ServiceAccountForProfile :: "string \<Rightarrow> string" where
  "ServiceAccountForProfile profile =
     (if profile = SecurityProfileAnyUID then AnyUIDServiceAccountName else DefaultServiceAccountName)"

definition ManagerContainerSecurityContext :: security_context where
  "ManagerContainerSecurityContext =
     (let allowPriv = False; priv = False; readOnly = True in
      \<lparr>scPrivileged = Some priv, scAllowPrivilegeEscalation = Some allowPriv,
       scReadOnlyRootFilesystem = Some readOnly, scRunAsUser = None,
       scCapabilitiesAdd = [], scCapabilitiesDrop = [''ALL'']\<rparr>)"

section \<open>The documented posture\<close>

definition hardened_container :: "security_context option \<Rightarrow> bool" where
  "hardened_container c \<longleftrightarrow>
     (case c of None \<Rightarrow> False
      | Some sc \<Rightarrow> scPrivileged sc = Some False \<and> scAllowPrivilegeEscalation sc = Some False
          \<and> scCapabilitiesAdd sc = [] \<and> ''ALL'' \<in> set (scCapabilitiesDrop sc)
          \<and> scRunAsUser sc = None)"

definition no_host_access :: "pod_spec \<Rightarrow> bool" where
  "no_host_access ps \<longleftrightarrow>
     \<not> psHostNetwork ps \<and> \<not> psHostPID ps \<and> \<not> psHostIPC ps
     \<and> list_all (\<lambda>v. case volSource v of HostPath _ \<Rightarrow> False | _ \<Rightarrow> True) (psVolumes ps)"

text \<open>What holds of every game pod, whatever its profile.\<close>

definition baseline_pod :: "pod_spec \<Rightarrow> bool" where
  "baseline_pod ps \<longleftrightarrow>
     psContainers ps \<noteq> [] \<and> list_all (\<lambda>c. hardened_container (ctSecurityContext c)) (psContainers ps)
     \<and> no_host_access ps
     \<and> (case psSecurityContext ps of None \<Rightarrow> False
        | Some psc \<Rightarrow> pscSeccompProfile psc = Some SeccompProfileTypeRuntimeDefault
            \<and> pscRunAsUser psc = None \<and> pscFSGroup psc = None)"

text \<open>The default profile also forbids root.\<close>

definition restricted_pod :: "pod_spec \<Rightarrow> bool" where
  "restricted_pod ps \<longleftrightarrow>
     baseline_pod ps \<and> psServiceAccountName ps = DefaultServiceAccountName
     \<and> (case psSecurityContext ps of None \<Rightarrow> False | Some psc \<Rightarrow> pscRunAsNonRoot psc = Some True)"

definition anyuid_pod :: "pod_spec \<Rightarrow> bool" where
  "anyuid_pod ps \<longleftrightarrow>
     baseline_pod ps \<and> psServiceAccountName ps = AnyUIDServiceAccountName
     \<and> (case psSecurityContext ps of None \<Rightarrow> False | Some psc \<Rightarrow> pscRunAsNonRoot psc = None)"

lemma hardened_ContainerSecurityContext [simp]:
  "hardened_container (Some (ContainerSecurityContext profile))"
  by (simp add: hardened_container_def ContainerSecurityContext_def Let_def)

lemma hardened_Manager [simp]: "hardened_container (Some ManagerContainerSecurityContext)"
  by (simp add: hardened_container_def ManagerContainerSecurityContext_def Let_def)

lemma PodSecurityContext_simps [simp]:
  "pscSeccompProfile (PodSecurityContext profile) = Some SeccompProfileTypeRuntimeDefault"
  "pscRunAsUser (PodSecurityContext profile) = None"
  "pscFSGroup (PodSecurityContext profile) = None"
  "pscRunAsNonRoot (PodSecurityContext profile) =
     (if profile = SecurityProfileAnyUID then None else Some True)"
  by (simp_all add: PodSecurityContext_def Let_def)

end
