(* ===== verification/Config.thy ===== *)
theory Config
  imports Kube
begin

text \<open>
  Configuration of a game server (\<open>builders.go\<close>): \<open>ValidateConfig\<close> and \<open>joinKeys\<close>, which check
  \<open>spec.config\<close> against the template's \<open>configKeys\<close>, and \<open>resolveEnv\<close>, which computes the
  container's environment. Both iterate over Go maps, in an order the runtime chooses: the model takes
  that order from \<open>MapOrder\<close>, and the lemmas show what does not depend on it.
\<close>

section \<open>ValidateConfig\<close>

text \<open>\<open>byName\<close> and \<open>byConfigName\<close>: the last key of a name wins.\<close>

definition keys_by_name :: "config_key list \<Rightarrow> (string, config_key) fmap" where
  "keys_by_name keys = foldl (\<lambda>m k. fmupd (ckName k) k m) fmempty keys"

definition joinKeys :: "lib \<Rightarrow> (string, config_key) fmap \<Rightarrow> string" where
  "joinKeys L m = (let names = MapOrder L (fmdom m) in Join (sort names) '', '')"

text \<open>The body of the loop over \<open>gs.Spec.Config\<close>: the error it returns, if any.\<close>

definition check_entry :: "lib \<Rightarrow> game_template \<Rightarrow> (string, config_key) fmap \<Rightarrow> string \<Rightarrow> string
    \<Rightarrow> go_error option" where
  "check_entry L tpl byName k v =
     (case fmlookup byName k of
        None \<Rightarrow> Some (errorf (''unknown config key '' @ Quote k @ '' (template '' @ Quote (mName (tplMeta tpl))
                  @ '' allows: '' @ joinKeys L byName @ '')''))
      | Some key \<Rightarrow>
          (if ckType key = '''' \<or> ckType key = ConfigKeyTypeString then None
           else if ckType key = ConfigKeyTypeInt then
             (case Atoi v of
                None \<Rightarrow> Some (errorf (''config key '' @ Quote k @ '' expects int, got '' @ Quote v))
              | Some _ \<Rightarrow> None)
           else if ckType key = ConfigKeyTypeBool then
             (case ParseBool v of
                None \<Rightarrow> Some (errorf (''config key '' @ Quote k @ '' expects bool, got '' @ Quote v))
              | Some _ \<Rightarrow> None)
           else if ckType key = ConfigKeyTypeEnum then
             (if v \<notin> set (ckEnum key)
              then Some (errorf (''config key '' @ Quote k @ '' must be one of '' @ show_strings (ckEnum key)
                     @ '', got '' @ Quote v))
              else None)
           else None))"

fun check_entries :: "lib \<Rightarrow> game_template \<Rightarrow> (string, config_key) fmap \<Rightarrow> (string, string) fmap
    \<Rightarrow> string list \<Rightarrow> go_error option" where
  "check_entries L tpl byName config [] = None"
| "check_entries L tpl byName config (k # ks) =
     (case fmlookup config k of
        None \<Rightarrow> check_entries L tpl byName config ks
      | Some v \<Rightarrow>
          (case check_entry L tpl byName k v of
             Some e \<Rightarrow> Some e
           | None \<Rightarrow> check_entries L tpl byName config ks))"

fun check_required :: "game_template \<Rightarrow> (string, string) fmap \<Rightarrow> config_key list \<Rightarrow> go_error option" where
  "check_required tpl config [] = None"
| "check_required tpl config (key # keys) =
     (if \<not> ckRequired key then check_required tpl config keys
      else if fmlookup config (ckName key) \<noteq> None then check_required tpl config keys
      else if ckDefault key \<noteq> '''' then check_required tpl config keys
      else Some (errorf (''required config key '' @ Quote (ckName key) @ '' missing (template ''
             @ Quote (mName (tplMeta tpl)) @ '')'')))"

definition ValidateConfig :: "lib \<Rightarrow> game_server \<Rightarrow> game_template \<Rightarrow> go_error option" where
  "ValidateConfig L gs tpl =
     (let config = gsConfig (gsSpec gs);
          keys = tplConfigKeys (tplSpec tpl);
          byName = keys_by_name keys
      in case check_entries L tpl byName config (MapOrder L (fmdom config)) of
           Some e \<Rightarrow> Some e
         | None \<Rightarrow> check_required tpl config keys)"

section \<open>resolveEnv\<close>

text \<open>The closure \<open>add\<close> over \<open>byName\<close> and \<open>order\<close>.\<close>

type_synonym env_state = "(string, env_var) fmap \<times> string list"

definition env_add :: "env_state \<Rightarrow> env_var \<Rightarrow> env_state" where
  "env_add st e =
     (case st of (byName, order) \<Rightarrow>
        (fmupd (evName e) e byName,
         (if fmlookup byName (evName e) = None then order @ [evName e] else order)))"

definition plain_env :: "string \<Rightarrow> string \<Rightarrow> env_var" where
  "plain_env n v = \<lparr>evName = n, evValue = v, evValueFrom = None\<rparr>"

definition add_default :: "env_state \<Rightarrow> config_key \<Rightarrow> env_state" where
  "add_default st key =
     (if ckDefault key = '''' then st else env_add st (plain_env (ckEnvVar key) (ckDefault key)))"

definition add_config :: "(string, config_key) fmap \<Rightarrow> (string, string) fmap \<Rightarrow> env_state \<Rightarrow> string
    \<Rightarrow> env_state" where
  "add_config byConfigName config st k =
     (case fmlookup byConfigName k of
        None \<Rightarrow> st
      | Some key \<Rightarrow>
          env_add st (plain_env (ckEnvVar key) (case fmlookup config k of Some v \<Rightarrow> v | None \<Rightarrow> '''')))"

definition resolveEnv :: "lib \<Rightarrow> game_server \<Rightarrow> game_template \<Rightarrow> env_var list" where
  "resolveEnv L gs tpl =
     (let config = gsConfig (gsSpec gs);
          keys = tplConfigKeys (tplSpec tpl);
          st = foldl env_add (fmempty, []) (tplEnv (tplSpec tpl));
          st = foldl add_default st keys;
          byConfigName = keys_by_name keys;
          names = sort (MapOrder L (fmdom config));
          st = foldl (add_config byConfigName config) st names;
          (byName, order) = foldl env_add st (gsEnvOverride (gsSpec gs))
      in map (\<lambda>n. case fmlookup byName n of Some e \<Rightarrow> e | None \<Rightarrow> plain_env '''' '''') order)"

section \<open>What ValidateConfig decides\<close>

text \<open>What is assumed of Go's iteration order over a map: every key, once.\<close>

definition map_order :: "(string fset \<Rightarrow> string list) \<Rightarrow> bool" where
  "map_order f \<longleftrightarrow> (\<forall>A. distinct (f A) \<and> set (f A) = fset A)"

definition declared_key :: "game_template \<Rightarrow> string \<Rightarrow> config_key option" where
  "declared_key tpl k = find (\<lambda>key. ckName key = k) (rev (tplConfigKeys (tplSpec tpl)))"

definition value_ok :: "config_key \<Rightarrow> string \<Rightarrow> bool" where
  "value_ok key v \<longleftrightarrow>
     (ckType key = ConfigKeyTypeInt \<longrightarrow> Atoi v \<noteq> None)
     \<and> (ckType key = ConfigKeyTypeBool \<longrightarrow> ParseBool v \<noteq> None)
     \<and> (ckType key = ConfigKeyTypeEnum \<longrightarrow> v \<in> set (ckEnum key))"

definition config_ok :: "game_server \<Rightarrow> game_template \<Rightarrow> bool" where
  "config_ok gs tpl \<longleftrightarrow>
     fmpred (\<lambda>k v. case declared_key tpl k of None \<Rightarrow> False | Some key \<Rightarrow> value_ok key v)
       (gsConfig (gsSpec gs))
     \<and> list_all (\<lambda>key. ckRequired key \<longrightarrow>
          fmlookup (gsConfig (gsSpec gs)) (ckName key) \<noteq> None \<or> ckDefault key \<noteq> '''')
        (tplConfigKeys (tplSpec tpl))"

lemma keys_by_name_lookup:
  "fmlookup (keys_by_name keys) k = find (\<lambda>key. ckName key = k) (rev keys)"
  unfolding keys_by_name_def by (induction keys rule: rev_induct) auto

lemma declared_key_eq:
  "fmlookup (keys_by_name (tplConfigKeys (tplSpec tpl))) k = declared_key tpl k"
  by (simp add: declared_key_def keys_by_name_lookup)

lemma declared_key_Some:
  "declared_key tpl k = Some key \<Longrightarrow> key \<in> set (tplConfigKeys (tplSpec tpl)) \<and> ckName key = k"
  by (auto simp: declared_key_def dest: find_SomeD)

lemma check_entry_None:
  "check_entry L tpl byName k v = None \<longleftrightarrow>
     (case fmlookup byName k of None \<Rightarrow> False | Some key \<Rightarrow> value_ok key v)"
  by (auto simp: check_entry_def value_ok_def split: option.splits)

lemma check_entries_None:
  "check_entries L tpl byName config ks = None \<longleftrightarrow>
     (\<forall>k \<in> set ks. case fmlookup config k of None \<Rightarrow> True | Some v \<Rightarrow> check_entry L tpl byName k v = None)"
  by (induction ks) (auto split: option.splits)

lemma check_entries_Some:
  "check_entries L tpl byName config ks = Some e \<Longrightarrow>
     \<exists>k v. k \<in> set ks \<and> fmlookup config k = Some v \<and> check_entry L tpl byName k v = Some e"
  by (induction ks) (auto split: option.splits)

lemma check_required_None:
  "check_required tpl config keys = None \<longleftrightarrow>
     list_all (\<lambda>key. ckRequired key \<longrightarrow> fmlookup config (ckName key) \<noteq> None \<or> ckDefault key \<noteq> '''') keys"
  by (induction keys) auto

lemma check_required_Some:
  "check_required tpl config keys = Some e \<Longrightarrow>
     \<exists>key \<in> set keys. ckRequired key \<and> fmlookup config (ckName key) = None \<and> ckDefault key = ''''
       \<and> e = errorf (''required config key '' @ Quote (ckName key) @ '' missing (template ''
             @ Quote (mName (tplMeta tpl)) @ '')'')"
  by (induction keys) (auto split: if_splits)

lemma map_order_set: "map_order f \<Longrightarrow> set (f A) = fset A"
  by (simp add: map_order_def)

lemma map_order_sort:
  assumes "map_order f" and "map_order g"
  shows "sort (f A) = sort (g A)"
  using assms sort_eq_sorted_list_of_set [of "f A"] sort_eq_sorted_list_of_set [of "g A"]
  by (simp add: map_order_def)

lemma ValidateConfig_None:
  assumes "map_order (MapOrder L)"
  shows "ValidateConfig L gs tpl = None \<longleftrightarrow> config_ok gs tpl"
proof -
  have "check_entries L tpl byName config (MapOrder L (fmdom config)) = None \<longleftrightarrow>
      fmpred (\<lambda>k v. check_entry L tpl byName k v = None) config" for byName config
    by (fastforce simp: check_entries_None map_order_set [OF assms] fmpred_iff fmlookup_dom_iff
        split: option.splits)
  then show ?thesis
    by (simp add: ValidateConfig_def Let_def first_error_None config_ok_def check_required_None
        check_entry_None declared_key_eq)
qed

lemma check_entry_Some:
  "check_entry L tpl (keys_by_name (tplConfigKeys (tplSpec tpl))) k v = Some e \<Longrightarrow>
     (case declared_key tpl k of None \<Rightarrow> True | Some key \<Rightarrow> \<not> value_ok key v)"
  using check_entry_None [of L tpl "keys_by_name (tplConfigKeys (tplSpec tpl))" k v]
  by (auto simp: declared_key_eq split: option.splits)

lemma ValidateConfig_Some:
  assumes "ValidateConfig L gs tpl = Some e"
  shows "(\<exists>k v. fmlookup (gsConfig (gsSpec gs)) k = Some v
           \<and> (case declared_key tpl k of None \<Rightarrow> True | Some key \<Rightarrow> \<not> value_ok key v))
        \<or> (\<exists>key \<in> set (tplConfigKeys (tplSpec tpl)). ckRequired key \<and> ckDefault key = ''''
             \<and> fmlookup (gsConfig (gsSpec gs)) (ckName key) = None)"
proof (cases "check_entries L tpl (keys_by_name (tplConfigKeys (tplSpec tpl))) (gsConfig (gsSpec gs))
    (MapOrder L (fmdom (gsConfig (gsSpec gs))))")
  case None
  with assms have "check_required tpl (gsConfig (gsSpec gs)) (tplConfigKeys (tplSpec tpl)) = Some e"
    by (simp add: ValidateConfig_def)
  from check_required_Some [OF this] show ?thesis by blast
next
  case (Some e')
  from check_entries_Some [OF this] check_entry_Some show ?thesis by blast
qed

section \<open>What resolveEnv computes\<close>

text \<open>The environment writes in the order the code makes them.\<close>

definition default_env :: "game_template \<Rightarrow> env_var list" where
  "default_env tpl = map (\<lambda>key. plain_env (ckEnvVar key) (ckDefault key))
     (filter (\<lambda>key. ckDefault key \<noteq> '''') (tplConfigKeys (tplSpec tpl)))"

definition config_env :: "game_server \<Rightarrow> game_template \<Rightarrow> env_var list" where
  "config_env gs tpl = List.map_filter
     (\<lambda>k. case (declared_key tpl k, fmlookup (gsConfig (gsSpec gs)) k) of
        (Some key, Some v) \<Rightarrow> Some (plain_env (ckEnvVar key) v) | _ \<Rightarrow> None)
     (sorted_list_of_set (fset (fmdom (gsConfig (gsSpec gs)))))"

definition env_writes :: "game_server \<Rightarrow> game_template \<Rightarrow> env_var list" where
  "env_writes gs tpl = tplEnv (tplSpec tpl) @ default_env tpl @ config_env gs tpl @ gsEnvOverride (gsSpec gs)"

definition last_write :: "string \<Rightarrow> env_var list \<Rightarrow> env_var option" where
  "last_write n ws = find (\<lambda>e. evName e = n) (rev ws)"

definition env_lookup :: "string \<Rightarrow> env_var list \<Rightarrow> env_var option" where
  "env_lookup n env = find (\<lambda>e. evName e = n) env"

lemma last_write_snoc:
  "last_write n (ws @ [e]) = (if evName e = n then Some e else last_write n ws)"
  by (simp add: last_write_def)

lemma last_write_None: "last_write n ws = None \<longleftrightarrow> n \<notin> evName ` set ws"
  by (auto simp: last_write_def find_None_iff)

lemma env_add_pair:
  "env_add (m, ns) e =
     (fmupd (evName e) e m, if fmlookup m (evName e) = None then ns @ [evName e] else ns)"
  by (simp add: env_add_def)

lemma env_fold:
  assumes "foldl env_add (fmempty, []) ws = (m, ns)"
  shows "fmlookup m n = last_write n ws" and "ns = first_occurrences (map evName ws)"
proof -
  have "(\<forall>n. fmlookup (fst (foldl env_add (fmempty, []) ws)) n = last_write n ws) \<and>
      snd (foldl env_add (fmempty, []) ws) = first_occurrences (map evName ws)"
  proof (induction ws rule: rev_induct)
    case Nil
    then show ?case by (simp add: last_write_def first_occurrences_def)
  next
    case (snoc e ws)
    obtain m' ns' where st: "foldl env_add (fmempty, []) ws = (m', ns')"
      by (cases "foldl env_add (fmempty, []) ws")
    with snoc.IH have "\<And>n. fmlookup m' n = last_write n ws" "ns' = first_occurrences (map evName ws)"
      by simp_all
    with st show ?case
      by (simp add: env_add_pair last_write_snoc first_occurrences_snoc last_write_None)
  qed
  with assms show "fmlookup m n = last_write n ws" "ns = first_occurrences (map evName ws)"
    by auto
qed

lemma add_default_fold: "foldl add_default st (tplConfigKeys (tplSpec tpl)) = foldl env_add st (default_env tpl)"
proof -
  have "foldl add_default st keys = foldl env_add st (map (\<lambda>key. plain_env (ckEnvVar key) (ckDefault key))
      (filter (\<lambda>key. ckDefault key \<noteq> '''') keys))" for keys
    by (induction keys arbitrary: st) (auto simp: add_default_def)
  then show ?thesis by (simp add: default_env_def)
qed

lemma add_config_fold:
  assumes "map_order (MapOrder L)"
  shows "foldl (add_config (keys_by_name (tplConfigKeys (tplSpec tpl))) (gsConfig (gsSpec gs))) st
      (sort (MapOrder L (fmdom (gsConfig (gsSpec gs))))) = foldl env_add st (config_env gs tpl)"
proof -
  let ?c = "gsConfig (gsSpec gs)"
  have names: "sort (MapOrder L (fmdom ?c)) = sorted_list_of_set (fset (fmdom ?c))"
    using assms by (intro sort_eq_sorted_list_of_set) (simp_all add: map_order_def)
  have "foldl (add_config (keys_by_name (tplConfigKeys (tplSpec tpl))) ?c) st ks =
      foldl env_add st (List.map_filter (\<lambda>k. case (declared_key tpl k, fmlookup ?c k) of
        (Some key, Some v) \<Rightarrow> Some (plain_env (ckEnvVar key) v) | _ \<Rightarrow> None) ks)"
    if "set ks \<subseteq> fset (fmdom ?c)" for ks
    using that
    by (induction ks arbitrary: st)
      (auto simp: add_config_def declared_key_eq fmlookup_dom_iff split: option.splits)
  from this [of "sorted_list_of_set (fset (fmdom ?c))"] show ?thesis
    by (simp add: names config_env_def)
qed

lemma resolveEnv_eq:
  assumes "map_order (MapOrder L)"
  shows "resolveEnv L gs tpl =
    map (\<lambda>n. case last_write n (env_writes gs tpl) of Some e \<Rightarrow> e | None \<Rightarrow> plain_env '''' '''')
      (first_occurrences (map evName (env_writes gs tpl)))"
proof -
  obtain m ns where st: "foldl env_add (fmempty, []) (env_writes gs tpl) = (m, ns)"
    by (cases "foldl env_add (fmempty, []) (env_writes gs tpl)")
  then have "resolveEnv L gs tpl =
      map (\<lambda>n. case fmlookup m n of Some e \<Rightarrow> e | None \<Rightarrow> plain_env '''' '''') ns"
    by (simp add: resolveEnv_def Let_def add_default_fold add_config_fold [OF assms] env_writes_def)
  then show ?thesis by (simp add: env_fold [OF st])
qed

lemma last_write_name: "last_write n ws = Some e \<Longrightarrow> evName e = n"
  by (auto simp: last_write_def dest: find_SomeD)

lemma written_name:
  assumes "n \<in> set (first_occurrences (map evName ws))"
  shows "evName (case last_write n ws of Some e \<Rightarrow> e | None \<Rightarrow> plain_env '''' '''') = n"
  using assms last_write_None [of n ws]
  by (auto simp: first_occurrences_def split: option.splits dest: last_write_name)

lemma resolveEnv_names:
  assumes "map_order (MapOrder L)"
  shows "map evName (resolveEnv L gs tpl) = first_occurrences (map evName (env_writes gs tpl))"
  unfolding resolveEnv_eq [OF assms] map_map by (rule map_idI) (simp add: written_name)

lemma env_lookup_map:
  assumes "\<And>n. n \<in> set ns \<Longrightarrow> evName (f n) = n"
  shows "env_lookup n (map f ns) = (if n \<in> set ns then Some (f n) else None)"
  using assms by (induction ns) (auto simp: env_lookup_def)

lemma resolveEnv_lookup:
  assumes "map_order (MapOrder L)"
  shows "env_lookup n (resolveEnv L gs tpl) = last_write n (env_writes gs tpl)"
proof -
  let ?ws = "env_writes gs tpl"
  let ?f = "\<lambda>n. case last_write n ?ws of Some e \<Rightarrow> e | None \<Rightarrow> plain_env '''' ''''"
  have "env_lookup n (map ?f (first_occurrences (map evName ?ws))) =
      (if n \<in> set (first_occurrences (map evName ?ws)) then Some (?f n) else None)"
    by (rule env_lookup_map) (rule written_name)
  then show ?thesis
    unfolding resolveEnv_eq [OF assms]
    using last_write_None [of n ?ws] by (auto simp: first_occurrences_def split: option.splits)
qed

lemma last_write_append:
  "last_write n (xs @ ys) = (case last_write n ys of Some e \<Rightarrow> Some e | None \<Rightarrow> last_write n xs)"
  by (simp add: last_write_def find_append split: option.splits)

end
