(* ===== verification/Exposure.thy ===== *)
theory Exposure
  imports Labels
begin

text \<open>
  How a game server's ports are exposed (\<open>builders.go\<close>): \<open>resolveExposure\<close>, \<open>primaryPort\<close>,
  \<open>BuildServices\<close> and \<open>PrimaryAddress\<close>; and \<open>mergeServicePorts\<close> of
  \<open>gameserver_controller.go\<close>, which keeps assigned NodePorts over an update. The lemmas show that the
  Services partition the template's ports by effective exposure, and what the address is.
\<close>

section \<open>resolveExposure, primaryPort\<close>

definition ProtocolTCP :: string where [simp]: "ProtocolTCP = ''TCP''"

definition resolveExposure :: "game_server \<Rightarrow> template_port \<Rightarrow> string \<times> int32" where
  "resolveExposure gs p =
     (let exposure = (if tpExposeAs p = '''' then ExposureClusterIP else tpExposeAs p)
      in case find (\<lambda>o'. eoPortName o' = tpName p) (gsExposeOverride (gsSpec gs)) of
           Some o' \<Rightarrow> (eoExposeAs o', eoNodePort o')
         | None \<Rightarrow> (exposure, 0))"

definition primaryPort :: "game_server \<Rightarrow> game_template \<Rightarrow> template_port \<times> string \<times> int32" where
  "primaryPort gs tpl =
     (let ports = tplPorts (tplSpec tpl) in
      case ports of
        [] \<Rightarrow> (zero_template_port, '''', 0)
      | p0 # _ \<Rightarrow>
          (case find tpPrimary ports of
             Some p \<Rightarrow> (let (exp, np) = resolveExposure gs p in (p, exp, np))
           | None \<Rightarrow>
               (case find (\<lambda>p. tpProtocol p = '''' \<or> tpProtocol p = ProtocolTCP) ports of
                  Some p \<Rightarrow> (let (exp, np) = resolveExposure gs p in (p, exp, np))
                | None \<Rightarrow> (let (exp, np) = resolveExposure gs p0 in (p0, exp, np)))))"

section \<open>BuildServices\<close>

definition effective_protocol :: "template_port \<Rightarrow> string" where
  "effective_protocol p = (if tpProtocol p = '''' then ProtocolTCP else tpProtocol p)"

definition build_port :: "game_server \<Rightarrow> template_port \<Rightarrow> service_port" where
  "build_port gs p =
     (let (exposure, nodePort) = resolveExposure gs p;
          port = \<lparr>spName = tpName p, spPort = tpContainerPort p,
                  spTargetPort = FromInt (tpContainerPort p),
                  spProtocol = effective_protocol p, spNodePort = 0\<rparr>
      in if exposure = ExposureNodePort \<and> sint nodePort > 0 then port\<lparr>spNodePort := nodePort\<rparr> else port)"

text \<open>The loop body: \<open>groups\<close> and \<open>order\<close> are the loop's variables.\<close>

definition add_port ::
    "game_server \<Rightarrow> (string, service_port list) fmap \<times> string list \<Rightarrow> template_port
     \<Rightarrow> (string, service_port list) fmap \<times> string list" where
  "add_port gs st p =
     (case st of (groups, order) \<Rightarrow>
        let exposure = fst (resolveExposure gs p);
            order = (if fmlookup groups exposure = None then order @ [exposure] else order);
            old = (case fmlookup groups exposure of Some ps \<Rightarrow> ps | None \<Rightarrow> [])
        in (fmupd exposure (old @ [build_port gs p]) groups, order))"

definition build_service :: "game_server \<Rightarrow> string \<Rightarrow> service_port list \<Rightarrow> service" where
  "build_service gs exp ports =
     \<lparr>svcMeta = zero_meta\<lparr>mName := ServiceName gs exp, mNamespace := mNamespace (gsMeta gs),
                          mLabels := baseLabels gs\<rparr>,
      svcSpec = \<lparr>ssType = exp, ssSelector = selectorLabels gs, ssPorts = ports,
                 ssClusterIP = '''', ssRest = ''''\<rparr>,
      svcIngress = []\<rparr>"

definition BuildServices :: "game_server \<Rightarrow> game_template \<Rightarrow> service list" where
  "BuildServices gs tpl =
     (let (groups, order) = foldl (add_port gs) (fmempty, []) (tplPorts (tplSpec tpl))
      in map (\<lambda>exp. build_service gs exp (case fmlookup groups exp of Some ps \<Rightarrow> ps | None \<Rightarrow> [])) order)"

section \<open>PrimaryAddress\<close>

definition PrimaryAddress :: "game_server \<Rightarrow> game_template \<Rightarrow> service list \<Rightarrow> string" where
  "PrimaryAddress gs tpl services =
     (let (p, exp, np) = primaryPort gs tpl;
          svcName = ServiceName gs exp
      in if tpContainerPort p = 0 then ''''
         else case find (\<lambda>s. mName (svcMeta s) = svcName) services of
           None \<Rightarrow> ''''
         | Some svc \<Rightarrow>
             (if exp = ExposureClusterIP then
                (let host = ssClusterIP (svcSpec svc);
                     host = (if host = '''' \<or> host = ''None''
                             then svcName @ ''.'' @ mNamespace (gsMeta gs) @ ''.svc'' else host)
                 in host @ '':'' @ Itoa (sint (tpContainerPort p)))
              else if exp = ExposureNodePort then
                (let port = (if np = 0
                             then (case find (\<lambda>sp. spName sp = tpName p) (ssPorts (svcSpec svc)) of
                                     Some sp \<Rightarrow> spNodePort sp | None \<Rightarrow> 0)
                             else np)
                 in if port = 0 then '''' else ''<node>:'' @ Itoa (sint port))
              else if exp = ExposureLoadBalancer then
                (case svcIngress svc of
                   [] \<Rightarrow> ''''
                 | ing # _ \<Rightarrow>
                     (let host = (if lbHostname ing = '''' then lbIP ing else lbHostname ing)
                      in if host = '''' then '''' else host @ '':'' @ Itoa (sint (tpContainerPort p))))
              else ''''))"

section \<open>mergeServicePorts\<close>

definition mergeServicePorts :: "service_port list \<Rightarrow> service_port list \<Rightarrow> service_port list" where
  "mergeServicePorts existing desired =
     (let byName = foldl (\<lambda>m p. fmupd (spName p) p m) fmempty existing
      in map (\<lambda>d. case fmlookup byName (spName d) of
                    Some e \<Rightarrow> if spNodePort d = 0 then d\<lparr>spNodePort := spNodePort e\<rparr> else d
                  | None \<Rightarrow> d) desired)"

section \<open>Facts\<close>

abbreviation exposure_of :: "game_server \<Rightarrow> template_port \<Rightarrow> string" where
  "exposure_of gs p \<equiv> fst (resolveExposure gs p)"

text \<open>The specification of \<open>BuildServices\<close>: one Service per effective exposure, in the order of first
  occurrence, holding the ports of that exposure in template order.\<close>

definition services_spec :: "game_server \<Rightarrow> template_port list \<Rightarrow> service list" where
  "services_spec gs ports =
     map (\<lambda>e. build_service gs e (map (build_port gs) (filter (\<lambda>p. exposure_of gs p = e) ports)))
       (first_occurrences (map (exposure_of gs) ports))"

lemma add_port_pair:
  "add_port gs (groups, order) p =
     (fmupd (exposure_of gs p)
        ((case fmlookup groups (exposure_of gs p) of Some ps \<Rightarrow> ps | None \<Rightarrow> []) @ [build_port gs p]) groups,
      if fmlookup groups (exposure_of gs p) = None then order @ [exposure_of gs p] else order)"
  by (simp add: add_port_def Let_def)

lemma port_fold:
  assumes "foldl (add_port gs) (fmempty, []) ports = (groups, order)"
  shows "fmlookup groups e =
      (if e \<in> exposure_of gs ` set ports
       then Some (map (build_port gs) (filter (\<lambda>p. exposure_of gs p = e) ports)) else None)"
    and "order = first_occurrences (map (exposure_of gs) ports)"
proof -
  have "(\<forall>e. fmlookup groups e =
      (if e \<in> exposure_of gs ` set ports
       then Some (map (build_port gs) (filter (\<lambda>p. exposure_of gs p = e) ports)) else None)) \<and>
    order = first_occurrences (map (exposure_of gs) ports)"
    using assms
  proof (induction ports arbitrary: groups order rule: rev_induct)
    case Nil
    then show ?case by simp
  next
    case (snoc p ps)
    obtain g' o' where st: "foldl (add_port gs) (fmempty, []) ps = (g', o')"
      by (cases "foldl (add_port gs) (fmempty, []) ps")
    note IH = snoc.IH [OF st]
    have none: "filter (\<lambda>q. exposure_of gs q = exposure_of gs p) ps = []"
      if "exposure_of gs p \<notin> exposure_of gs ` set ps"
      using that unfolding filter_empty_conv by (force simp: image_iff)
    from snoc.prems st have eqs: "add_port gs (g', o') p = (groups, order)" by simp
    show ?case
    proof (cases "exposure_of gs p \<in> exposure_of gs ` set ps")
      case True
      with eqs IH show ?thesis by (auto simp: add_port_pair first_occurrences_snoc)
    next
      case False
      with eqs IH none [OF False] show ?thesis by (auto simp: add_port_pair first_occurrences_snoc)
    qed
  qed
  then show "fmlookup groups e =
      (if e \<in> exposure_of gs ` set ports
       then Some (map (build_port gs) (filter (\<lambda>p. exposure_of gs p = e) ports)) else None)"
    and "order = first_occurrences (map (exposure_of gs) ports)"
    by blast+
qed

lemma BuildServices_eq: "BuildServices gs tpl = services_spec gs (tplPorts (tplSpec tpl))"
proof -
  obtain g ord where st: "foldl (add_port gs) (fmempty, []) (tplPorts (tplSpec tpl)) = (g, ord)"
    by (cases "foldl (add_port gs) (fmempty, []) (tplPorts (tplSpec tpl))")
  show ?thesis
    by (auto simp: BuildServices_def st services_spec_def port_fold [OF st])
qed

lemma build_service_simps [simp]:
  "mName (svcMeta (build_service gs e ps)) = ServiceName gs e"
  "mNamespace (svcMeta (build_service gs e ps)) = mNamespace (gsMeta gs)"
  "mLabels (svcMeta (build_service gs e ps)) = baseLabels gs"
  "ssType (svcSpec (build_service gs e ps)) = e"
  "ssSelector (svcSpec (build_service gs e ps)) = selectorLabels gs"
  "ssPorts (svcSpec (build_service gs e ps)) = ps"
  "svcIngress (build_service gs e ps) = []"
  by (simp_all add: build_service_def)

lemma services_types:
  "map (\<lambda>s. ssType (svcSpec s)) (BuildServices gs tpl) =
     first_occurrences (map (exposure_of gs) (tplPorts (tplSpec tpl)))"
  by (simp add: BuildServices_eq services_spec_def comp_def)

lemma services_ports_mset:
  "mset (concat (map (\<lambda>s. ssPorts (svcSpec s)) (BuildServices gs tpl))) =
     mset (map (build_port gs) (tplPorts (tplSpec tpl)))"
proof -
  let ?ps = "tplPorts (tplSpec tpl)" and ?ks = "first_occurrences (map (exposure_of gs) (tplPorts (tplSpec tpl)))"
  have "concat (map (\<lambda>s. ssPorts (svcSpec s)) (BuildServices gs tpl)) =
      map (build_port gs) (concat (map (\<lambda>k. filter (\<lambda>p. exposure_of gs p = k) ?ps) ?ks))"
    by (simp add: BuildServices_eq services_spec_def map_concat comp_def)
  also have "mset \<dots> = image_mset (build_port gs) (mset ?ps)"
    by (subst mset_map, subst mset_concat_filter) auto
  finally show ?thesis by simp
qed

lemma primaryPort_cases:
  assumes "tplPorts (tplSpec tpl) \<noteq> []"
  obtains p where "p \<in> set (tplPorts (tplSpec tpl))"
    and "primaryPort gs tpl = (p, resolveExposure gs p)"
proof -
  obtain p0 ps where ports: "tplPorts (tplSpec tpl) = p0 # ps"
    using assms by (cases "tplPorts (tplSpec tpl)") auto
  let ?tcp = "find (\<lambda>p. tpProtocol p = '''' \<or> tpProtocol p = ProtocolTCP) (p0 # ps)"
  have "\<exists>p \<in> set (p0 # ps). primaryPort gs tpl = (p, resolveExposure gs p)"
  proof (cases "find tpPrimary (p0 # ps)")
    case (Some p)
    from find_SomeD [OF Some] have "p \<in> set (p0 # ps)" by simp
    with Some show ?thesis
      by (intro bexI [of _ p]) (simp_all add: primaryPort_def ports Let_def del: find.simps split: prod.splits)
  next
    case None
    show ?thesis
    proof (cases ?tcp)
      case (Some p)
      from find_SomeD [OF Some] have "p \<in> set (p0 # ps)" by simp
      with Some None show ?thesis
        by (intro bexI [of _ p]) (simp_all add: primaryPort_def ports Let_def del: find.simps split: prod.splits)
    next
      case None': None
      with None show ?thesis
        by (intro bexI [of _ p0]) (simp_all add: primaryPort_def ports Let_def del: find.simps split: prod.splits)
    qed
  qed
  then show thesis using that ports by auto
qed

text \<open>The Service of the primary port is among those built.\<close>

lemma primary_service_found:
  assumes "p \<in> set (tplPorts (tplSpec tpl))"
  shows "\<exists>s \<in> set (BuildServices gs tpl). mName (svcMeta s) = ServiceName gs (exposure_of gs p)"
  using assms by (auto simp: BuildServices_eq services_spec_def)

lemma by_name_lookup:
  "fmlookup (foldl (\<lambda>m p. fmupd (spName p) p m) fmempty ps) n = find (\<lambda>p. spName p = n) (rev ps)"
  by (induction ps rule: rev_induct) auto

lemma mergeServicePorts_map:
  "mergeServicePorts existing desired =
     map (\<lambda>d. case find (\<lambda>p. spName p = spName d) (rev existing) of
                Some e \<Rightarrow> if spNodePort d = 0 then d\<lparr>spNodePort := spNodePort e\<rparr> else d
              | None \<Rightarrow> d) desired"
  by (simp add: mergeServicePorts_def by_name_lookup Let_def)

lemma mergeServicePorts_idem:
  assumes "distinct (map spName desired)"
  shows "mergeServicePorts (mergeServicePorts existing desired) desired = mergeServicePorts existing desired"
proof -
  let ?f = "\<lambda>d. case find (\<lambda>p. spName p = spName d) (rev existing) of
                Some e \<Rightarrow> if spNodePort d = 0 then d\<lparr>spNodePort := spNodePort e\<rparr> else d
              | None \<Rightarrow> d"
  have name: "spName (?f d) = spName d" for d by (simp split: option.splits)
  have own: "find (\<lambda>p. spName p = spName d) (rev (map ?f desired)) = Some (?f d)" if "d \<in> set desired" for d
  proof -
    have "find (\<lambda>p. spName p = spName d) (rev (map ?f desired)) \<noteq> None"
      using that name by (auto simp: find_None_iff)
    then obtain p where p: "find (\<lambda>p. spName p = spName d) (rev (map ?f desired)) = Some p" by blast
    from find_SomeD [OF p] obtain d' where "d' \<in> set desired" "p = ?f d'" "spName p = spName d" by auto
    with name [of d'] have "spName d' = spName d" by simp
    with that \<open>d' \<in> set desired\<close> assms have "d' = d" by (metis distinct_map inj_onD)
    with p \<open>p = ?f d'\<close> show ?thesis by hypsubst
  qed
  show ?thesis
    unfolding mergeServicePorts_map by (rule map_cong [OF refl]) (use own in \<open>auto split: option.splits\<close>)
qed

lemma mergeServicePorts_names [simp]:
  "map spName (mergeServicePorts existing desired) = map spName desired"
  by (auto simp: mergeServicePorts_map comp_def split: option.splits)

lemma distinct_map_filter_ports: "distinct (map f xs) \<Longrightarrow> distinct (map f (filter P xs))"
  by (induction xs) auto

lemma service_of_template:
  assumes "s \<in> set (BuildServices gs tpl)"
  obtains P where "ssPorts (svcSpec s) = map (build_port gs) (filter P (tplPorts (tplSpec tpl)))"
proof -
  from assms have "ssPorts (svcSpec s) = map (build_port gs)
      (filter (\<lambda>p. exposure_of gs p = ssType (svcSpec s)) (tplPorts (tplSpec tpl)))"
    by (auto simp: BuildServices_eq services_spec_def)
  then show thesis by (rule that)
qed

lemma build_port_names [simp]:
  "spName (build_port gs p) = tpName p" "spPort (build_port gs p) = tpContainerPort p"
  by (simp_all add: build_port_def Let_def split_def)

lemma built_service_ports:
  assumes "distinct (map tpName (tplPorts (tplSpec tpl)))" and "s \<in> set (BuildServices gs tpl)"
  shows "distinct (map spName (ssPorts (svcSpec s)))"
  using assms(2) by (rule service_of_template) (simp add: comp_def distinct_map_filter_ports assms(1))

end
