(* ===== verification/Builders.thy ===== *)
theory Builders
  imports Labels Security Config Exposure
begin

text \<open>
  The objects the operator materialises: \<open>BuildPVC\<close> and \<open>BuildDeployment\<close> (\<open>builders.go\<close>),
  \<open>BuildVolumeSnapshot\<close> (\<open>snapshot_builders.go\<close>) and the ServiceAccount that
  \<open>ensureServiceAccount\<close> creates. \<open>resource.ParseQuantity\<close> is the parameter \<open>ParseQuantity\<close>. The
  facts say what each object holds and that every Deployment has the documented security posture.
\<close>

section \<open>BuildPVC\<close>

definition storage_size :: "game_server \<Rightarrow> game_template \<Rightarrow> string" where
  "storage_size gs tpl =
     (let size = soSize (gsStorage (gsSpec gs));
          size = (if size = '''' then tsDefaultSize (tplStorage (tplSpec tpl)) else size)
      in if size = '''' then ''10Gi'' else size)"

definition BuildPVC :: "lib \<Rightarrow> game_server \<Rightarrow> game_template \<Rightarrow> string option
    \<Rightarrow> go_error + persistent_volume_claim" where
  "BuildPVC L gs tpl sourceSnapshot =
     (let size = storage_size gs tpl in
      case ParseQuantity L size of
        Inl err \<Rightarrow> Inl (errorf (''invalid storage size '' @ Quote size @ '': '' @ err))
      | Inr qty \<Rightarrow>
          (let pvc = \<lparr>pvcMeta = zero_meta\<lparr>mName := PVCName gs, mNamespace := mNamespace (gsMeta gs),
                                          mLabels := baseLabels gs\<rparr>,
                      pvcSpec = \<lparr>pvcAccessModes = [''ReadWriteOnce''],
                                 pvcRequests = fmupd ''storage'' qty fmempty,
                                 pvcStorageClassName = None, pvcDataSourceRef = None,
                                 pvcSpecRest = ''''\<rparr>\<rparr>;
               class = soClassName (gsStorage (gsSpec gs));
               pvc = (if class \<noteq> '''' then pvc\<lparr>pvcSpec := (pvcSpec pvc)\<lparr>pvcStorageClassName := Some class\<rparr>\<rparr>
                      else pvc);
               pvc = (case sourceSnapshot of
                        Some snap \<Rightarrow>
                          if snap \<noteq> '''' then
                            pvc\<lparr>pvcSpec := (pvcSpec pvc)\<lparr>pvcDataSourceRef :=
                              Some \<lparr>torAPIGroup = Some snapshotAPIGroup, torKind = ''VolumeSnapshot'',
                                    torName = snap\<rparr>\<rparr>\<rparr>
                          else pvc
                      | None \<Rightarrow> pvc)
           in Inr pvc))"

section \<open>BuildDeployment\<close>

definition PullIfNotPresent :: string where [simp]: "PullIfNotPresent = ''IfNotPresent''"
definition RecreateDeploymentStrategyType :: string where
  [simp]: "RecreateDeploymentStrategyType = ''Recreate''"
definition RollingUpdateDeploymentStrategyType :: string where
  [simp]: "RollingUpdateDeploymentStrategyType = ''RollingUpdate''"

definition container_ports :: "game_template \<Rightarrow> container_port list" where
  "container_ports tpl =
     map (\<lambda>p. \<lparr>cpName = tpName p, cpContainerPort = tpContainerPort p,
               cpProtocol = effective_protocol p\<rparr>) (tplPorts (tplSpec tpl))"

text \<open>The probe the controller falls back to, on a port.\<close>

definition tcp_probe :: "int32 \<Rightarrow> probe" where
  "tcp_probe port = \<lparr>prHandler = TCPSocket (FromInt port), prInitialDelaySeconds = 30,
     prPeriodSeconds = 10, prTimeoutSeconds = 3, prFailureThreshold = 3, prRest = ''''\<rparr>"

definition game_container :: "lib \<Rightarrow> game_server \<Rightarrow> game_template \<Rightarrow> container" where
  "game_container L gs tpl =
     (let sp = tplSpec tpl;
          pullPolicy = (if tplImagePullPolicy sp = '''' then PullIfNotPresent else tplImagePullPolicy sp);
          dataPath = (if tsDataPath (tplStorage sp) = '''' then ''/data'' else tsDataPath (tplStorage sp));
          c = \<lparr>ctName = gameContainerName, ctImage = tplImage sp, ctImagePullPolicy = pullPolicy,
               ctCommand = tplCommand sp, ctArgs = tplArgs sp, ctEnv = resolveEnv L gs tpl,
               ctPorts = container_ports tpl, ctResources = gsResources (gsSpec gs),
               ctVolumeMounts = [\<lparr>vmName = dataVolumeName, vmMountPath = dataPath,
                                  vmSubPath = tsSubPath (tplStorage sp)\<rparr>],
               ctSecurityContext = Some (ContainerSecurityContext (tplSecurityProfile sp)),
               ctLivenessProbe = None, ctReadinessProbe = None\<rparr>
      in case tplProbes sp of
           Some probes \<Rightarrow> c\<lparr>ctLivenessProbe := probesLiveness probes, ctReadinessProbe := probesReadiness probes\<rparr>
         | None \<Rightarrow>
             (let (p, _, _) = primaryPort gs tpl
              in if sint (tpContainerPort p) > 0
                 then c\<lparr>ctReadinessProbe := Some (tcp_probe (tpContainerPort p))\<rparr> else c))"

definition BuildDeployment :: "lib \<Rightarrow> game_server \<Rightarrow> game_template \<Rightarrow> deployment" where
  "BuildDeployment L gs tpl =
     (let sp = tplSpec tpl;
          strategy = (if tplUpdateStrategy sp = UpdateRollingUpdate
                      then RollingUpdateDeploymentStrategyType else RecreateDeploymentStrategyType);
          replicas = (if gsSuspend (gsSpec gs) then 0 else 1)
      in \<lparr>depMeta = zero_meta\<lparr>mName := DeploymentName gs, mNamespace := mNamespace (gsMeta gs),
                              mLabels := baseLabels gs\<rparr>,
          depSpec = \<lparr>dsReplicas = Some replicas, dsStrategyType = strategy,
            dsSelector = selectorLabels gs, dsTemplateLabels = baseLabels gs,
            dsTemplateSpec =
              \<lparr>psServiceAccountName = ServiceAccountForProfile (tplSecurityProfile sp),
               psSecurityContext = Some (PodSecurityContext (tplSecurityProfile sp)),
               psContainers = [game_container L gs tpl],
               psNodeSelector = gsNodeSelector (gsSpec gs),
               psTolerations = gsTolerations (gsSpec gs),
               psVolumes = [\<lparr>volName = dataVolumeName, volSource = PersistentVolumeClaim (PVCName gs)\<rparr>],
               psHostNetwork = False, psHostPID = False, psHostIPC = False\<rparr>\<rparr>,
          depReadyReplicas = 0\<rparr>)"

section \<open>BuildVolumeSnapshot and the ServiceAccount\<close>

definition BuildVolumeSnapshot :: "backup \<Rightarrow> game_server \<Rightarrow> volume_snapshot" where
  "BuildVolumeSnapshot b gs =
     (let labels = fmupd labelName appName (fmupd labelInstance (mName (gsMeta gs))
            (fmupd labelManagedBy managedByValue (fmupd labelBackup (mName (bMeta b)) fmempty)));
          pvcName = PVCName gs;
          vs = \<lparr>vsMeta = zero_meta\<lparr>mName := VolumeSnapshotName b, mNamespace := mNamespace (bMeta b),
                                  mLabels := labels\<rparr>,
                vsSpec = \<lparr>vssPVCName = Some pvcName, vssClassName = None\<rparr>, vsStatus = None\<rparr>;
          class = bVolumeSnapshotClassName (bSpec b)
      in if class \<noteq> '''' then vs\<lparr>vsSpec := (vsSpec vs)\<lparr>vssClassName := Some class\<rparr>\<rparr> else vs)"

definition desired_service_account :: "game_server \<Rightarrow> service_account" where
  "desired_service_account gs =
     \<lparr>saMeta = zero_meta\<lparr>mName := DefaultServiceAccountName, mNamespace := mNamespace (gsMeta gs),
        mLabels := fmupd labelName appName (fmupd labelManagedBy managedByValue fmempty)\<rparr>\<rparr>"

section \<open>Facts\<close>

lemma zero_meta_upd [simp]:
  "mName (zero_meta\<lparr>mName := n, mNamespace := ns, mLabels := ls\<rparr>) = n"
  "mNamespace (zero_meta\<lparr>mName := n, mNamespace := ns, mLabels := ls\<rparr>) = ns"
  "mLabels (zero_meta\<lparr>mName := n, mNamespace := ns, mLabels := ls\<rparr>) = ls"
  "mOwnerReferences (zero_meta\<lparr>mName := n, mNamespace := ns, mLabels := ls\<rparr>) = []"
  by (simp_all add: zero_meta_def)

text \<open>The specification of a built claim: what is requested, in which class, from which snapshot.\<close>

definition pvc_of :: "game_server \<Rightarrow> quantity \<Rightarrow> string option \<Rightarrow> persistent_volume_claim" where
  "pvc_of gs qty snap =
     \<lparr>pvcMeta = zero_meta\<lparr>mName := PVCName gs, mNamespace := mNamespace (gsMeta gs),
                         mLabels := baseLabels gs\<rparr>,
      pvcSpec = \<lparr>pvcAccessModes = [''ReadWriteOnce''], pvcRequests = fmupd ''storage'' qty fmempty,
                 pvcStorageClassName =
                   (if soClassName (gsStorage (gsSpec gs)) = '''' then None
                    else Some (soClassName (gsStorage (gsSpec gs)))),
                 pvcDataSourceRef =
                   (case snap of None \<Rightarrow> None
                    | Some s \<Rightarrow> if s = '''' then None
                        else Some \<lparr>torAPIGroup = Some snapshotAPIGroup, torKind = ''VolumeSnapshot'',
                                   torName = s\<rparr>),
                 pvcSpecRest = ''''\<rparr>\<rparr>"

lemma BuildPVC_eq:
  "BuildPVC L gs tpl snap =
     (case ParseQuantity L (storage_size gs tpl) of
        Inl err \<Rightarrow> Inl (errorf (''invalid storage size '' @ Quote (storage_size gs tpl) @ '': '' @ err))
      | Inr qty \<Rightarrow> Inr (pvc_of gs qty snap))"
  by (auto simp: BuildPVC_def pvc_of_def Let_def split: sum.splits option.splits)

lemma pvc_of_simps [builder_simps]:
  "mName (pvcMeta (pvc_of gs qty snap)) = PVCName gs"
  "mNamespace (pvcMeta (pvc_of gs qty snap)) = mNamespace (gsMeta gs)"
  "mLabels (pvcMeta (pvc_of gs qty snap)) = baseLabels gs"
  by (simp_all add: pvc_of_def)

lemma BuildDeployment_simps [builder_simps]:
  "mName (depMeta (BuildDeployment L gs tpl)) = DeploymentName gs"
  "mNamespace (depMeta (BuildDeployment L gs tpl)) = mNamespace (gsMeta gs)"
  "mLabels (depMeta (BuildDeployment L gs tpl)) = baseLabels gs"
  "dsReplicas (depSpec (BuildDeployment L gs tpl)) = Some (if gsSuspend (gsSpec gs) then 0 else 1)"
  "dsSelector (depSpec (BuildDeployment L gs tpl)) = selectorLabels gs"
  "dsTemplateLabels (depSpec (BuildDeployment L gs tpl)) = baseLabels gs"
  "psContainers (dsTemplateSpec (depSpec (BuildDeployment L gs tpl))) = [game_container L gs tpl]"
  "psVolumes (dsTemplateSpec (depSpec (BuildDeployment L gs tpl))) =
     [\<lparr>volName = dataVolumeName, volSource = PersistentVolumeClaim (PVCName gs)\<rparr>]"
  by (simp_all add: BuildDeployment_def Let_def)

lemma game_container_simps [builder_simps]:
  "ctName (game_container L gs tpl) = gameContainerName"
  "ctEnv (game_container L gs tpl) = resolveEnv L gs tpl"
  "ctPorts (game_container L gs tpl) = container_ports tpl"
  "ctSecurityContext (game_container L gs tpl) =
     Some (ContainerSecurityContext (tplSecurityProfile (tplSpec tpl)))"
  "map vmName (ctVolumeMounts (game_container L gs tpl)) = [dataVolumeName]"
  by (simp_all add: game_container_def Let_def split: option.splits prod.splits)

lemma deployment_posture:
  "(if tplSecurityProfile (tplSpec tpl) = SecurityProfileAnyUID then anyuid_pod else restricted_pod)
     (dsTemplateSpec (depSpec (BuildDeployment L gs tpl)))"
proof -
  let ?ps = "dsTemplateSpec (depSpec (BuildDeployment L gs tpl))"
  have base: "baseline_pod ?ps"
    unfolding baseline_pod_def no_host_access_def
    by (simp add: builder_simps) (simp add: BuildDeployment_def Let_def)
  moreover have "psSecurityContext ?ps = Some (PodSecurityContext (tplSecurityProfile (tplSpec tpl)))"
    and "psServiceAccountName ?ps = ServiceAccountForProfile (tplSecurityProfile (tplSpec tpl))"
    by (simp_all add: BuildDeployment_def Let_def)
  ultimately show ?thesis
    by (simp add: anyuid_pod_def restricted_pod_def ServiceAccountForProfile_def)
qed

lemma desired_service_account_simps [builder_simps]:
  "mName (saMeta (desired_service_account gs)) = DefaultServiceAccountName"
  "mNamespace (saMeta (desired_service_account gs)) = mNamespace (gsMeta gs)"
  by (simp_all add: desired_service_account_def)

lemma BuildVolumeSnapshot_simps [builder_simps]:
  "mName (vsMeta (BuildVolumeSnapshot b gs)) = VolumeSnapshotName b"
  "mNamespace (vsMeta (BuildVolumeSnapshot b gs)) = mNamespace (bMeta b)"
  "vssPVCName (vsSpec (BuildVolumeSnapshot b gs)) = Some (PVCName gs)"
  "fmlookup (mLabels (vsMeta (BuildVolumeSnapshot b gs))) labelBackup = Some (mName (bMeta b))"
  by (simp_all add: BuildVolumeSnapshot_def Let_def)

end
