(* ===== verification/Conditions.thy ===== *)
theory Conditions
  imports Kube
begin

text \<open>
  Status conditions: \<open>setCondition\<close>, \<open>setBackupCondition\<close>, \<open>setScheduleCondition\<close> and
  \<open>setTemplateCondition\<close>, which update the first condition of a type in place or append one. The
  locale \<open>condition_setter\<close> states what the reconcilers rely on, and is interpreted on each of the four.
\<close>

section \<open>The setters\<close>

text \<open>The loop of \<open>setCondition\<close>; \<open>setBackupCondition\<close> and \<open>setScheduleCondition\<close> repeat it.\<close>

fun upsert_condition ::
    "gotime \<Rightarrow> int64 \<Rightarrow> string \<Rightarrow> string \<Rightarrow> string \<Rightarrow> string \<Rightarrow> condition list \<Rightarrow> condition list" where
  "upsert_condition now gen condType status reason msg [] =
     [\<lparr>cType = condType, cStatus = status, cObservedGeneration = gen, cLastTransitionTime = now,
       cReason = reason, cMessage = msg\<rparr>]"
| "upsert_condition now gen condType status reason msg (c # cs) =
     (if cType c = condType
      then c\<lparr>cLastTransitionTime := (if cStatus c \<noteq> status then now else cLastTransitionTime c),
             cStatus := status, cReason := reason, cMessage := msg, cObservedGeneration := gen\<rparr> # cs
      else c # upsert_condition now gen condType status reason msg cs)"

definition setCondition ::
    "gotime \<Rightarrow> game_server \<Rightarrow> string \<Rightarrow> string \<Rightarrow> string \<Rightarrow> string \<Rightarrow> game_server" where
  "setCondition now gs condType status reason msg =
     gs\<lparr>gsStatus := (gsStatus gs)\<lparr>gsConditions :=
       upsert_condition now (mGeneration (gsMeta gs)) condType status reason msg
         (gsConditions (gsStatus gs))\<rparr>\<rparr>"

definition setBackupCondition ::
    "gotime \<Rightarrow> backup \<Rightarrow> string \<Rightarrow> string \<Rightarrow> string \<Rightarrow> string \<Rightarrow> backup" where
  "setBackupCondition now b condType status reason msg =
     b\<lparr>bStatus := (bStatus b)\<lparr>bConditions :=
       upsert_condition now (mGeneration (bMeta b)) condType status reason msg
         (bConditions (bStatus b))\<rparr>\<rparr>"

definition setScheduleCondition ::
    "gotime \<Rightarrow> backup_schedule \<Rightarrow> string \<Rightarrow> string \<Rightarrow> string \<Rightarrow> string \<Rightarrow> backup_schedule" where
  "setScheduleCondition now bs condType status reason msg =
     bs\<lparr>bsStatus := (bsStatus bs)\<lparr>bssConditions :=
       upsert_condition now (mGeneration (bsMeta bs)) condType status reason msg
         (bssConditions (bsStatus bs))\<rparr>\<rparr>"

text \<open>\<open>setTemplateCondition\<close> always sets the type \<open>Available\<close>: its loop skips the others.\<close>

fun upsert_available :: "gotime \<Rightarrow> int64 \<Rightarrow> string \<Rightarrow> string \<Rightarrow> string \<Rightarrow> condition list \<Rightarrow> condition list" where
  "upsert_available now gen status reason msg [] =
     [\<lparr>cType = ConditionAvailable, cStatus = status, cObservedGeneration = gen,
       cLastTransitionTime = now, cReason = reason, cMessage = msg\<rparr>]"
| "upsert_available now gen status reason msg (c # cs) =
     (if cType c \<noteq> ConditionAvailable then c # upsert_available now gen status reason msg cs
      else c\<lparr>cLastTransitionTime := (if cStatus c \<noteq> status then now else cLastTransitionTime c),
             cStatus := status, cReason := reason, cMessage := msg, cObservedGeneration := gen\<rparr> # cs)"

definition setTemplateCondition :: "gotime \<Rightarrow> game_template \<Rightarrow> string \<Rightarrow> string \<Rightarrow> string \<Rightarrow> game_template" where
  "setTemplateCondition now tpl status reason msg =
     tpl\<lparr>tplStatus := (tplStatus tpl)\<lparr>tplConditions :=
       upsert_available now (mGeneration (tplMeta tpl)) status reason msg
         (tplConditions (tplStatus tpl))\<rparr>\<rparr>"

definition hasAvailableCondition :: "game_template \<Rightarrow> bool" where
  "hasAvailableCondition tpl \<longleftrightarrow>
     list_ex (\<lambda>c. cType c = ConditionAvailable \<and> cStatus c = ConditionTrue)
       (tplConditions (tplStatus tpl))"

section \<open>The contract of a setter\<close>

definition find_cond :: "string \<Rightarrow> condition list \<Rightarrow> condition option" where
  "find_cond t cs = find (\<lambda>c. cType c = t) cs"

definition condition_types_unique :: "condition list \<Rightarrow> bool" where
  "condition_types_unique cs \<longleftrightarrow> distinct (map cType cs)"

text \<open>The condition a setter must leave: the transition time moves only with the status.\<close>

definition updated_condition ::
    "condition option \<Rightarrow> gotime \<Rightarrow> int64 \<Rightarrow> string \<Rightarrow> string \<Rightarrow> string \<Rightarrow> string \<Rightarrow> condition" where
  "updated_condition old now gen t status reason msg =
     \<lparr>cType = t, cStatus = status, cObservedGeneration = gen,
      cLastTransitionTime =
        (case old of Some c \<Rightarrow> if cStatus c = status then cLastTransitionTime c else now | None \<Rightarrow> now),
      cReason = reason, cMessage = msg\<rparr>"

locale condition_setter =
  fixes conds :: "'o \<Rightarrow> condition list"
    and gen :: "'o \<Rightarrow> int64"
    and types :: "string set"
    and set_cond :: "gotime \<Rightarrow> 'o \<Rightarrow> string \<Rightarrow> string \<Rightarrow> string \<Rightarrow> string \<Rightarrow> 'o"
  assumes lookup_set: "t \<in> types \<Longrightarrow> find_cond t (conds (set_cond now ob t st r m)) =
      Some (updated_condition (find_cond t (conds ob)) now (gen ob) t st r m)"
    and lookup_other: "t \<in> types \<Longrightarrow> t' \<noteq> t \<Longrightarrow>
      find_cond t' (conds (set_cond now ob t st r m)) = find_cond t' (conds ob)"
    and types_set: "t \<in> types \<Longrightarrow> map cType (conds (set_cond now ob t st r m)) =
      (if t \<in> set (map cType (conds ob)) then map cType (conds ob) else map cType (conds ob) @ [t])"
    and gen_set: "t \<in> types \<Longrightarrow> gen (set_cond now ob t st r m) = gen ob"
begin

lemma unique_preserved:
  "t \<in> types \<Longrightarrow> condition_types_unique (conds ob) \<Longrightarrow>
   condition_types_unique (conds (set_cond now ob t st r m))"
  by (simp add: condition_types_unique_def types_set)

lemma status_set:
  "t \<in> types \<Longrightarrow> map_option cStatus (find_cond t (conds (set_cond now ob t st r m))) = Some st"
  by (simp add: lookup_set updated_condition_def)

text \<open>Reporting the same status again does not move the transition time, so a condition that stays
  True keeps the instant at which it became True.\<close>

lemma repeat_keeps_transition:
  assumes "t \<in> types"
  shows "map_option cLastTransitionTime
      (find_cond t (conds (set_cond now' (set_cond now ob t st r m) t st r' m'))) =
    map_option cLastTransitionTime (find_cond t (conds (set_cond now ob t st r m)))"
  using assms by (simp add: lookup_set updated_condition_def)

lemma repeat_idem:
  assumes "t \<in> types"
  shows "find_cond t (conds (set_cond now' (set_cond now ob t st r m) t st r m)) =
    find_cond t (conds (set_cond now ob t st r m))"
  using assms by (simp add: lookup_set gen_set updated_condition_def split: option.splits)

lemma independent_types:
  assumes "t \<in> types" and "t' \<in> types" and "t \<noteq> t'"
  shows "find_cond t (conds (set_cond now' (set_cond now ob t st r m) t' st' r' m')) =
    find_cond t (conds (set_cond now ob t st r m))"
  using assms by (simp add: lookup_other)

end

section \<open>The four setters satisfy it\<close>

lemma find_cond_simps [simp]:
  "find_cond t [] = None"
  "find_cond t (c # cs) = (if cType c = t then Some c else find_cond t cs)"
  by (simp_all add: find_cond_def)

lemma upsert_lookup:
  "find_cond t (upsert_condition now g t st r m cs) =
     Some (updated_condition (find_cond t cs) now g t st r m)"
  by (induction cs) (auto simp: updated_condition_def)

lemma upsert_other:
  "t' \<noteq> t \<Longrightarrow> find_cond t' (upsert_condition now g t st r m cs) = find_cond t' cs"
  by (induction cs) auto

lemma upsert_types:
  "map cType (upsert_condition now g t st r m cs) =
     (if t \<in> set (map cType cs) then map cType cs else map cType cs @ [t])"
  by (induction cs) auto

lemma upsert_available_eq:
  "upsert_available now g st r m cs = upsert_condition now g ConditionAvailable st r m cs"
  by (induction cs) auto

lemmas upsert_facts = upsert_lookup upsert_other upsert_types

interpretation gs_cond: condition_setter
  "\<lambda>gs. gsConditions (gsStatus gs)" "\<lambda>gs. mGeneration (gsMeta gs)" UNIV setCondition
  by unfold_locales (simp_all add: setCondition_def upsert_facts)

interpretation backup_cond: condition_setter
  "\<lambda>b. bConditions (bStatus b)" "\<lambda>b. mGeneration (bMeta b)" UNIV setBackupCondition
  by unfold_locales (simp_all add: setBackupCondition_def upsert_facts)

interpretation schedule_cond: condition_setter
  "\<lambda>bs. bssConditions (bsStatus bs)" "\<lambda>bs. mGeneration (bsMeta bs)" UNIV setScheduleCondition
  by unfold_locales (simp_all add: setScheduleCondition_def upsert_facts)

interpretation template_cond: condition_setter
  "\<lambda>tpl. tplConditions (tplStatus tpl)" "\<lambda>tpl. mGeneration (tplMeta tpl)" "{ConditionAvailable}"
  "\<lambda>now tpl t. setTemplateCondition now tpl"
  by unfold_locales
    (simp_all add: setTemplateCondition_def upsert_available_eq upsert_facts del: ConditionAvailable_def)

lemma hasAvailable_set_True:
  "hasAvailableCondition (setTemplateCondition now tpl ConditionTrue r m)"
proof -
  have "list_ex (\<lambda>c. cType c = ConditionAvailable \<and> cStatus c = st)
      (upsert_condition now g ConditionAvailable st r m cs)" for g st cs
    by (induction cs) auto
  then show ?thesis
    by (simp add: hasAvailableCondition_def setTemplateCondition_def upsert_available_eq
        del: ConditionAvailable_def ConditionTrue_def)
qed

text \<open>Setting a condition leaves everything of the object but its conditions.\<close>

lemma setCondition_simps [simp]:
  "gsMeta (setCondition now gs t st r m) = gsMeta gs"
  "gsSpec (setCondition now gs t st r m) = gsSpec gs"
  "gsPhase (gsStatus (setCondition now gs t st r m)) = gsPhase (gsStatus gs)"
  "gsAddress (gsStatus (setCondition now gs t st r m)) = gsAddress (gsStatus gs)"
  "gsReadyReplicas (gsStatus (setCondition now gs t st r m)) = gsReadyReplicas (gsStatus gs)"
  "gsObservedGeneration (gsStatus (setCondition now gs t st r m)) = gsObservedGeneration (gsStatus gs)"
  "gsTemplateGeneration (gsStatus (setCondition now gs t st r m)) = gsTemplateGeneration (gsStatus gs)"
  by (simp_all add: setCondition_def)

lemma setBackupCondition_simps [simp]:
  "bMeta (setBackupCondition now b t st r m) = bMeta b"
  "bSpec (setBackupCondition now b t st r m) = bSpec b"
  "bPhase (bStatus (setBackupCondition now b t st r m)) = bPhase (bStatus b)"
  "bVolumeSnapshotName (bStatus (setBackupCondition now b t st r m)) = bVolumeSnapshotName (bStatus b)"
  "bRestoreSize (bStatus (setBackupCondition now b t st r m)) = bRestoreSize (bStatus b)"
  "bCreationTime (bStatus (setBackupCondition now b t st r m)) = bCreationTime (bStatus b)"
  "bObservedGeneration (bStatus (setBackupCondition now b t st r m)) = bObservedGeneration (bStatus b)"
  by (simp_all add: setBackupCondition_def)

lemma setScheduleCondition_simps [simp]:
  "bsMeta (setScheduleCondition now bs t st r m) = bsMeta bs"
  "bsSpec (setScheduleCondition now bs t st r m) = bsSpec bs"
  "bssLastScheduleTime (bsStatus (setScheduleCondition now bs t st r m)) =
     bssLastScheduleTime (bsStatus bs)"
  "bssLastSuccessfulTime (bsStatus (setScheduleCondition now bs t st r m)) =
     bssLastSuccessfulTime (bsStatus bs)"
  "bssActiveBackups (bsStatus (setScheduleCondition now bs t st r m)) = bssActiveBackups (bsStatus bs)"
  by (simp_all add: setScheduleCondition_def)

lemma setTemplateCondition_simps [simp]:
  "tplMeta (setTemplateCondition now tpl st r m) = tplMeta tpl"
  "tplSpec (setTemplateCondition now tpl st r m) = tplSpec tpl"
  "tplServersRegistered (tplStatus (setTemplateCondition now tpl st r m)) =
     tplServersRegistered (tplStatus tpl)"
  by (simp_all add: setTemplateCondition_def)

end
