(* ===== verification/ScheduleController.thy ===== *)
theory ScheduleController
  imports Labels Conditions
begin

text \<open>
  \<open>internal/controller/backupschedule_controller.go\<close>: \<open>Reconcile\<close> of a BackupSchedule decides whether
  a run is due, creates the Backup of that run, deletes the Backups past \<open>keep\<close>, refreshes the status
  from the children and computes the next wake-up; \<open>mapBackupToSchedule\<close> is its watch function. The
  cron parser and the time zone database are parameters (\<open>ParseCron\<close>, \<open>CronNext\<close>, \<open>LoadLocation\<close>).
  The first section is what the code uses of Go's \<open>time\<close> package: \<open>Format\<close> with the layout
  \<open>20060102-1504\<close> in UTC, and the saturating \<open>Until\<close>.
\<close>

section \<open>Go's time package, as far as the code uses it\<close>

text \<open>The proleptic Gregorian date of a day, counted from January 1 of year 1: cycles of 400, 100, 4
  and 1 years; the last day of a leap cycle belongs to the cycle's last year.\<close>

definition year_day :: "int \<Rightarrow> int \<times> int" where
  "year_day d =
     (let n400 = d div 146097; d = d mod 146097;
          n100 = min 3 (d div 36524); d = d - 36524 * n100;
          n4 = d div 1461; d = d mod 1461;
          n1 = min 3 (d div 365)
      in (400 * n400 + 100 * n100 + 4 * n4 + n1 + 1, d - 365 * n1))"

definition is_leap :: "int \<Rightarrow> bool" where
  "is_leap y \<longleftrightarrow> y mod 4 = 0 \<and> (y mod 100 \<noteq> 0 \<or> y mod 400 = 0)"

text \<open>The months with the number of days before them, last month first.\<close>

definition days_before :: "bool \<Rightarrow> (int \<times> int) list" where
  "days_before leap =
     (let l = (if leap then 1 else 0) in
      [(12, 334 + l), (11, 304 + l), (10, 273 + l), (9, 243 + l), (8, 212 + l), (7, 181 + l),
       (6, 151 + l), (5, 120 + l), (4, 90 + l), (3, 59 + l), (2, 31), (1, 0)])"

definition month_day :: "bool \<Rightarrow> int \<Rightarrow> int \<times> int" where
  "month_day leap yday =
     (case find (\<lambda>(m, before). before \<le> yday) (days_before leap) of
        Some (m, before) \<Rightarrow> (m, yday - before + 1)
      | None \<Rightarrow> (1, yday + 1))"

text \<open>A field of a formatted time: decimal digits, zero-padded to a width.\<close>

definition pad_field :: "nat \<Rightarrow> int \<Rightarrow> string" where
  "pad_field w i =
     (let ds = nat_digits (nat \<bar>i\<bar>) in
      (if i < 0 then ''-'' else '''') @ replicate (w - length ds) (CHR ''0'') @ ds)"

definition civil_days :: "gotime \<Rightarrow> int" where
  "civil_days t = (t - zero_time) div (24 * Hour)"

definition FormatStamp :: "gotime \<Rightarrow> string" where
  "FormatStamp t =
     (let (year, yday) = year_day (civil_days t);
          (month, day) = month_day (is_leap year) yday;
          minutes = (t - zero_time) mod (24 * Hour) div Minute
      in pad_field 4 year @ pad_field 2 month @ pad_field 2 day @ ''-''
         @ pad_field 2 (minutes div 60) @ pad_field 2 (minutes mod 60))"

text \<open>\<open>t.Sub(u)\<close> saturates at the bounds of a \<open>Duration\<close>; \<open>time.Until\<close> subtracts the wall clock.\<close>

definition time_sub :: "gotime \<Rightarrow> gotime \<Rightarrow> duration" where
  "time_sub t u = max (- (2 ^ 63)) (min (2 ^ 63 - 1) (t - u))"

section \<open>Firing a run\<close>

definition BackupScheduleKind :: string where [simp]: "BackupScheduleKind = ''BackupSchedule''"
definition ScheduleValid :: string where [simp]: "ScheduleValid = ''ScheduleValid''"

definition UTC :: location where "UTC = ''UTC''"

definition loadLocation :: "lib \<Rightarrow> string \<Rightarrow> go_error + location" where
  "loadLocation L tz =
     (if tz = '''' then Inr UTC
      else case LoadLocation L tz of
        Inl err \<Rightarrow> Inl (errorf (''timeZone '' @ Quote tz @ '': '' @ err))
      | Inr loc \<Rightarrow> Inr loc)"

definition scheduled_backup :: "backup_schedule \<Rightarrow> gotime \<Rightarrow> backup" where
  "scheduled_backup bs fireTime =
     \<lparr>bMeta = zero_meta\<lparr>mName := mName (bsMeta bs) @ ''-'' @ FormatStamp fireTime,
        mNamespace := mNamespace (bsMeta bs),
        mLabels := fmupd labelName appName (fmupd labelInstance (bssGameServerRefName (bsSpec bs))
          (fmupd labelManagedBy managedByValue (fmupd labelSchedule (mName (bsMeta bs)) fmempty)))\<rparr>,
      bSpec = \<lparr>bGameServerRefName = bssGameServerRefName (bsSpec bs),
               bVolumeSnapshotClassName = bssVolumeSnapshotClassName (bsSpec bs),
               bRetainForever = False\<rparr>,
      bStatus = zero_backup_status\<rparr>"

definition spawnBackup :: "lib \<Rightarrow> 'w client \<Rightarrow> backup_schedule \<Rightarrow> gotime \<Rightarrow> ('w, go_error option) io" where
  "spawnBackup L C bs fireTime =
     (let b = scheduled_backup bs fireTime in
      case SetControllerReference L (BackupScheduleKind, bsMeta bs) (bMeta b) of
        Inl err \<Rightarrow> return (Some err)
      | Inr m \<Rightarrow> do {
          r \<leftarrow> Create OBackup (Backups C) (b\<lparr>bMeta := m\<rparr>);
          case r of
            Inl err \<Rightarrow> if \<not> IsAlreadyExists err then return (Some err) else return None
          | Inr _ \<Rightarrow> return None })"

text \<open>The reference instant: the last run, but not more than 24 hours ago.\<close>

definition reference_time :: "gotime \<Rightarrow> backup_schedule \<Rightarrow> gotime" where
  "reference_time now bs =
     (let ref = now - 24 * Hour in
      case bssLastScheduleTime (bsStatus bs) of
        Some t \<Rightarrow> if t > ref then t else ref
      | None \<Rightarrow> ref)"

section \<open>Retention\<close>

definition effective_keep :: "backup_schedule \<Rightarrow> int" where
  "effective_keep bs = (let keep = sint (bssKeep (bsSpec bs)) in if keep \<le> 0 then 7 else keep)"

fun retention_loop :: "'w client \<Rightarrow> int \<Rightarrow> int \<Rightarrow> backup list \<Rightarrow> ('w, go_error option) io" where
  "retention_loop C keep kept [] = return None"
| "retention_loop C keep kept (b # bs) =
     (if bRetainForever (bSpec b) then retention_loop C keep kept bs
      else if kept < keep then retention_loop C keep (kept + 1) bs
      else do {
        r \<leftarrow> Delete OBackup (Backups C) b;
        case r of
          Some err \<Rightarrow> if \<not> IsNotFound err then return (Some err) else retention_loop C keep kept bs
        | None \<Rightarrow> retention_loop C keep kept bs })"

definition list_children :: "'w client \<Rightarrow> backup_schedule \<Rightarrow> ('w, go_error + backup list) io" where
  "list_children C bs = List_objs OBackup (Backups C) (Some (mNamespace (bsMeta bs)))
     (fmupd labelSchedule (mName (bsMeta bs)) fmempty)"

definition applyRetention :: "lib \<Rightarrow> 'w client \<Rightarrow> backup_schedule \<Rightarrow> ('w, go_error option) io" where
  "applyRetention L C bs = do {
     r \<leftarrow> list_children C bs;
     case r of
       Inl err \<Rightarrow> return (Some err)
     | Inr items \<Rightarrow> retention_loop C (effective_keep bs) 0 (SortNewestFirst L items) }"

section \<open>The children's status\<close>

definition child_step :: "string list \<times> gotime option \<Rightarrow> backup \<Rightarrow> string list \<times> gotime option" where
  "child_step st b =
     (case st of (active, lastSuccess) \<Rightarrow>
        if bPhase (bStatus b) = BackupPhaseReady then
          (active,
           (case bCreationTime (bStatus b) of
              None \<Rightarrow> lastSuccess
            | Some t \<Rightarrow> (case lastSuccess of
                None \<Rightarrow> Some t
              | Some l \<Rightarrow> if t > l then Some t else lastSuccess)))
        else if bPhase (bStatus b) = BackupPhasePending \<or> bPhase (bStatus b) = BackupPhaseInProgress then
          (active @ [mName (bMeta b)], lastSuccess)
        else (active, lastSuccess))"

definition child_status :: "backup list \<Rightarrow> backup_schedule \<Rightarrow> backup_schedule" where
  "child_status items bs =
     (let (active, lastSuccess) = foldl child_step ([], None) items;
          bs = bs\<lparr>bsStatus := (bsStatus bs)\<lparr>bssActiveBackups := active\<rparr>\<rparr>
      in case lastSuccess of
           None \<Rightarrow> bs
         | Some t \<Rightarrow> bs\<lparr>bsStatus := (bsStatus bs)\<lparr>bssLastSuccessfulTime := Some t\<rparr>\<rparr>)"

definition refreshChildStatus :: "'w client \<Rightarrow> backup_schedule
    \<Rightarrow> ('w, go_error option \<times> backup_schedule) io" where
  "refreshChildStatus C bs = do {
     r \<leftarrow> list_children C bs;
     case r of
       Inl err \<Rightarrow> return (Some err, bs)
     | Inr items \<Rightarrow> return (None, child_status items bs) }"

section \<open>Reconcile\<close>

definition set_schedule_condition_now ::
    "'w client \<Rightarrow> backup_schedule \<Rightarrow> string \<Rightarrow> string \<Rightarrow> string \<Rightarrow> string \<Rightarrow> ('w, backup_schedule) io" where
  "set_schedule_condition_now C bs t st reason msg = do {
     now \<leftarrow> Now (Clock C);
     return (setScheduleCondition now bs t st reason msg) }"

text \<open>\<open>r.now()\<close>: the injected clock, or the wall clock.\<close>

definition schedule_now :: "('w \<Rightarrow> gotime \<times> 'w) option \<Rightarrow> 'w client \<Rightarrow> ('w, gotime) io" where
  "schedule_now injected C = (case injected of Some f \<Rightarrow> Now f | None \<Rightarrow> Now (Clock C))"

definition invalid_schedule :: "'w client \<Rightarrow> backup_schedule \<Rightarrow> string \<Rightarrow> string \<Rightarrow> ('w, outcome) io" where
  "invalid_schedule C bs reason msg = do {
     bs \<leftarrow> set_schedule_condition_now C bs ScheduleValid ConditionFalse reason msg;
     r \<leftarrow> StatusUpdate OBackupSchedule (BackupSchedules C) bs;
     return (Result (5 * Minute), err_of r) }"

text \<open>After the decision to fire (lines 95 to 114): retention, the children, the status, the next
  wake-up. The errors of the first two are only logged.\<close>

definition finish_schedule :: "lib \<Rightarrow> 'w client \<Rightarrow> gotime \<Rightarrow> cron_schedule \<Rightarrow> location
    \<Rightarrow> backup_schedule \<Rightarrow> ('w, outcome) io" where
  "finish_schedule L C now sched loc bs = do {
     _ \<leftarrow> applyRetention L C bs;
     (_, bs) \<leftarrow> refreshChildStatus C bs;
     let bs = bs\<lparr>bsStatus := (bsStatus bs)\<lparr>bssObservedGeneration := mGeneration (bsMeta bs)\<rparr>\<rparr>;
     r \<leftarrow> StatusUpdate OBackupSchedule (BackupSchedules C) bs;
     case r of
       Inl err \<Rightarrow> return (Result 0, Some err)
     | Inr _ \<Rightarrow> do {
         wall \<leftarrow> Now (Clock C);
         return (Result (max (time_sub (CronNext L sched loc now) wall) Minute), None) } }"

definition run_schedule :: "lib \<Rightarrow> 'w client \<Rightarrow> gotime \<Rightarrow> cron_schedule \<Rightarrow> location
    \<Rightarrow> backup_schedule \<Rightarrow> ('w, outcome) io" where
  "run_schedule L C now sched loc bs =
     (let nextFire = CronNext L sched loc (reference_time now bs) in
      if \<not> bssSuspend (bsSpec bs) \<and> \<not> now < nextFire then do {
        r \<leftarrow> spawnBackup L C bs nextFire;
        case r of
          Some err \<Rightarrow> return (Result (30 * Second), None)
        | None \<Rightarrow> finish_schedule L C now sched loc
            (bs\<lparr>bsStatus := (bsStatus bs)\<lparr>bssLastScheduleTime := Some nextFire\<rparr>\<rparr>) }
      else finish_schedule L C now sched loc bs)"

definition BackupSchedule_Reconcile :: "lib \<Rightarrow> ('w \<Rightarrow> gotime \<times> 'w) option \<Rightarrow> 'w client \<Rightarrow> key
    \<Rightarrow> ('w, outcome) io" where
  "BackupSchedule_Reconcile L injected C req = do {
     now \<leftarrow> schedule_now injected C;
     r \<leftarrow> Get OBackupSchedule (BackupSchedules C) req;
     case r of
       Inl err \<Rightarrow> if IsNotFound err then return (Result 0, None) else return (Result 0, Some err)
     | Inr bs \<Rightarrow>
         (case loadLocation L (bssTimeZone (bsSpec bs)) of
            Inl err \<Rightarrow> invalid_schedule C bs ''InvalidTimeZone'' (err_text err)
          | Inr loc \<Rightarrow>
              (case ParseCron L (bssSchedule (bsSpec bs)) of
                 Inl err \<Rightarrow> invalid_schedule C bs ''InvalidSchedule'' err
               | Inr sched \<Rightarrow> do {
                   bs \<leftarrow> set_schedule_condition_now C bs ScheduleValid ConditionTrue ''Parsed''
                     ''cron parsed cleanly'';
                   run_schedule L C now sched loc bs })) }"

section \<open>mapBackupToSchedule\<close>

definition mapBackupToSchedule :: "object \<Rightarrow> key list" where
  "mapBackupToSchedule obj =
     (case obj of
        OBackup b \<Rightarrow>
          (let name = (case fmlookup (mLabels (bMeta b)) labelSchedule of Some n \<Rightarrow> n | None \<Rightarrow> '''')
           in if name = '''' then [] else [(mNamespace (bMeta b), name)])
      | _ \<Rightarrow> [])"

end
