(* ===== verification/TemplateController.thy ===== *)
theory TemplateController
  imports Conditions
begin

text \<open>
  \<open>internal/controller/gametemplate_controller.go\<close>: \<open>Reconcile\<close> of a GameTemplate keeps the count of
  the GameServers that reference it and the condition Available in its status; \<open>mapServerToTemplate\<close>
  says which template a change of a GameServer concerns.
\<close>

text \<open>The loop that counts, in an \<open>int32\<close>.\<close>

definition count_servers :: "game_template \<Rightarrow> game_server list \<Rightarrow> int32" where
  "count_servers tpl items =
     foldl (\<lambda>count s. if gsTemplateRefName (gsSpec s) = mName (tplMeta tpl) then count + 1 else count) 0 items"

definition registered :: "gotime \<Rightarrow> int32 \<Rightarrow> game_template \<Rightarrow> game_template" where
  "registered now n tpl =
     setTemplateCondition now (tpl\<lparr>tplStatus := (tplStatus tpl)\<lparr>tplServersRegistered := n\<rparr>\<rparr>)
       ConditionTrue ''Registered'' ''template observed''"

definition GameTemplate_Reconcile :: "'w client \<Rightarrow> key \<Rightarrow> ('w, outcome) io" where
  "GameTemplate_Reconcile C req = do {
     r \<leftarrow> Get OGameTemplate (GameTemplates C) req;
     case r of
       Inl err \<Rightarrow> if IsNotFound err then return (Result 0, None) else return (Result 0, Some err)
     | Inr tpl \<Rightarrow> do {
         rl \<leftarrow> List_objs OGameServer (GameServers C) None fmempty;
         case rl of
           Inl err \<Rightarrow> return (Result 0, Some err)
         | Inr items \<Rightarrow>
             (let count = count_servers tpl items in
              if tplServersRegistered (tplStatus tpl) = count \<and> hasAvailableCondition tpl
              then return (Result 0, None)
              else do {
                now \<leftarrow> Now (Clock C);
                ru \<leftarrow> StatusUpdate OGameTemplate (GameTemplates C) (registered now count tpl);
                case ru of
                  Inl err \<Rightarrow> return (Result 0, Some err)
                | Inr _ \<Rightarrow> return (Result 0, None) }) } }"

definition mapServerToTemplate :: "object \<Rightarrow> key list" where
  "mapServerToTemplate obj =
     (case obj of
        OGameServer gs \<Rightarrow>
          if gsTemplateRefName (gsSpec gs) = '''' then [] else [('''', gsTemplateRefName (gsSpec gs))]
      | _ \<Rightarrow> [])"

section \<open>Facts\<close>

lemma count_servers_eq:
  "count_servers tpl items =
     of_nat (length (filter (\<lambda>s. gsTemplateRefName (gsSpec s) = mName (tplMeta tpl)) items))"
  unfolding count_servers_def
  by (induction items rule: rev_induct) (auto simp: algebra_simps)

lemma registered_simps [simp]:
  "tplServersRegistered (tplStatus (registered now n tpl)) = n"
  "tplMeta (registered now n tpl) = tplMeta tpl" "tplSpec (registered now n tpl) = tplSpec tpl"
  "hasAvailableCondition (registered now n tpl)"
  by (simp_all add: registered_def hasAvailable_set_True del: ConditionTrue_def)

end
