(* ===== verification/Webhooks.thy ===== *)
theory Webhooks
  imports Config
begin

text \<open>
  The validating webhooks (\<open>internal/webhook/v1alpha1\<close>): \<open>validateTemplate\<close> walks a GameTemplate and
  lists every authoring mistake as a field error; \<open>validate\<close> resolves the template of a GameServer and
  runs the reconciler's \<open>ValidateConfig\<close>. \<open>field.Error\<close> is a record and \<open>apierrors.NewInvalid\<close> a
  constructor that keeps what the code passes. The specification is \<open>template_ok\<close>.
\<close>

section \<open>Field errors\<close>

datatype bad_value = BadString string | BadConfig "(string, string) fmap"

datatype field_error_type = ErrorTypeDuplicate | ErrorTypeForbidden | ErrorTypeRequired | ErrorTypeInvalid

record field_error =
  feType :: field_error_type
  feField :: string
  feBadValue :: bad_value
  feDetail :: string

definition Duplicate :: "string \<Rightarrow> string \<Rightarrow> field_error" where
  "Duplicate path value = \<lparr>feType = ErrorTypeDuplicate, feField = path, feBadValue = BadString value,
     feDetail = ''''\<rparr>"

definition Forbidden :: "string \<Rightarrow> string \<Rightarrow> field_error" where
  "Forbidden path detail = \<lparr>feType = ErrorTypeForbidden, feField = path, feBadValue = BadString '''',
     feDetail = detail\<rparr>"

definition Required :: "string \<Rightarrow> string \<Rightarrow> field_error" where
  "Required path detail = \<lparr>feType = ErrorTypeRequired, feField = path, feBadValue = BadString '''',
     feDetail = detail\<rparr>"

definition Invalid :: "string \<Rightarrow> bad_value \<Rightarrow> string \<Rightarrow> field_error" where
  "Invalid path value detail = \<lparr>feType = ErrorTypeInvalid, feField = path, feBadValue = value,
     feDetail = detail\<rparr>"

text \<open>\<open>path.Index(i)\<close> and \<open>path.Child(name)\<close> on printed paths.\<close>

definition path_index :: "string \<Rightarrow> nat \<Rightarrow> string" where
  "path_index path i = path @ ''['' @ Itoa (int i) @ '']''"

definition path_child :: "string \<Rightarrow> string \<Rightarrow> string" where
  "path_child path name = path @ ''.'' @ name"

text \<open>\<open>apierrors.NewInvalid\<close>, and any other error.\<close>

datatype admission_error = NewInvalid string string "field_error list" | Failure go_error

section \<open>validateTemplate\<close>

definition portsPath :: string where "portsPath = ''spec.ports''"
definition keysPath :: string where "keysPath = ''spec.configKeys''"

text \<open>The idiom \<open>if prev, dup := seen[x]; dup {...} else { seen[x] = i }\<close>: the errors it adds and the
  map after it.\<close>

definition check_seen :: "string \<Rightarrow> ('a \<Rightarrow> string) \<Rightarrow> nat \<Rightarrow> 'a \<Rightarrow> ('a, nat) fmap
    \<Rightarrow> field_error list \<times> ('a, nat) fmap" where
  "check_seen path show_value i x seen =
     (case fmlookup seen x of
        Some prev \<Rightarrow> ([Duplicate path (show_value x @ '' also used at index '' @ Itoa (int prev))], seen)
      | None \<Rightarrow> ([], fmupd x i seen))"

fun port_errors :: "nat \<Rightarrow> (string, nat) fmap \<Rightarrow> (int32, nat) fmap \<Rightarrow> template_port list
    \<Rightarrow> field_error list" where
  "port_errors i seenPortName seenContainerPort [] = []"
| "port_errors i seenPortName seenContainerPort (p # ps) =
     (let pp = path_index portsPath i;
          (e1, seenPortName) = check_seen (path_child pp ''name'') Quote i (tpName p) seenPortName;
          (e2, seenContainerPort) = check_seen (path_child pp ''containerPort'') (\<lambda>n. Itoa (sint n)) i
             (tpContainerPort p) seenContainerPort
      in e1 @ e2 @ port_errors (Suc i) seenPortName seenContainerPort ps)"

definition primary_errors :: "template_port list \<Rightarrow> field_error list" where
  "primary_errors ports =
     (let primaries = foldl (\<lambda>n p. if tpPrimary p then n + 1 else n) (0 :: nat) ports
      in if primaries > 1 then [Forbidden portsPath ''at most one port may be marked primary''] else [])"

definition enum_errors :: "string \<Rightarrow> config_key \<Rightarrow> field_error list" where
  "enum_errors kp k =
     (if ckType k = ConfigKeyTypeEnum \<and> ckEnum k = []
      then [Required (path_child kp ''enum'') ''enum type requires a non-empty enum list''] else [])
     @ (if ckType k \<noteq> ConfigKeyTypeEnum \<and> ckEnum k \<noteq> []
        then [Forbidden (path_child kp ''enum'')
                (''enum values only apply when type=enum (got type='' @ Quote (ckType k) @ '')'')] else [])
     @ (if ckDefault k \<noteq> '''' \<and> ckType k = ConfigKeyTypeEnum \<and> ckDefault k \<notin> set (ckEnum k)
        then [Invalid (path_child kp ''default'') (BadString (ckDefault k))
                (''default '' @ Quote (ckDefault k) @ '' is not in enum list '' @ show_strings (ckEnum k))]
        else [])"

fun key_errors :: "nat \<Rightarrow> (string, nat) fmap \<Rightarrow> (string, nat) fmap \<Rightarrow> config_key list
    \<Rightarrow> field_error list" where
  "key_errors i seenKeyName seenEnvVar [] = []"
| "key_errors i seenKeyName seenEnvVar (k # ks) =
     (let kp = path_index keysPath i;
          (e1, seenKeyName) = check_seen (path_child kp ''name'') Quote i (ckName k) seenKeyName;
          (e2, seenEnvVar) = check_seen (path_child kp ''envVar'') Quote i (ckEnvVar k) seenEnvVar
      in e1 @ e2 @ enum_errors kp k @ key_errors (Suc i) seenKeyName seenEnvVar ks)"

definition template_errors :: "game_template \<Rightarrow> field_error list" where
  "template_errors tpl =
     port_errors 0 fmempty fmempty (tplPorts (tplSpec tpl))
     @ primary_errors (tplPorts (tplSpec tpl))
     @ key_errors 0 fmempty fmempty (tplConfigKeys (tplSpec tpl))"

definition validateTemplate :: "game_template \<Rightarrow> admission_error option" where
  "validateTemplate tpl =
     (let errs = template_errors tpl in
      if errs = [] then None else Some (NewInvalid ''GameTemplate'' (mName (tplMeta tpl)) errs))"

definition GameTemplate_ValidateCreate :: "game_template \<Rightarrow> admission_error option" where
  "GameTemplate_ValidateCreate tpl = validateTemplate tpl"

definition GameTemplate_ValidateUpdate :: "game_template \<Rightarrow> game_template \<Rightarrow> admission_error option" where
  "GameTemplate_ValidateUpdate old newTpl = validateTemplate newTpl"

definition GameTemplate_ValidateDelete :: "game_template \<Rightarrow> admission_error option" where
  "GameTemplate_ValidateDelete tpl = None"

section \<open>validate, of a GameServer\<close>

type_synonym admission = "string list \<times> admission_error option"

definition invalidError :: "game_server \<Rightarrow> field_error list \<Rightarrow> admission_error" where
  "invalidError gs errs = NewInvalid ''GameServer'' (mName (gsMeta gs)) errs"

definition GameServer_validate :: "lib \<Rightarrow> 'w client \<Rightarrow> game_server \<Rightarrow> ('w, admission) io" where
  "GameServer_validate L C gs =
     (if gsTemplateRefName (gsSpec gs) = '''' then
        return ([], Some (invalidError gs [Required ''spec.templateRef.name'' ''templateRef.name must be set'']))
      else do {
        r \<leftarrow> Get OGameTemplate (GameTemplates C) ('''', gsTemplateRefName (gsSpec gs));
        case r of
          Inl err \<Rightarrow>
            if IsNotFound err then
              return ([''referenced GameTemplate '' @ Quote (gsTemplateRefName (gsSpec gs))
                @ '' does not exist yet; the reconciler will wait for it''], None)
            else return ([], Some (Failure (wrapf (''looking up GameTemplate ''
                @ Quote (gsTemplateRefName (gsSpec gs))) err)))
        | Inr tpl \<Rightarrow>
            (let fieldErrs = (case ValidateConfig L gs tpl of
                    Some err \<Rightarrow> [Invalid ''spec.config'' (BadConfig (gsConfig (gsSpec gs))) (err_text err)]
                  | None \<Rightarrow> [])
             in if fieldErrs \<noteq> [] then return ([], Some (invalidError gs fieldErrs))
                else return ([], None)) })"

definition GameServer_ValidateCreate :: "lib \<Rightarrow> 'w client \<Rightarrow> game_server \<Rightarrow> ('w, admission) io" where
  "GameServer_ValidateCreate L C gs = GameServer_validate L C gs"

definition GameServer_ValidateUpdate :: "lib \<Rightarrow> 'w client \<Rightarrow> game_server \<Rightarrow> game_server
    \<Rightarrow> ('w, admission) io" where
  "GameServer_ValidateUpdate L C old newGS = GameServer_validate L C newGS"

definition GameServer_ValidateDelete :: "game_server \<Rightarrow> ('w, admission) io" where
  "GameServer_ValidateDelete gs = return ([], None)"

section \<open>The specification of a well-formed template\<close>

definition enum_ok :: "config_key \<Rightarrow> bool" where
  "enum_ok k \<longleftrightarrow>
     (if ckType k = ConfigKeyTypeEnum
      then ckEnum k \<noteq> [] \<and> (ckDefault k = '''' \<or> ckDefault k \<in> set (ckEnum k))
      else ckEnum k = [])"

definition template_ok :: "game_template \<Rightarrow> bool" where
  "template_ok tpl \<longleftrightarrow>
     distinct (map tpName (tplPorts (tplSpec tpl)))
     \<and> distinct (map tpContainerPort (tplPorts (tplSpec tpl)))
     \<and> length (filter tpPrimary (tplPorts (tplSpec tpl))) \<le> 1
     \<and> distinct (map ckName (tplConfigKeys (tplSpec tpl)))
     \<and> distinct (map ckEnvVar (tplConfigKeys (tplSpec tpl)))
     \<and> list_all enum_ok (tplConfigKeys (tplSpec tpl))"

lemma check_seen_simps [simp]:
  "fst (check_seen path sh i x seen) = [] \<longleftrightarrow> fmlookup seen x = None"
  "fmlookup seen x = None \<Longrightarrow> snd (check_seen path sh i x seen) = fmupd x i seen"
  by (auto simp: check_seen_def split: option.splits)

lemma enum_errors_Nil: "enum_errors kp k = [] \<longleftrightarrow> enum_ok k"
  by (auto simp: enum_errors_def enum_ok_def)

lemma if_Some_None [simp]: "(if b then Some i else x) = None \<longleftrightarrow> \<not> b \<and> x = None"
  by simp

lemma port_errors_Nil:
  "port_errors i sn sc ps = [] \<longleftrightarrow>
     distinct (map tpName ps) \<and> distinct (map tpContainerPort ps)
     \<and> (\<forall>p \<in> set ps. fmlookup sn (tpName p) = None)
     \<and> (\<forall>p \<in> set ps. fmlookup sc (tpContainerPort p) = None)"
  by (induction ps arbitrary: i sn sc) (auto simp: Let_def split_def)

lemma key_errors_Nil:
  "key_errors i sn se ks = [] \<longleftrightarrow>
     distinct (map ckName ks) \<and> distinct (map ckEnvVar ks) \<and> list_all enum_ok ks
     \<and> (\<forall>k \<in> set ks. fmlookup sn (ckName k) = None) \<and> (\<forall>k \<in> set ks. fmlookup se (ckEnvVar k) = None)"
  by (induction ks arbitrary: i sn se) (auto simp: Let_def split_def enum_errors_Nil)

lemma primary_errors_Nil: "primary_errors ps = [] \<longleftrightarrow> length (filter tpPrimary ps) \<le> 1"
proof -
  have "foldl (\<lambda>n p. if tpPrimary p then n + 1 else n) (0 :: nat) ps = length (filter tpPrimary ps)"
    by (induction ps rule: rev_induct) simp_all
  then show ?thesis by (auto simp: primary_errors_def Let_def)
qed

lemma template_errors_Nil: "template_errors tpl = [] \<longleftrightarrow> template_ok tpl"
  by (auto simp: template_errors_def template_ok_def port_errors_Nil key_errors_Nil primary_errors_Nil)

end
