(* ===== verification/GameServerController.thy ===== *)
theory GameServerController
  imports Builders Conditions
begin

text \<open>
  \<open>internal/controller/gameserver_controller.go\<close>: \<open>Reconcile\<close> of a GameServer, in the stages of the
  code (fetch the template, validate the configuration, ensure the ServiceAccount, resolve the restore
  source, apply the PVC, the Deployment and the Services, report the status), the functions that apply
  each child, and the watch function \<open>mapTemplateToServers\<close>. Every early return is a branch.
\<close>

section \<open>Applying the children\<close>

definition GameServerKind :: string where [simp]: "GameServerKind = ''GameServer''"

definition applyPVC :: "'w client \<Rightarrow> persistent_volume_claim \<Rightarrow> ('w, go_error option) io" where
  "applyPVC C desired = do {
     r \<leftarrow> Get OPVC (PVCs C) (object_key (pvcMeta desired));
     case r of
       Inl err \<Rightarrow>
         if IsNotFound err then do { r \<leftarrow> Create OPVC (PVCs C) desired; return (err_of r) }
         else return (Some err)
     | Inr existing \<Rightarrow>
         if mLabels (pvcMeta existing) \<noteq> mLabels (pvcMeta desired) then do {
           r \<leftarrow> Update OPVC (PVCs C)
             (existing\<lparr>pvcMeta := (pvcMeta existing)\<lparr>mLabels := mLabels (pvcMeta desired)\<rparr>\<rparr>);
           return (err_of r)
         } else return None }"

definition applyDeployment :: "'w client \<Rightarrow> deployment \<Rightarrow> ('w, go_error option) io" where
  "applyDeployment C desired = do {
     r \<leftarrow> Get ODeployment (Deployments C) (object_key (depMeta desired));
     case r of
       Inl err \<Rightarrow>
         if IsNotFound err then do { r \<leftarrow> Create ODeployment (Deployments C) desired; return (err_of r) }
         else return (Some err)
     | Inr existing \<Rightarrow> do {
         let existing = existing\<lparr>depMeta := (depMeta existing)\<lparr>mLabels := mLabels (depMeta desired)\<rparr>,
                                 depSpec := depSpec desired\<rparr>;
         r \<leftarrow> Update ODeployment (Deployments C) existing;
         return (err_of r) } }"

definition merge_service :: "service \<Rightarrow> service \<Rightarrow> service" where
  "merge_service existing desired =
     existing\<lparr>svcMeta := (svcMeta existing)\<lparr>mLabels := mLabels (svcMeta desired)\<rparr>,
              svcSpec := (svcSpec existing)\<lparr>ssType := ssType (svcSpec desired),
                ssSelector := ssSelector (svcSpec desired),
                ssPorts := mergeServicePorts (ssPorts (svcSpec existing)) (ssPorts (svcSpec desired))\<rparr>\<rparr>"

definition applyService :: "'w client \<Rightarrow> service \<Rightarrow> ('w, go_error + service) io" where
  "applyService C desired = do {
     r \<leftarrow> Get OService (Services C) (object_key (svcMeta desired));
     case r of
       Inl err \<Rightarrow>
         if IsNotFound err then do {
           rc \<leftarrow> Create OService (Services C) desired;
           case rc of
             Inl err \<Rightarrow> return (Inl err)
           | Inr created \<Rightarrow> Get OService (Services C) (object_key (svcMeta created))
         } else return (Inl err)
     | Inr existing \<Rightarrow> Update OService (Services C) (merge_service existing desired) }"

definition ensureServiceAccount :: "'w client \<Rightarrow> game_server \<Rightarrow> ('w, go_error option) io" where
  "ensureServiceAccount C gs = do {
     let sa = desired_service_account gs;
     r \<leftarrow> Get OServiceAccount (ServiceAccounts C) (object_key (saMeta sa));
     case r of
       Inl err \<Rightarrow>
         if IsNotFound err then do { r \<leftarrow> Create OServiceAccount (ServiceAccounts C) sa; return (err_of r) }
         else return (Some err)
     | Inr _ \<Rightarrow> return None }"

text \<open>The loop over the desired Services: the applied ones, or the first error.\<close>

fun apply_services :: "lib \<Rightarrow> 'w client \<Rightarrow> game_server \<Rightarrow> service list \<Rightarrow> service list
    \<Rightarrow> ('w, go_error + service list) io" where
  "apply_services L C gs [] applied = return (Inr applied)"
| "apply_services L C gs (svc # svcs) applied =
     (case SetControllerReference L (GameServerKind, gsMeta gs) (svcMeta svc) of
        Inl err \<Rightarrow> return (Inl err)
      | Inr m \<Rightarrow> do {
          r \<leftarrow> applyService C (svc\<lparr>svcMeta := m\<rparr>);
          case r of
            Inl err \<Rightarrow> return (Inl err)
          | Inr a \<Rightarrow> apply_services L C gs svcs (applied @ [a]) })"

section \<open>The restore source\<close>

definition resolveRestoreSource :: "'w client \<Rightarrow> game_server \<Rightarrow> ('w, go_error + string option) io" where
  "resolveRestoreSource C gs =
     (case gsRestoreFrom (gsSpec gs) of
        None \<Rightarrow> return (Inr None)
      | Some backupName \<Rightarrow> do {
          r \<leftarrow> Get OPVC (PVCs C) (mNamespace (gsMeta gs), PVCName gs);
          case r of
            Inr _ \<Rightarrow> return (Inr None)
          | Inl err \<Rightarrow>
              if \<not> IsNotFound err then return (Inl err)
              else do {
                rb \<leftarrow> Get OBackup (Backups C) (mNamespace (gsMeta gs), backupName);
                case rb of
                  Inl err \<Rightarrow> return (Inl (wrapf (''restoreFrom.backupName '' @ Quote backupName) err))
                | Inr b \<Rightarrow>
                    if bPhase (bStatus b) \<noteq> BackupPhaseReady then
                      return (Inl (errorf (''restoreFrom.backupName '' @ Quote (mName (bMeta b))
                        @ '': Backup phase is '' @ Quote (bPhase (bStatus b)) @ '', want Ready'')))
                    else if bVolumeSnapshotName (bStatus b) = '''' then
                      return (Inl (errorf (''restoreFrom.backupName '' @ Quote (mName (bMeta b))
                        @ '': Backup has no VolumeSnapshotName in status'')))
                    else return (Inr (Some (bVolumeSnapshotName (bStatus b)))) } })"

section \<open>Reconcile\<close>

definition updateStatus :: "'w client \<Rightarrow> game_server \<Rightarrow> ('w, go_error + game_server) io" where
  "updateStatus C gs = StatusUpdate OGameServer (GameServers C) gs"

text \<open>\<open>r.setCondition\<close> reads the clock each time it is called.\<close>

definition set_condition_now ::
    "'w client \<Rightarrow> game_server \<Rightarrow> string \<Rightarrow> string \<Rightarrow> string \<Rightarrow> string \<Rightarrow> ('w, game_server) io" where
  "set_condition_now C gs t st reason msg = do {
     now \<leftarrow> Now (Clock C);
     return (setCondition now gs t st reason msg) }"

definition set_phase :: "string \<Rightarrow> game_server \<Rightarrow> game_server" where
  "set_phase ph gs = gs\<lparr>gsStatus := (gsStatus gs)\<lparr>gsPhase := ph\<rparr>\<rparr>"

text \<open>A condition becomes False, the phase follows, the status is written (an error is only logged) and
  the request is tried again in 30 seconds: what the three recoverable failures do.\<close>

definition report_failure :: "'w client \<Rightarrow> game_server \<Rightarrow> string \<Rightarrow> string \<Rightarrow> string \<Rightarrow> string
    \<Rightarrow> ('w, outcome) io" where
  "report_failure C gs condType reason msg ph = do {
     gs \<leftarrow> set_condition_now C gs condType ConditionFalse reason msg;
     _ \<leftarrow> updateStatus C (set_phase ph gs);
     return (Result (30 * Second), None) }"

definition status_of :: "game_server \<Rightarrow> game_template \<Rightarrow> deployment \<Rightarrow> service list \<Rightarrow> game_server" where
  "status_of gs tpl current svcs =
     gs\<lparr>gsStatus := (gsStatus gs)\<lparr>gsReadyReplicas := depReadyReplicas current,
          gsObservedGeneration := mGeneration (gsMeta gs),
          gsTemplateGeneration := mGeneration (tplMeta tpl),
          gsAddress := PrimaryAddress gs tpl svcs\<rparr>\<rparr>"

definition report_status :: "'w client \<Rightarrow> game_server \<Rightarrow> game_template \<Rightarrow> service list
    \<Rightarrow> ('w, outcome) io" where
  "report_status C gs tpl svcs = do {
     r \<leftarrow> Get ODeployment (Deployments C) (mNamespace (gsMeta gs), DeploymentName gs);
     case r of
       Inl err \<Rightarrow> return (Result 0, Some err)
     | Inr current \<Rightarrow> do {
         let gs = status_of gs tpl current svcs;
         gs \<leftarrow> (if gsSuspend (gsSpec gs) then
                  set_condition_now C (set_phase PhaseStopped gs) ConditionReady ConditionFalse
                    ''Suspended'' ''spec.suspend=true''
                else if sint (depReadyReplicas current) \<ge> 1 then
                  set_condition_now C (set_phase PhaseReady gs) ConditionReady ConditionTrue
                    ''PodReady'' ''pod is Ready''
                else
                  set_condition_now C (set_phase PhaseProvisioning gs) ConditionReady ConditionFalse
                    ''PodNotReady'' ''waiting for pod to become Ready'');
         ru \<leftarrow> updateStatus C gs;
         case ru of
           Inl err \<Rightarrow> return (Result 0, Some err)
         | Inr gs \<Rightarrow>
             if gsPhase (gsStatus gs) \<noteq> PhaseReady then return (Result (10 * Second), None)
             else return (Result 0, None) } }"

definition reconcile_workload :: "lib \<Rightarrow> 'w client \<Rightarrow> game_server \<Rightarrow> game_template
    \<Rightarrow> ('w, outcome) io" where
  "reconcile_workload L C gs tpl =
     (let desiredDep = BuildDeployment L gs tpl in
      case SetControllerReference L (GameServerKind, gsMeta gs) (depMeta desiredDep) of
        Inl err \<Rightarrow> return (Result 0, Some err)
      | Inr m \<Rightarrow> do {
          r \<leftarrow> applyDeployment C (desiredDep\<lparr>depMeta := m\<rparr>);
          case r of
            Some err \<Rightarrow> return (Result 0, Some err)
          | None \<Rightarrow> do {
              rs \<leftarrow> apply_services L C gs (BuildServices gs tpl) [];
              case rs of
                Inl err \<Rightarrow> return (Result 0, Some err)
              | Inr appliedSvcs \<Rightarrow> report_status C gs tpl appliedSvcs } })"

definition reconcile_pvc :: "lib \<Rightarrow> 'w client \<Rightarrow> game_server \<Rightarrow> game_template \<Rightarrow> string option
    \<Rightarrow> ('w, outcome) io" where
  "reconcile_pvc L C gs tpl sourceSnapshot =
     (case BuildPVC L gs tpl sourceSnapshot of
        Inl err \<Rightarrow> do {
          gs \<leftarrow> set_condition_now C gs ConditionConfigValid ConditionFalse ''InvalidStorage'' (err_text err);
          r \<leftarrow> updateStatus C gs;
          return (Result 0, err_of r) }
      | Inr desiredPVC \<Rightarrow>
          (case SetControllerReference L (GameServerKind, gsMeta gs) (pvcMeta desiredPVC) of
             Inl err \<Rightarrow> return (Result 0, Some err)
           | Inr m \<Rightarrow> do {
               r \<leftarrow> applyPVC C (desiredPVC\<lparr>pvcMeta := m\<rparr>);
               case r of
                 Some err \<Rightarrow> return (Result 0, Some err)
               | None \<Rightarrow> reconcile_workload L C gs tpl }))"

definition reconcile_storage :: "lib \<Rightarrow> 'w client \<Rightarrow> game_server \<Rightarrow> game_template
    \<Rightarrow> ('w, outcome) io" where
  "reconcile_storage L C gs tpl = do {
     rr \<leftarrow> resolveRestoreSource C gs;
     case rr of
       Inl restoreErr \<Rightarrow>
         report_failure C gs ConditionRestoreSourceResolved ''Unavailable'' (err_text restoreErr) PhaseDegraded
     | Inr sourceSnapshot \<Rightarrow> do {
         gs \<leftarrow> (if gsRestoreFrom (gsSpec gs) \<noteq> None then
                  set_condition_now C gs ConditionRestoreSourceResolved ConditionTrue
                    ''SnapshotBound'' ''restoreFrom Backup snapshot ready''
                else return gs);
         reconcile_pvc L C gs tpl sourceSnapshot } }"

definition reconcile_resolved :: "lib \<Rightarrow> 'w client \<Rightarrow> game_server \<Rightarrow> game_template
    \<Rightarrow> ('w, outcome) io" where
  "reconcile_resolved L C gs tpl =
     (case ValidateConfig L gs tpl of
        Some err \<Rightarrow> report_failure C gs ConditionConfigValid ''Invalid'' (err_text err) PhaseDegraded
      | None \<Rightarrow> do {
          gs \<leftarrow> set_condition_now C gs ConditionConfigValid ConditionTrue ''Valid''
            ''config satisfies template'';
          r \<leftarrow> (if tplSecurityProfile (tplSpec tpl) \<noteq> SecurityProfileAnyUID
                then ensureServiceAccount C gs else return None);
          case r of
            Some err \<Rightarrow> return (Result 0, Some err)
          | None \<Rightarrow> reconcile_storage L C gs tpl })"

definition GameServer_Reconcile :: "lib \<Rightarrow> 'w client \<Rightarrow> key \<Rightarrow> ('w, outcome) io" where
  "GameServer_Reconcile L C req = do {
     r \<leftarrow> Get OGameServer (GameServers C) req;
     case r of
       Inl err \<Rightarrow> if IsNotFound err then return (Result 0, None) else return (Result 0, Some err)
     | Inr gs \<Rightarrow> do {
         rt \<leftarrow> Get OGameTemplate (GameTemplates C) ('''', gsTemplateRefName (gsSpec gs));
         case rt of
           Inl err \<Rightarrow>
             if IsNotFound err then
               report_failure C gs ConditionTemplateResolved ''NotFound''
                 (''GameTemplate '' @ Quote (gsTemplateRefName (gsSpec gs)) @ '' not found'') PhasePending
             else return (Result 0, Some err)
         | Inr tpl \<Rightarrow> do {
             gs \<leftarrow> set_condition_now C gs ConditionTemplateResolved ConditionTrue ''Resolved''
               ''GameTemplate resolved'';
             reconcile_resolved L C gs tpl } } }"

section \<open>mapTemplateToServers\<close>

definition mapTemplateToServers :: "'w client \<Rightarrow> object \<Rightarrow> ('w, key list) io" where
  "mapTemplateToServers C obj =
     (case obj of
        OGameTemplate tpl \<Rightarrow> do {
          r \<leftarrow> List_objs OGameServer (GameServers C) None fmempty;
          case r of
            Inl err \<Rightarrow> return []
          | Inr items \<Rightarrow>
              return (map (\<lambda>gs. object_key (gsMeta gs))
                (filter (\<lambda>gs. gsTemplateRefName (gsSpec gs) = mName (tplMeta tpl)) items)) }
      | _ \<Rightarrow> return [])"

end
