(* ===== verification/ChildApplier.thy ===== *)
theory ChildApplier
  imports GameServerController
begin

text \<open>
  The contract of the functions that apply one child object: read it; create it when it is missing;
  update what was read, or leave it; never delete. The locale \<open>child_applier\<close> states it over the
  events of the function, and is interpreted on \<open>applyPVC\<close>, \<open>applyDeployment\<close>, \<open>applyService\<close> and
  \<open>ensureServiceAccount\<close>.
\<close>

definition is_write :: "event \<Rightarrow> bool" where
  "is_write ev \<longleftrightarrow> (case ev of EvRead _ \<Rightarrow> False | _ \<Rightarrow> True)"

definition is_delete :: "event \<Rightarrow> bool" where
  "is_delete ev \<longleftrightarrow> (case ev of EvDelete _ \<Rightarrow> True | _ \<Rightarrow> False)"

text \<open>The event lists of an application of the desired object \<open>d\<close>; \<open>merge x d\<close> is the update made when
  \<open>x\<close> was read, if one is made.\<close>

definition applied_events :: "('o \<Rightarrow> object) \<Rightarrow> ('o \<Rightarrow> 'o \<Rightarrow> 'o option) \<Rightarrow> 'o \<Rightarrow> event list \<Rightarrow> bool" where
  "applied_events mk merge d es \<longleftrightarrow>
     es = [] \<or> es = [EvCreate (mk d)] \<or> (\<exists>x. es = [EvRead (mk x)])
     \<or> (\<exists>x. es = [EvCreate (mk d), EvRead (mk x)])
     \<or> (\<exists>x y. merge x d = Some y \<and> es = [EvRead (mk x), EvUpdate (mk y)])"

locale child_applier =
  fixes mk :: "'o \<Rightarrow> object"
    and meta_of :: "'o \<Rightarrow> object_meta"
    and desired :: "'d \<Rightarrow> 'o"
    and merge :: "'o \<Rightarrow> 'o \<Rightarrow> 'o option"
    and failed :: "'r \<Rightarrow> bool"
    and apply_child :: "'w client \<Rightarrow> 'd \<Rightarrow> ('w, 'r) io"
  assumes apply_events:
      "produces (apply_child C d) (\<lambda>r es. applied_events mk merge (desired d) es)"
    and apply_success: "produces (apply_child C d) (\<lambda>r es. \<not> failed r \<longrightarrow>
        (\<exists>x. EvRead (mk x) \<in> set es) \<or> EvCreate (mk (desired d)) \<in> set es)"
    and merge_key: "merge x d' = Some y \<Longrightarrow> object_key (meta_of y) = object_key (meta_of x)"
    and merge_owner: "merge x d' = Some y \<Longrightarrow> mOwnerReferences (meta_of y) = mOwnerReferences (meta_of x)"
begin

lemma apply_closed:
  assumes "R []" and "\<And>x. R [EvRead (mk x)]" and "R [EvCreate (mk (desired d))]"
    and "\<And>x. R [EvCreate (mk (desired d)), EvRead (mk x)]"
    and "\<And>x y. merge x (desired d) = Some y \<Longrightarrow> R [EvRead (mk x), EvUpdate (mk y)]"
  shows "produces (apply_child C d) (\<lambda>_. R)"
  using apply_events [of C d] by (rule produces_mono) (auto simp: applied_events_def assms)

lemma apply_writes:
  "produces (apply_child C d) (\<lambda>_ es. length (filter is_write es) \<le> 1 \<and> list_all (\<lambda>ev. \<not> is_delete ev) es)"
  by (rule apply_closed) (simp_all add: is_write_def is_delete_def)

end

definition merge_pvc :: "persistent_volume_claim \<Rightarrow> persistent_volume_claim
    \<Rightarrow> persistent_volume_claim option" where
  "merge_pvc existing d =
     (if mLabels (pvcMeta existing) = mLabels (pvcMeta d) then None
      else Some (existing\<lparr>pvcMeta := (pvcMeta existing)\<lparr>mLabels := mLabels (pvcMeta d)\<rparr>\<rparr>))"

definition merge_deployment :: "deployment \<Rightarrow> deployment \<Rightarrow> deployment option" where
  "merge_deployment existing d =
     Some (existing\<lparr>depMeta := (depMeta existing)\<lparr>mLabels := mLabels (depMeta d)\<rparr>, depSpec := depSpec d\<rparr>)"

lemmas applier_simps = applied_events_def object_key_def

interpretation pvc_applier: child_applier OPVC pvcMeta "\<lambda>d. d" merge_pvc "\<lambda>r. r \<noteq> None" applyPVC
  by unfold_locales
    (auto simp: applyPVC_def applier_simps merge_pvc_def split: if_splits intro!: io_intro)

interpretation deployment_applier:
  child_applier ODeployment depMeta "\<lambda>d. d" merge_deployment "\<lambda>r. r \<noteq> None" applyDeployment
  by unfold_locales
    (auto simp: applyDeployment_def applier_simps merge_deployment_def intro!: io_intro)

interpretation service_applier: child_applier OService svcMeta "\<lambda>d. d" "\<lambda>x d. Some (merge_service x d)" isl applyService
  by unfold_locales
    (auto simp: applyService_def applier_simps merge_service_def intro!: io_intro)

interpretation service_account_applier:
  child_applier OServiceAccount saMeta desired_service_account "\<lambda>x y. None" "\<lambda>r. r \<noteq> None"
    ensureServiceAccount
  by unfold_locales
    (auto simp: ensureServiceAccount_def applier_simps intro!: io_intro)

end
