(* ===== verification/GameServerFacts.thy ===== *)
theory GameServerFacts
  imports ChildApplier
begin

text \<open>
  What a reconcile of a GameServer does to the cluster, for every API client and every world: the rule
  \<open>resolved_rule\<close> reduces a claim about the events of a run, closed under concatenation, to the handful
  of writes the code can make; the properties below are its instances.
\<close>

declare ConditionTrue_def [simp del] ConditionFalse_def [simp del] ConditionReady_def [simp del]
  ConditionTemplateResolved_def [simp del] ConditionConfigValid_def [simp del]
  ConditionRestoreSourceResolved_def [simp del] PhasePending_def [simp del] PhaseProvisioning_def [simp del]
  PhaseReady_def [simp del] PhaseDegraded_def [simp del] PhaseStopped_def [simp del]
  SecurityProfileAnyUID_def [simp del] Second_def [simp del]

section \<open>Builders read only the metadata and the spec\<close>

abbreviation same_object :: "game_server \<Rightarrow> game_server \<Rightarrow> bool" where
  "same_object a b \<equiv> gsMeta a = gsMeta b \<and> gsSpec a = gsSpec b"

lemma same_object_names:
  assumes "same_object a b"
  shows "PVCName a = PVCName b" "DeploymentName a = DeploymentName b"
    "ServiceName a e = ServiceName b e" "baseLabels a = baseLabels b"
    "selectorLabels a = selectorLabels b" "desired_service_account a = desired_service_account b"
  using assms by (simp_all add: PVCName_def DeploymentName_def ServiceName_def baseLabels_def
      selectorLabels_def desired_service_account_def)

lemma same_object_exposure:
  assumes "same_object a b"
  shows "resolveExposure a p = resolveExposure b p" "primaryPort a tpl = primaryPort b tpl"
    "BuildServices a tpl = BuildServices b tpl"
proof -
  have r: "resolveExposure a = resolveExposure b"
    using assms by (simp add: resolveExposure_def fun_eq_iff)
  show "resolveExposure a p = resolveExposure b p" by (simp add: r)
  show "primaryPort a tpl = primaryPort b tpl" unfolding primaryPort_def r by (rule refl)
  have "build_port a = build_port b" "build_service a = build_service b"
    using assms by (simp_all add: fun_eq_iff build_port_def build_service_def r same_object_names [OF assms])
  then show "BuildServices a tpl = BuildServices b tpl"
    by (simp add: BuildServices_eq services_spec_def r)
qed

lemma same_object_builders:
  assumes "same_object a b"
  shows "BuildDeployment L a tpl = BuildDeployment L b tpl" "BuildPVC L a tpl snap = BuildPVC L b tpl snap"
    "pvc_of a qty snap = pvc_of b qty snap" "ValidateConfig L a tpl = ValidateConfig L b tpl"
    "config_ok a tpl = config_ok b tpl"
proof -
  have "resolveEnv L a tpl = resolveEnv L b tpl"
    using assms by (simp add: resolveEnv_def)
  then have "game_container L a tpl = game_container L b tpl"
    using assms by (simp add: game_container_def same_object_exposure [OF assms] cong: option.case_cong)
  then show "BuildDeployment L a tpl = BuildDeployment L b tpl"
    using assms same_object_names [OF assms] by (simp add: BuildDeployment_def)
  have pvc: "pvc_of a = pvc_of b"
    using assms same_object_names [OF assms] by (simp add: pvc_of_def fun_eq_iff)
  show "pvc_of a qty snap = pvc_of b qty snap" "ValidateConfig L a tpl = ValidateConfig L b tpl"
    "config_ok a tpl = config_ok b tpl"
    using assms pvc by (simp_all add: ValidateConfig_def config_ok_def)
  have "storage_size a tpl = storage_size b tpl"
    using assms by (simp add: storage_size_def)
  then show "BuildPVC L a tpl snap = BuildPVC L b tpl snap"
    unfolding BuildPVC_eq pvc by (rule ssubst) (rule refl)
qed

lemma set_phase_simps [simp]:
  "gsMeta (set_phase ph gs) = gsMeta gs" "gsSpec (set_phase ph gs) = gsSpec gs"
  "gsPhase (gsStatus (set_phase ph gs)) = ph"
  "gsConditions (gsStatus (set_phase ph gs)) = gsConditions (gsStatus gs)"
  by (simp_all add: set_phase_def)

lemma status_of_simps [simp]:
  "gsMeta (status_of gs tpl d svcs) = gsMeta gs" "gsSpec (status_of gs tpl d svcs) = gsSpec gs"
  by (simp_all add: status_of_def)

section \<open>The writes of a run\<close>

text \<open>The status a run ends with, from the Deployment it read and the Services it applied.\<close>

definition observed_phase :: "game_server \<Rightarrow> deployment \<Rightarrow> string" where
  "observed_phase gs d =
     (if gsSuspend (gsSpec gs) then PhaseStopped
      else if sint (depReadyReplicas d) \<ge> 1 then PhaseReady else PhaseProvisioning)"

definition final_status :: "gotime \<Rightarrow> game_server \<Rightarrow> game_template \<Rightarrow> deployment \<Rightarrow> service list
    \<Rightarrow> game_server" where
  "final_status now gs tpl d svcs =
     (let g = set_phase (observed_phase gs d) (status_of gs tpl d svcs) in
      if gsSuspend (gsSpec gs) then
        setCondition now g ConditionReady ConditionFalse ''Suspended'' ''spec.suspend=true''
      else if sint (depReadyReplicas d) \<ge> 1 then
        setCondition now g ConditionReady ConditionTrue ''PodReady'' ''pod is Ready''
      else setCondition now g ConditionReady ConditionFalse ''PodNotReady''
             ''waiting for pod to become Ready'')"

lemma final_status_simps [simp]:
  "gsMeta (final_status now gs tpl d svcs) = gsMeta gs"
  "gsSpec (final_status now gs tpl d svcs) = gsSpec gs"
  "gsPhase (gsStatus (final_status now gs tpl d svcs)) = observed_phase gs d"
  by (simp_all add: final_status_def Let_def)

text \<open>What \<open>set_condition_now\<close> returns is the same object with another status.\<close>

lemma produces_set_condition_now:
  "(\<And>now. R (setCondition now gs t st r m) []) \<Longrightarrow> produces (set_condition_now C gs t st r m) R"
  unfolding set_condition_now_def by (auto intro!: io_intro)

text \<open>The outcome of a run whose last status update answered \<open>ru\<close>.\<close>

definition final_outcome :: "go_error + game_server \<Rightarrow> outcome" where
  "final_outcome ru = (case ru of
       Inl err \<Rightarrow> (Result 0, Some err)
     | Inr g \<Rightarrow> (Result (if gsPhase (gsStatus g) = PhaseReady then 0 else 10 * Second), None))"

text \<open>The end of a run, on every branch.\<close>

lemma report_status_produces:
  "produces (report_status C gs tpl svcs) (\<lambda>r es.
     (\<exists>err. es = [] \<and> r = (Result 0, Some err))
     \<or> (\<exists>d now ru. es = [EvRead (ODeployment d), EvUpdateStatus (OGameServer (final_status now gs tpl d svcs))]
          \<and> r = final_outcome ru))"
  (is "produces _ ?R")
proof -
  have ret: "(case ru of Inl err \<Rightarrow> return (Result 0, Some err)
       | Inr gs \<Rightarrow> if gsPhase (gsStatus gs) \<noteq> PhaseReady then return (Result (10 * Second), None)
           else return (Result 0, None)) = return (final_outcome ru)" for ru
    by (cases ru) (simp_all add: final_outcome_def)
  have fin: "produces (State_Monad.bind (updateStatus C (final_status now gs tpl d svcs))
      (\<lambda>ru. return (final_outcome ru))) (\<lambda>r es. ?R r (EvRead (ODeployment d) # es))" for now d
    unfolding updateStatus_def
    by (rule produces_bind, rule produces_StatusUpdate, rule produces_return) auto
  have final: "gsSuspend (gsSpec gs) \<Longrightarrow>
      setCondition now (set_phase PhaseStopped (status_of gs tpl d svcs)) ConditionReady ConditionFalse
        ''Suspended'' ''spec.suspend=true'' = final_status now gs tpl d svcs"
    "\<not> gsSuspend (gsSpec gs) \<Longrightarrow> 1 \<le> sint (depReadyReplicas d) \<Longrightarrow>
      setCondition now (set_phase PhaseReady (status_of gs tpl d svcs)) ConditionReady ConditionTrue
        ''PodReady'' ''pod is Ready'' = final_status now gs tpl d svcs"
    "\<not> gsSuspend (gsSpec gs) \<Longrightarrow> \<not> 1 \<le> sint (depReadyReplicas d) \<Longrightarrow>
      setCondition now (set_phase PhaseProvisioning (status_of gs tpl d svcs)) ConditionReady ConditionFalse
        ''PodNotReady'' ''waiting for pod to become Ready'' = final_status now gs tpl d svcs" for now d
    by (simp_all add: final_status_def observed_phase_def)
  show ?thesis
    unfolding report_status_def Let_def ret
  proof (rule produces_bind, rule produces_Get, goal_cases)
    case (1 e)
    show ?case by (simp only: sum.case append_Nil, rule produces_return) simp
  next
    case (2 d)
    show ?case
      by (simp only: sum.case append_Cons append_Nil, rule produces_bind,
          intro produces_if produces_set_condition_now)
        (simp_all only: final append_Nil append_Cons status_of_simps fin if_True if_False not_False_eq_True)
  qed
qed

text \<open>
  A discipline: a predicate on event lists, closed under concatenation, that holds of every piece of
  a run on the GameServer \<open>gs\<close> and the template \<open>tpl\<close>; \<open>src\<close> says which restore sources the claim
  is about. Its lemmas carry the predicate through the stages of \<open>Reconcile\<close>.
\<close>

locale run_discipline =
  fixes L :: lib and gs :: game_server and tpl :: game_template
    and R :: "event list \<Rightarrow> bool" and src :: "string option \<Rightarrow> bool"
  assumes closed: "append_closed R"
    and read: "R [EvRead x]"
    and sa_create: "tplSecurityProfile (tplSpec tpl) \<noteq> SecurityProfileAnyUID \<Longrightarrow>
      R [EvCreate (OServiceAccount (desired_service_account gs))]"
    and pvc_create: "src snap \<Longrightarrow> ParseQuantity L (storage_size gs tpl) = Inr qty \<Longrightarrow>
      SetControllerReference L (GameServerKind, gsMeta gs) (pvcMeta (pvc_of gs qty snap)) = Inr m \<Longrightarrow>
      R [EvCreate (OPVC (pvc_of gs qty snap\<lparr>pvcMeta := m\<rparr>))]"
    and pvc_update: "merge_pvc p (pvc_of gs qty snap\<lparr>pvcMeta := m\<rparr>) = Some p' \<Longrightarrow>
      R [EvRead (OPVC p), EvUpdate (OPVC p')]"
    and deployment_create:
      "SetControllerReference L (GameServerKind, gsMeta gs) (depMeta (BuildDeployment L gs tpl)) = Inr m \<Longrightarrow>
       R [EvCreate (ODeployment (BuildDeployment L gs tpl\<lparr>depMeta := m\<rparr>))]"
    and deployment_update: "merge_deployment d (BuildDeployment L gs tpl\<lparr>depMeta := m\<rparr>) = Some d' \<Longrightarrow>
      R [EvRead (ODeployment d), EvUpdate (ODeployment d')]"
    and service_create: "b \<in> set (BuildServices gs tpl) \<Longrightarrow>
      SetControllerReference L (GameServerKind, gsMeta gs) (svcMeta b) = Inr m \<Longrightarrow>
      R [EvCreate (OService (b\<lparr>svcMeta := m\<rparr>))]"
    and service_update: "b \<in> set (BuildServices gs tpl) \<Longrightarrow>
      R [EvRead (OService s), EvUpdate (OService (merge_service s (b\<lparr>svcMeta := m\<rparr>)))]"
    and status_final: "same_object g gs \<Longrightarrow>
      R [EvRead (ODeployment d), EvUpdateStatus (OGameServer (final_status now g tpl d svcs))]"
    and status_failed: "same_object g gs \<Longrightarrow> gsPhase (gsStatus g) = PhaseDegraded \<Longrightarrow>
      R [EvUpdateStatus (OGameServer g)]"
    and status_storage: "same_object g gs \<Longrightarrow>
      R [EvUpdateStatus (OGameServer
           (setCondition now g ConditionConfigValid ConditionFalse ''InvalidStorage'' msg))]"
begin

lemmas bind = produces_bind_closed [OF closed]

lemma nil: "R []"
  by (rule append_closed_Nil [OF closed])

lemma two: "R [a] \<Longrightarrow> R [b] \<Longrightarrow> R [a, b]"
  using append_closed_append [OF closed, of "[a]" "[b]"] by simp

lemma ret: "produces (return a) (\<lambda>_. R)"
  by (rule produces_return) (rule nil)

lemma cond:
  assumes "same_object g gs" and "\<And>now. produces (f (setCondition now g t st r m)) (\<lambda>_. R)"
  shows "produces (State_Monad.bind (set_condition_now C g t st r m) f) (\<lambda>_. R)"
  by (rule produces_bind, rule produces_set_condition_now) (use assms(2) in simp)

lemma failure:
  assumes "same_object g gs"
  shows "produces (report_failure C g t r m PhaseDegraded) (\<lambda>_. R)"
  unfolding report_failure_def updateStatus_def
  by (rule cond [OF assms], rule bind, rule produces_StatusUpdate)
    (use assms in \<open>auto intro!: status_failed ret simp del: PhaseDegraded_def\<close>)

lemma service_stage:
  assumes "set bs \<subseteq> set (BuildServices gs tpl)" and "same_object g gs"
  shows "produces (apply_services L C g bs acc) (\<lambda>_. R)"
  using assms
proof (induction bs arbitrary: acc)
  case Nil
  then show ?case by (simp add: ret)
next
  case (Cons b bs)
  have b: "b \<in> set (BuildServices gs tpl)" using Cons.prems by simp
  have "produces (applyService C (b\<lparr>svcMeta := m\<rparr>)) (\<lambda>_. R)"
    if "SetControllerReference L (GameServerKind, gsMeta gs) (svcMeta b) = Inr m" for m
    by (rule service_applier.apply_closed)
      (auto intro!: nil read two service_create [OF b that] service_update [OF b])
  with Cons show ?case
    by (auto intro!: produces_sum ret bind split del: if_split)
qed

lemma status_stage:
  assumes "same_object g gs"
  shows "produces (report_status C g tpl svcs) (\<lambda>_. R)"
  using report_status_produces [of C g tpl svcs]
  by (rule produces_mono) (auto intro: nil status_final [OF assms])

lemma workload_stage:
  assumes g: "same_object g gs"
  shows "produces (reconcile_workload L C g tpl) (\<lambda>_. R)"
proof -
  have "produces (applyDeployment C (BuildDeployment L gs tpl\<lparr>depMeta := m\<rparr>)) (\<lambda>_. R)"
    if "SetControllerReference L (GameServerKind, gsMeta gs) (depMeta (BuildDeployment L gs tpl)) = Inr m" for m
    by (rule deployment_applier.apply_closed)
      (auto intro!: nil read two deployment_create that deployment_update)
  then show ?thesis
    unfolding reconcile_workload_def Let_def same_object_builders [OF g] same_object_exposure [OF g]
    using g by (auto intro!: produces_sum produces_option ret bind service_stage status_stage split del: if_split)
qed

lemma pvc_stage:
  assumes g: "same_object g gs" and snap: "src snap"
  shows "produces (reconcile_pvc L C g tpl snap) (\<lambda>_. R)"
proof (cases "ParseQuantity L (storage_size gs tpl)")
  case (Inl e)
  then show ?thesis
    unfolding reconcile_pvc_def same_object_builders [OF g] updateStatus_def
    by (simp only: BuildPVC_eq Inl sum.case)
      (rule cond [OF g], rule bind, rule produces_StatusUpdate, rule status_storage [OF g], rule ret)
next
  case (Inr qty)
  have "produces (applyPVC C (pvc_of gs qty snap\<lparr>pvcMeta := m\<rparr>)) (\<lambda>_. R)"
    if "SetControllerReference L (GameServerKind, gsMeta gs) (pvcMeta (pvc_of gs qty snap)) = Inr m" for m
    by (rule pvc_applier.apply_closed) (auto intro!: nil read two pvc_create [OF snap Inr that] pvc_update)
  with Inr show ?thesis
    unfolding reconcile_pvc_def same_object_builders [OF g]
    using g by (auto simp: BuildPVC_eq intro!: produces_sum produces_option ret bind workload_stage split del: if_split)
qed

lemma restore_stage: "produces (resolveRestoreSource C g) (\<lambda>_. R)"
  unfolding resolveRestoreSource_def
  by (auto intro!: produces_option produces_sum produces_if produces_Get ret bind nil read)

lemma conditional_cond:
  assumes "same_object g gs" and "\<And>g'. same_object g' gs \<Longrightarrow> produces (f g') (\<lambda>_. R)"
  shows "produces (State_Monad.bind (if b then set_condition_now C g t st r m else return g) f) (\<lambda>_. R)"
  using assms by (cases b) (auto simp: return_def intro!: cond)

lemma storage_stage:
  assumes g: "same_object g gs" and "\<And>snap. src snap"
  shows "produces (reconcile_storage L C g tpl) (\<lambda>_. R)"
  unfolding reconcile_storage_def
  by (rule bind, rule restore_stage, rule produces_sum, rule failure [OF g], rule conditional_cond [OF g])
    (rule pvc_stage [OF _ assms(2)])

lemma account_stage:
  assumes "same_object g gs" and "tplSecurityProfile (tplSpec tpl) \<noteq> SecurityProfileAnyUID"
  shows "produces (ensureServiceAccount C g) (\<lambda>_. R)"
  by (rule service_account_applier.apply_closed)
    (auto simp: same_object_names [OF assms(1)] intro!: nil read two sa_create assms(2))

lemma resolved_stage:
  assumes g: "same_object g gs"
    and sto: "\<And>g'. same_object g' gs \<Longrightarrow> produces (reconcile_storage L C g' tpl) (\<lambda>_. R)"
  shows "produces (reconcile_resolved L C g tpl) (\<lambda>_. R)"
  unfolding reconcile_resolved_def
proof (rule produces_option, rule cond [OF g], rule bind)
  fix now
  let ?g = "setCondition now g ConditionConfigValid ConditionTrue ''Valid'' ''config satisfies template''"
  show "produces (if tplSecurityProfile (tplSpec tpl) \<noteq> SecurityProfileAnyUID
      then ensureServiceAccount C ?g else return None) (\<lambda>_. R)"
    by (rule produces_if) (use g in \<open>auto intro: account_stage ret\<close>)
  show "produces (case r of None \<Rightarrow> reconcile_storage L C ?g tpl | Some err \<Rightarrow> return (Result 0, Some err))
      (\<lambda>_. R)" for r
    by (rule produces_option) (use g in \<open>auto intro: sto ret\<close>)
qed (rule failure [OF g])

end

text \<open>The first two calls of a run, and what follows each answer.\<close>

lemma reconcile_rule:
  assumes "\<And>err. R (Result 0, if IsNotFound err then None else Some err) []"
    and "\<And>gs err. \<not> IsNotFound err \<Longrightarrow> R (Result 0, Some err) [EvRead (OGameServer gs)]"
    and "\<And>gs now. R (Result (30 * Second), None)
      [EvRead (OGameServer gs), EvUpdateStatus (OGameServer (set_phase PhasePending
         (setCondition now gs ConditionTemplateResolved ConditionFalse ''NotFound''
           (''GameTemplate '' @ Quote (gsTemplateRefName (gsSpec gs)) @ '' not found''))))]"
    and "\<And>gs tpl now. produces
      (reconcile_resolved L C (setCondition now gs ConditionTemplateResolved ConditionTrue ''Resolved''
         ''GameTemplate resolved'') tpl)
      (\<lambda>r es. R r (EvRead (OGameServer gs) # EvRead (OGameTemplate tpl) # es))"
  shows "produces (GameServer_Reconcile L C req) R"
proof -
  have ret: "produces (return a) R'" if "R' a []" for a :: 'x and R' by (rule produces_return) (rule that)
  have fail: "produces (report_failure C gs ConditionTemplateResolved ''NotFound''
      (''GameTemplate '' @ Quote (gsTemplateRefName (gsSpec gs)) @ '' not found'') PhasePending)
      (\<lambda>r es. R r (EvRead (OGameServer gs) # es))" for gs
    unfolding report_failure_def updateStatus_def
    by (rule produces_bind, rule produces_set_condition_now, rule produces_bind,
        rule produces_StatusUpdate, rule produces_return)
      (use assms(3) in \<open>simp only: append_Nil append_Nil2 append_Cons\<close>)
  have ok: "produces (State_Monad.bind (set_condition_now C gs ConditionTemplateResolved ConditionTrue
      ''Resolved'' ''GameTemplate resolved'') (\<lambda>gs. reconcile_resolved L C gs tpl))
      (\<lambda>r es. R r (EvRead (OGameServer gs) # EvRead (OGameTemplate tpl) # es))" for gs tpl
    by (rule produces_bind, rule produces_set_condition_now) (use assms(4) [of _ gs tpl] in simp)
  have gone: "R (Result 0, None) []" "\<not> IsNotFound err \<Longrightarrow> R (Result 0, Some err) []" for err
    using assms(1) [of "GoError NotFound []"] assms(1) [of err] by (simp_all add: IsNotFound_def)
  show ?thesis
    unfolding GameServer_Reconcile_def
    by (rule produces_bind, rule produces_Get)
      (use gone assms(2) ok fail in \<open>auto intro!: produces_if ret produces_bind produces_Get\<close>)
qed

end
