(* ===== verification/Fixtures.thy ===== *)
theory Fixtures
  imports BackupController ScheduleController TemplateController Webhooks GameServerFacts
begin

text \<open>
  Concrete inputs: a library whose parameters satisfy the documented contracts, a cluster that answers
  every read with the objects it holds and echoes every write, a template and a server of the kind of
  \<open>config/samples\<close>. The witnesses of the properties evaluate the model on them.
\<close>

section \<open>The library\<close>

definition demo_lib :: lib where
  "demo_lib = \<lparr>MapOrder = sorted_list_of_fset,
     ParseQuantity = (\<lambda>s. if s = '''' then Inl ''empty'' else Inr s),
     QuantityString = (\<lambda>q. q),
     SetControllerReference = (\<lambda>(kind, owner) m. Inr (m\<lparr>mOwnerReferences :=
       [\<lparr>orKind = kind, orName = mName owner, orUID = mUID owner, orController = True\<rparr>]\<rparr>)),
     LoadLocation = (\<lambda>tz. Inr tz), ParseCron = (\<lambda>s. Inr s),
     CronNext = (\<lambda>s loc t. t - t mod Hour + Hour),
     SortNewestFirst = sort_key (\<lambda>b. - mCreationTimestamp (bMeta b))\<rparr>"

lemma demo_lib_simps [simp]:
  "MapOrder demo_lib = sorted_list_of_fset"
  "ParseQuantity demo_lib s = (if s = '''' then Inl ''empty'' else Inr s)"
  "QuantityString demo_lib q = q"
  "SetControllerReference demo_lib (kind, owner) m = Inr (m\<lparr>mOwnerReferences :=
       [\<lparr>orKind = kind, orName = mName owner, orUID = mUID owner, orController = True\<rparr>]\<rparr>)"
  "LoadLocation demo_lib tz = Inr tz" "ParseCron demo_lib s = Inr s"
  "CronNext demo_lib s loc t = t - t mod Hour + Hour"
  "SortNewestFirst demo_lib = sort_key (\<lambda>b. - mCreationTimestamp (bMeta b))"
  by (simp_all add: demo_lib_def)

lemma demo_map_order [simp]: "map_order sorted_list_of_fset"
  by (simp add: map_order_def sorted_list_of_fset.rep_eq)

section \<open>The cluster\<close>

definition static_ops :: "'o option \<Rightarrow> 'o list \<Rightarrow> ('w, 'o) ops" where
  "static_ops x xs =
     \<lparr>opGet = (\<lambda>k w. ((case x of Some a \<Rightarrow> Inr a | None \<Rightarrow> Inl (GoError NotFound ''not found'')), w)),
      opList = (\<lambda>ns ls w. (Inr xs, w)),
      opCreate = (\<lambda>a w. (Inr a, w)), opUpdate = (\<lambda>a w. (Inr a, w)),
      opStatusUpdate = (\<lambda>a w. (Inr a, w)), opDelete = (\<lambda>a w. (None, w))\<rparr>"

text \<open>The state of the world is the wall clock, which moves by a second at each reading.\<close>

definition demo_client :: "game_server option \<Rightarrow> game_template option \<Rightarrow> backup option \<Rightarrow> backup list
    \<Rightarrow> backup_schedule option \<Rightarrow> volume_snapshot option \<Rightarrow> persistent_volume_claim option
    \<Rightarrow> deployment option \<Rightarrow> service option \<Rightarrow> int client" where
  "demo_client gs tpl b bs sched vs pvc dep svc =
     \<lparr>GameServers = static_ops gs (case gs of Some g \<Rightarrow> [g] | None \<Rightarrow> []),
      GameTemplates = static_ops tpl [], Backups = static_ops b bs,
      BackupSchedules = static_ops sched [], VolumeSnapshots = static_ops vs [],
      PVCs = static_ops pvc [], Deployments = static_ops dep [], Services = static_ops svc [],
      ServiceAccounts = static_ops None [], Clock = (\<lambda>t. (t, t + Second))\<rparr>"

definition at_time :: "gotime \<Rightarrow> int sys" where
  "at_time t = \<lparr>world = t, trace = []\<rparr>"

lemma run_return [simp]: "run_state (return v) s = (v, s)"
  by (simp add: return_def)

lemma run_static [simp]:
  "run_state (Get mk (static_ops None xs) k) s = (Inl (GoError NotFound ''not found''), s)"
  "run_state (Get mk (static_ops (Some x) xs) k) s = (Inr x, s\<lparr>trace := trace s @ [EvRead (mk x)]\<rparr>)"
  "run_state (List_objs mk (static_ops a xs) ns ls) s =
     (Inr xs, s\<lparr>trace := trace s @ map (EvRead \<circ> mk) xs\<rparr>)"
  "run_state (Create mk (static_ops a xs) x) s = (Inr x, s\<lparr>trace := trace s @ [EvCreate (mk x)]\<rparr>)"
  "run_state (Update mk (static_ops a xs) x) s = (Inr x, s\<lparr>trace := trace s @ [EvUpdate (mk x)]\<rparr>)"
  "run_state (StatusUpdate mk (static_ops a xs) x) s =
     (Inr x, s\<lparr>trace := trace s @ [EvUpdateStatus (mk x)]\<rparr>)"
  "run_state (Delete mk (static_ops a xs) x) s = (None, s\<lparr>trace := trace s @ [EvDelete (mk x)]\<rparr>)"
  by (simp_all add: return_def Get_def List_objs_def Create_def Update_def StatusUpdate_def Delete_def
      call_obj_def static_ops_def emit_def)

lemma run_clock [simp]:
  "run_state (Now (\<lambda>t. (t, t + d))) s = (world s, s\<lparr>world := world s + d\<rparr>)"
  by (simp add: Now_def emit_def)

lemma demo_client_simps [simp]:
  "GameServers (demo_client gs tpl b bs sched vs pvc dep svc) =
     static_ops gs (case gs of Some g \<Rightarrow> [g] | None \<Rightarrow> [])"
  "GameTemplates (demo_client gs tpl b bs sched vs pvc dep svc) = static_ops tpl []"
  "Backups (demo_client gs tpl b bs sched vs pvc dep svc) = static_ops b bs"
  "BackupSchedules (demo_client gs tpl b bs sched vs pvc dep svc) = static_ops sched []"
  "VolumeSnapshots (demo_client gs tpl b bs sched vs pvc dep svc) = static_ops vs []"
  "PVCs (demo_client gs tpl b bs sched vs pvc dep svc) = static_ops pvc []"
  "Deployments (demo_client gs tpl b bs sched vs pvc dep svc) = static_ops dep []"
  "Services (demo_client gs tpl b bs sched vs pvc dep svc) = static_ops svc []"
  "ServiceAccounts (demo_client gs tpl b bs sched vs pvc dep svc) = static_ops None []"
  "Clock (demo_client gs tpl b bs sched vs pvc dep svc) = (\<lambda>t. (t, t + Second))"
  by (simp_all add: demo_client_def)

lemma at_time_simps [simp]: "world (at_time t) = t" "trace (at_time t) = []"
  by (simp_all add: at_time_def)

section \<open>Objects\<close>

definition demo_meta :: "string \<Rightarrow> string \<Rightarrow> object_meta" where
  "demo_meta n ns = zero_meta\<lparr>mName := n, mNamespace := ns, mUID := n @ ''-uid'', mGeneration := 2\<rparr>"

definition demo_port :: template_port where
  "demo_port = \<lparr>tpName = ''game'', tpContainerPort = 2456, tpProtocol = ''UDP'',
     tpExposeAs = ExposureNodePort, tpPrimary = True\<rparr>"

definition demo_query_port :: template_port where
  "demo_query_port = \<lparr>tpName = ''query'', tpContainerPort = 2457, tpProtocol = '''',
     tpExposeAs = '''', tpPrimary = False\<rparr>"

definition demo_key :: config_key where
  "demo_key = \<lparr>ckName = ''maxPlayers'', ckEnvVar = ''MAX_PLAYERS'', ckDescription = '''',
     ckType = ConfigKeyTypeInt, ckEnum = [], ckDefault = ''10'', ckRequired = True\<rparr>"

definition demo_template :: game_template where
  "demo_template = \<lparr>tplMeta = demo_meta ''valheim'' '''',
     tplSpec = \<lparr>tplImage = ''valheim:1'', tplImagePullPolicy = '''',
       tplPorts = [demo_port, demo_query_port], tplEnv = [plain_env ''TZ'' ''UTC''],
       tplConfigKeys = [demo_key], tplCommand = [], tplArgs = [],
       tplStorage = \<lparr>tsDataPath = '''', tsSubPath = '''', tsDefaultSize = ''20Gi''\<rparr>,
       tplProbes = None, tplUpdateStrategy = UpdateRecreate,
       tplSecurityProfile = SecurityProfileRestricted\<rparr>,
     tplStatus = \<lparr>tplServersRegistered = 0, tplConditions = []\<rparr>\<rparr>"

definition query_template :: game_template where
  "query_template = demo_template\<lparr>tplSpec := (tplSpec demo_template)\<lparr>tplPorts := [demo_query_port]\<rparr>\<rparr>"

definition demo_spec :: game_server_spec where
  "demo_spec = \<lparr>gsTemplateRefName = ''valheim'', gsConfig = fmupd ''maxPlayers'' ''16'' fmempty,
     gsStorage = \<lparr>soClassName = '''', soSize = ''''\<rparr>, gsResources = '''', gsNodeSelector = fmempty,
     gsTolerations = [], gsExposeOverride = [], gsSuspend = False, gsEnvOverride = [],
     gsRestoreFrom = None\<rparr>"

definition demo_server :: game_server where
  "demo_server = \<lparr>gsMeta = demo_meta ''midgard'' ''games'', gsSpec = demo_spec,
     gsStatus = \<lparr>gsPhase = '''', gsAddress = '''', gsObservedGeneration = 0, gsTemplateGeneration = 0,
       gsReadyReplicas = 0, gsConditions = []\<rparr>\<rparr>"

definition demo_backup :: "string \<Rightarrow> gotime \<Rightarrow> bool \<Rightarrow> backup" where
  "demo_backup n t retain = \<lparr>bMeta = (demo_meta n ''games'')\<lparr>mCreationTimestamp := t\<rparr>,
     bSpec = \<lparr>bGameServerRefName = ''midgard'', bVolumeSnapshotClassName = '''', bRetainForever = retain\<rparr>,
     bStatus = zero_backup_status\<lparr>bPhase := BackupPhaseReady, bVolumeSnapshotName := n\<rparr>\<rparr>"

definition demo_schedule :: "int32 \<Rightarrow> gotime option \<Rightarrow> backup_schedule" where
  "demo_schedule keep lastRun = \<lparr>bsMeta = demo_meta ''nightly'' ''games'',
     bsSpec = \<lparr>bssGameServerRefName = ''midgard'', bssSchedule = ''0 * * * *'', bssTimeZone = '''',
       bssKeep = keep, bssSuspend = False, bssVolumeSnapshotClassName = ''''\<rparr>,
     bsStatus = \<lparr>bssLastScheduleTime = lastRun, bssLastSuccessfulTime = None, bssActiveBackups = [],
       bssObservedGeneration = 0, bssConditions = []\<rparr>\<rparr>"

lemmas demo_defs = demo_meta_def demo_port_def demo_query_port_def demo_key_def demo_template_def
  demo_spec_def demo_server_def demo_backup_def demo_schedule_def zero_meta_def zero_backup_status_def

end
