(* ===== verification/ComponentProperties.thy ===== *)
theory ComponentProperties
  imports Fixtures
begin

text \<open>
  Properties of the pure components: configuration, environment, Services, builders, names,
  conditions, and the webhooks that guard them. Each rests on the facts of its component's theory.
\<close>

section \<open>Configuration\<close>

text \<open>C35. \<open>ValidateConfig\<close> accepts a configuration exactly when every entry names a declared key with a
  value of its type and every required key has a value or a default, whatever order Go iterates over
  the map; and an error it returns is about an entry that is wrong or a required key that is missing.\<close>
theorem ValidateConfig_correct:
  assumes "map_order (MapOrder L)"
  shows "(ValidateConfig L gs tpl = None \<longleftrightarrow> config_ok gs tpl)
    \<and> (\<forall>e. ValidateConfig L gs tpl = Some e \<longrightarrow>
        (\<exists>k v. fmlookup (gsConfig (gsSpec gs)) k = Some v
           \<and> (case declared_key tpl k of None \<Rightarrow> True | Some key \<Rightarrow> \<not> value_ok key v))
        \<or> (\<exists>key \<in> set (tplConfigKeys (tplSpec tpl)). ckRequired key \<and> ckDefault key = ''''
             \<and> fmlookup (gsConfig (gsSpec gs)) (ckName key) = None))"
  using ValidateConfig_None [OF assms] ValidateConfig_Some by blast

theorem ValidateConfig_correct_witness:
  "ValidateConfig demo_lib demo_server demo_template = None \<longleftrightarrow> config_ok demo_server demo_template"
  using ValidateConfig_correct [of demo_lib demo_server demo_template] by simp

text \<open>C34. The container's environment holds one variable per name, in the order in which the names are
  first written (the template's \<open>env\<close>, the defaults of the config keys, the configuration in the order of
  its keys, the server's overrides), and each variable has the value of its last write: an override wins
  over the configuration, which wins over a default, which wins over the template's \<open>env\<close>.\<close>
theorem resolveEnv_precedence:
  assumes "map_order (MapOrder L)"
  shows "map evName (resolveEnv L gs tpl) = first_occurrences (map evName (env_writes gs tpl))
    \<and> distinct (map evName (resolveEnv L gs tpl))
    \<and> env_lookup n (resolveEnv L gs tpl) =
        (case last_write n (gsEnvOverride (gsSpec gs)) of Some e \<Rightarrow> Some e | None \<Rightarrow>
         (case last_write n (config_env gs tpl) of Some e \<Rightarrow> Some e | None \<Rightarrow>
          (case last_write n (default_env tpl) of Some e \<Rightarrow> Some e | None \<Rightarrow>
           last_write n (tplEnv (tplSpec tpl)))))"
  by (simp add: resolveEnv_names [OF assms] resolveEnv_lookup [OF assms] env_writes_def last_write_append
      split: option.splits)

theorem resolveEnv_precedence_witness:
  "distinct (map evName (resolveEnv demo_lib demo_server demo_template))"
  using resolveEnv_precedence [of demo_lib demo_server demo_template] by simp

text \<open>C33. Go's random map iteration order never reaches the cluster: two runs of the operator build the
  same Deployment, so a reconcile does not restart the pod by itself.\<close>
theorem BuildDeployment_deterministic:
  assumes "map_order (MapOrder L)" and "map_order (MapOrder L')"
  shows "BuildDeployment L gs tpl = BuildDeployment L' gs tpl"
proof -
  have "resolveEnv L gs tpl = resolveEnv L' gs tpl"
    by (simp only: resolveEnv_eq [OF assms(1)] resolveEnv_eq [OF assms(2)])
  then show ?thesis by (simp add: BuildDeployment_def game_container_def cong: option.case_cong)
qed

theorem BuildDeployment_deterministic_witness:
  "BuildDeployment demo_lib demo_server demo_template =
   BuildDeployment (demo_lib\<lparr>MapOrder := rev \<circ> sorted_list_of_fset\<rparr>) demo_server demo_template"
proof -
  have "map_order (rev \<circ> sorted_list_of_fset)"
    using demo_map_order by (simp add: map_order_def)
  then show ?thesis by (intro BuildDeployment_deterministic) simp_all
qed

section \<open>Services\<close>

text \<open>C36. \<open>BuildServices\<close> partitions the template's ports: one Service per effective exposure, of that type
  and in the order of first use, and every port is in exactly one of them, in the one of its exposure.\<close>
theorem BuildServices_partition:
  "map (\<lambda>s. ssType (svcSpec s)) (BuildServices gs tpl) =
     first_occurrences (map (\<lambda>p. fst (resolveExposure gs p)) (tplPorts (tplSpec tpl)))
   \<and> distinct (map (\<lambda>s. ssType (svcSpec s)) (BuildServices gs tpl))
   \<and> mset (concat (map (\<lambda>s. ssPorts (svcSpec s)) (BuildServices gs tpl))) =
       mset (map (build_port gs) (tplPorts (tplSpec tpl)))
   \<and> map (\<lambda>s. ssPorts (svcSpec s)) (BuildServices gs tpl) =
       map (\<lambda>s. map (build_port gs) (filter (\<lambda>p. fst (resolveExposure gs p) = ssType (svcSpec s))
              (tplPorts (tplSpec tpl)))) (BuildServices gs tpl)"
  unfolding services_types services_ports_mset
  by (simp add: BuildServices_eq services_spec_def)

text \<open>The Services of a game server select the pods of its Deployment and no pod of another server, and
  the Deployment selects its own pods.\<close>
theorem selectors_select_own_pods:
  "list_all (\<lambda>s. selector_matches (ssSelector (svcSpec s))
        (dsTemplateLabels (depSpec (BuildDeployment L other tpl'))) = (mName (gsMeta other) = mName (gsMeta gs)))
     (BuildServices gs tpl)
   \<and> selector_matches (dsSelector (depSpec (BuildDeployment L gs tpl)))
        (dsTemplateLabels (depSpec (BuildDeployment L gs tpl)))"
  by (simp add: BuildServices_eq services_spec_def list_all_iff builder_simps selector_matches_iff)

text \<open>An update of a Service keeps the NodePorts the cluster assigned: a port that asks for a NodePort
  gets it, one that does not keeps the one of the existing port of its name, nothing else of the desired
  ports changes, and applying the same ports again changes nothing.\<close>
theorem mergeServicePorts_stable:
  assumes "distinct (map spName desired)"
  shows "map (\<lambda>p. p\<lparr>spNodePort := 0\<rparr>) (mergeServicePorts existing desired) =
      map (\<lambda>p. p\<lparr>spNodePort := 0\<rparr>) desired
    \<and> map spNodePort (mergeServicePorts existing desired) =
      map (\<lambda>d. if spNodePort d \<noteq> 0 then spNodePort d
               else case find (\<lambda>e. spName e = spName d) (rev existing) of Some e \<Rightarrow> spNodePort e | None \<Rightarrow> 0)
        desired
    \<and> mergeServicePorts (mergeServicePorts existing desired) desired = mergeServicePorts existing desired"
  unfolding mergeServicePorts_idem [OF assms] by (auto simp: mergeServicePorts_map split: option.splits)
theorem mergeServicePorts_stable_witness:
  "map spNodePort (mergeServicePorts
     [(build_port demo_server demo_port)\<lparr>spNodePort := 30123\<rparr>] [build_port demo_server demo_port]) = [30123]"
proof -
  let ?d = "build_port demo_server demo_port"
  have "spNodePort ?d = 0" by (simp add: build_port_def resolveExposure_def demo_defs)
  then show ?thesis
    using mergeServicePorts_stable [of "[?d]" "[?d\<lparr>spNodePort := 30123\<rparr>]"] by simp
qed

text \<open>When the Services of a server are applied, its status carries an address as soon as one exists:
  the Service of the primary port is found; for ClusterIP the address is its host (its DNS name when it
  has no cluster IP) and the port; for NodePort the requested or the assigned port of a node; for
  LoadBalancer the ingress host and the port.\<close>
theorem PrimaryAddress_correct:
  assumes "tplPorts (tplSpec tpl) \<noteq> []" and "primaryPort gs tpl = (p, e, np)" and "tpContainerPort p \<noteq> 0"
    and "map (\<lambda>s. mName (svcMeta s)) svcs = map (\<lambda>s. mName (svcMeta s)) (BuildServices gs tpl)"
  shows "\<exists>svc \<in> set svcs. mName (svcMeta svc) = ServiceName gs e
    \<and> (e = ExposureClusterIP \<longrightarrow> PrimaryAddress gs tpl svcs =
      (if ssClusterIP (svcSpec svc) \<in> {'''', ''None''}
       then ServiceName gs e @ ''.'' @ mNamespace (gsMeta gs) @ ''.svc'' else ssClusterIP (svcSpec svc))
      @ '':'' @ Itoa (sint (tpContainerPort p)))
    \<and> (e = ExposureNodePort \<and> np \<noteq> 0 \<longrightarrow> PrimaryAddress gs tpl svcs = ''<node>:'' @ Itoa (sint np))
    \<and> (\<forall>ing rest. e = ExposureLoadBalancer \<and> svcIngress svc = ing # rest \<and> lbHostname ing \<noteq> '''' \<longrightarrow>
      PrimaryAddress gs tpl svcs = lbHostname ing @ '':'' @ Itoa (sint (tpContainerPort p)))"
proof -
  obtain p' where p': "p' \<in> set (tplPorts (tplSpec tpl))" "primaryPort gs tpl = (p', resolveExposure gs p')"
    using primaryPort_cases [OF assms(1)] by blast
  with assms(2) have p: "p \<in> set (tplPorts (tplSpec tpl))" "e = fst (resolveExposure gs p)"
    by (auto simp: prod_eq_iff)
  have "ServiceName gs e \<in> set (map (\<lambda>s. mName (svcMeta s)) svcs)"
    unfolding assms(4) using primary_service_found [OF p(1), of gs] by (force simp: p(2) image_iff)
  then have "find (\<lambda>s. mName (svcMeta s) = ServiceName gs e) svcs \<noteq> None"
    by (auto simp: find_None_iff)
  then obtain svc where svc: "find (\<lambda>s. mName (svcMeta s) = ServiceName gs e) svcs = Some svc" by blast
  from find_SomeD [OF svc] have "svc \<in> set svcs" "mName (svcMeta svc) = ServiceName gs e" by simp_all
  with svc assms(2,3) show ?thesis
    by (intro bexI [of _ svc] conjI impI allI) (auto simp: PrimaryAddress_def Let_def)
qed

theorem PrimaryAddress_correct_witness:
  "\<exists>svc \<in> set (BuildServices demo_server query_template). mName (svcMeta svc) = ''midgard-clusterip''
     \<and> PrimaryAddress demo_server query_template (BuildServices demo_server query_template) =
        ''midgard-clusterip.games.svc:'' @ Itoa 2457"
proof -
  have prim: "primaryPort demo_server query_template = (demo_query_port, ''ClusterIP'', 0)"
    by (simp add: primaryPort_def resolveExposure_def query_template_def demo_defs)
  have svcs: "BuildServices demo_server query_template =
      [build_service demo_server ''ClusterIP'' [build_port demo_server demo_query_port]]"
    by (simp add: BuildServices_eq services_spec_def first_occurrences_def resolveExposure_def
        query_template_def demo_defs)
  have name: "ServiceName demo_server ''ClusterIP'' = ''midgard-clusterip''"
    by (simp add: ServiceName_def demo_defs)
  have "tplPorts (tplSpec query_template) \<noteq> []" "tpContainerPort demo_query_port = 2457"
    "mNamespace (gsMeta demo_server) = ''games''" "sint (2457 :: int32) = 2457"
    by (simp_all add: query_template_def demo_defs)
  then show ?thesis
    using PrimaryAddress_correct [OF _ prim, of "BuildServices demo_server query_template"]
    by (simp add: svcs name build_service_def)
qed

end
