(* ===== verification/AdmissionProperties.thy ===== *)
theory AdmissionProperties
  imports Fixtures
begin

text \<open>
  Properties of admission and of the GameTemplate reconciler: the template webhook accepts exactly the
  well-formed templates and reports every duplicate where it is; the GameServer webhook decides what the
  reconciler's gate decides; what a well-formed template guarantees of the objects built from it; the
  registration count of a template.
\<close>

declare ConfigKeyTypeEnum_def [simp del]

section \<open>The first use of a value\<close>

definition first_index :: "'a \<Rightarrow> 'a list \<Rightarrow> nat option" where
  "first_index x xs = find (\<lambda>i. xs ! i = x) [0..<length xs]"

lemma first_index_Nil [simp]: "first_index x [] = None"
  by (simp add: first_index_def)

lemma first_index_snoc:
  "first_index x (xs @ [y]) =
     (case first_index x xs of Some i \<Rightarrow> Some i | None \<Rightarrow> if y = x then Some (length xs) else None)"
proof -
  have "find (\<lambda>i. (xs @ [y]) ! i = x) [0..<length xs] = find (\<lambda>i. xs ! i = x) [0..<length xs]"
    by (intro find_cong refl) (simp add: nth_append)
  then show ?thesis
    by (simp add: first_index_def find_append nth_append split: option.splits)
qed

text \<open>The error of the value at index \<open>i\<close>: a duplicate of the first index with that value.\<close>

definition duplicate_at :: "string \<Rightarrow> string \<Rightarrow> ('a \<Rightarrow> string) \<Rightarrow> 'a list \<Rightarrow> nat \<Rightarrow> field_error list" where
  "duplicate_at base field show_value xs i =
     (case first_index (xs ! i) (take i xs) of
        None \<Rightarrow> []
      | Some j \<Rightarrow> [Duplicate (path_child (path_index base i) field)
          (show_value (xs ! i) @ '' also used at index '' @ Itoa (int j))])"

lemma check_seen_first:
  assumes "\<And>y. fmlookup seen y = first_index y prev"
  shows "fst (check_seen path sh (length prev) x seen) =
      (case first_index x prev of None \<Rightarrow> []
       | Some j \<Rightarrow> [Duplicate path (sh x @ '' also used at index '' @ Itoa (int j))])"
    and "fmlookup (snd (check_seen path sh (length prev) x seen)) y = first_index y (prev @ [x])"
  using assms by (auto simp: check_seen_def first_index_snoc split: option.splits)

lemma port_errors_located:
  assumes "\<And>y. fmlookup sn y = first_index y (map tpName prev)"
    and "\<And>y. fmlookup sc y = first_index y (map tpContainerPort prev)"
  shows "port_errors (length prev) sn sc ps =
    concat (map (\<lambda>i. duplicate_at portsPath ''name'' Quote (map tpName (prev @ ps)) i
        @ duplicate_at portsPath ''containerPort'' (\<lambda>n. Itoa (sint n)) (map tpContainerPort (prev @ ps)) i)
      [length prev..<length prev + length ps])"
  using assms
proof (induction ps arbitrary: "prev" sn sc)
  case Nil
  then show ?case by simp
next
  case (Cons p ps)
  let ?pp = "path_index portsPath (length prev)"
  let ?r1 = "check_seen (path_child ?pp ''name'') Quote (length prev) (tpName p) sn"
  let ?r2 = "check_seen (path_child ?pp ''containerPort'') (\<lambda>n. Itoa (sint n)) (length prev) (tpContainerPort p) sc"
  have "port_errors (length (prev @ [p])) (snd ?r1) (snd ?r2) ps =
    concat (map (\<lambda>i. duplicate_at portsPath ''name'' Quote (map tpName ((prev @ [p]) @ ps)) i
        @ duplicate_at portsPath ''containerPort'' (\<lambda>n. Itoa (sint n)) (map tpContainerPort ((prev @ [p]) @ ps)) i)
      [length (prev @ [p])..<length (prev @ [p]) + length ps])"
    using check_seen_first(2) [of sn "map tpName prev"] check_seen_first(2) [of sc "map tpContainerPort prev"]
      Cons.prems by (intro Cons.IH) simp_all
  moreover have "fst ?r1 = duplicate_at portsPath ''name'' Quote (map tpName (prev @ p # ps)) (length prev)"
    and "fst ?r2 = duplicate_at portsPath ''containerPort'' (\<lambda>n. Itoa (sint n))
        (map tpContainerPort (prev @ p # ps)) (length prev)"
    using check_seen_first(1) [of sn "map tpName prev"] check_seen_first(1) [of sc "map tpContainerPort prev"]
      Cons.prems by (simp_all add: duplicate_at_def nth_append take_map cong: option.case_cong)
  ultimately show ?case by (simp add: Let_def split_def upt_conv_Cons del: upt_Suc)
qed

lemma key_errors_located:
  assumes "\<And>y. fmlookup sn y = first_index y (map ckName prev)"
    and "\<And>y. fmlookup se y = first_index y (map ckEnvVar prev)"
  shows "key_errors (length prev) sn se ks =
    concat (map (\<lambda>i. duplicate_at keysPath ''name'' Quote (map ckName (prev @ ks)) i
        @ duplicate_at keysPath ''envVar'' Quote (map ckEnvVar (prev @ ks)) i
        @ enum_errors (path_index keysPath i) ((prev @ ks) ! i))
      [length prev..<length prev + length ks])"
  using assms
proof (induction ks arbitrary: "prev" sn se)
  case Nil
  then show ?case by simp
next
  case (Cons k ks)
  let ?kp = "path_index keysPath (length prev)"
  let ?r1 = "check_seen (path_child ?kp ''name'') Quote (length prev) (ckName k) sn"
  let ?r2 = "check_seen (path_child ?kp ''envVar'') Quote (length prev) (ckEnvVar k) se"
  have "key_errors (length (prev @ [k])) (snd ?r1) (snd ?r2) ks =
    concat (map (\<lambda>i. duplicate_at keysPath ''name'' Quote (map ckName ((prev @ [k]) @ ks)) i
        @ duplicate_at keysPath ''envVar'' Quote (map ckEnvVar ((prev @ [k]) @ ks)) i
        @ enum_errors (path_index keysPath i) (((prev @ [k]) @ ks) ! i))
      [length (prev @ [k])..<length (prev @ [k]) + length ks])"
    using check_seen_first(2) [of sn "map ckName prev"] check_seen_first(2) [of se "map ckEnvVar prev"]
      Cons.prems by (intro Cons.IH) simp_all
  moreover have "fst ?r1 = duplicate_at keysPath ''name'' Quote (map ckName (prev @ k # ks)) (length prev)"
    and "fst ?r2 = duplicate_at keysPath ''envVar'' Quote (map ckEnvVar (prev @ k # ks)) (length prev)"
    using check_seen_first(1) [of sn "map ckName prev"] check_seen_first(1) [of se "map ckEnvVar prev"]
      Cons.prems by (simp_all add: duplicate_at_def nth_append take_map cong: option.case_cong)
  ultimately show ?case by (simp add: Let_def split_def upt_conv_Cons del: upt_Suc)
qed

section \<open>The webhooks\<close>

lemma template_admission: "(GameTemplate_ValidateCreate tpl = None) = template_ok tpl"
  by (simp add: GameTemplate_ValidateCreate_def validateTemplate_def Let_def template_errors_Nil)

text \<open>C32. The template webhook admits a create or an update exactly when the new template is well formed
  (no two ports share a name or a number, no two config keys share a name or a variable, at most one primary
  port, enum lists where and only where the type is enum and holding the default), whatever the old object;
  and it never blocks a deletion.\<close>
theorem template_admission_exact:
  "(GameTemplate_ValidateCreate tpl = None) = template_ok tpl
   \<and> (GameTemplate_ValidateUpdate old tpl = None) = template_ok tpl
   \<and> GameTemplate_ValidateDelete old = None"
  by (simp add: GameTemplate_ValidateCreate_def GameTemplate_ValidateUpdate_def GameTemplate_ValidateDelete_def
      validateTemplate_def Let_def template_errors_Nil)

text \<open>C31. The webhook reports every mistake of a template at its place: a rejection lists, port by port and key
  by key, one duplicate error for each value used before, naming the index of its first use, the enum mistakes
  of each key, and between the two the primary ports.\<close>
theorem template_errors_complete:
  "validateTemplate tpl =
     (let ports = tplPorts (tplSpec tpl); keys = tplConfigKeys (tplSpec tpl);
          errs = concat (map (\<lambda>i. duplicate_at portsPath ''name'' Quote (map tpName ports) i
              @ duplicate_at portsPath ''containerPort'' (\<lambda>n. Itoa (sint n)) (map tpContainerPort ports) i)
            [0..<length ports])
          @ (if length (filter tpPrimary ports) \<le> 1 then []
             else [Forbidden portsPath ''at most one port may be marked primary''])
          @ concat (map (\<lambda>i. duplicate_at keysPath ''name'' Quote (map ckName keys) i
              @ duplicate_at keysPath ''envVar'' Quote (map ckEnvVar keys) i
              @ enum_errors (path_index keysPath i) (keys ! i))
            [0..<length keys])
      in if errs = [] then None else Some (NewInvalid ''GameTemplate'' (mName (tplMeta tpl)) errs))"
proof -
  have primary: "primary_errors ps = (if length (filter tpPrimary ps) \<le> 1 then []
      else [Forbidden portsPath ''at most one port may be marked primary''])" for ps
    using primary_errors_Nil [of ps] by (auto simp: primary_errors_def Let_def)
  show ?thesis
    unfolding validateTemplate_def template_errors_def primary
    using port_errors_located [of fmempty "[]" fmempty] key_errors_located [of fmempty "[]" fmempty]
    by (simp add: Let_def)
qed

text \<open>C25. The GameServer webhook decides what the reconciler's gate decides: a create or update is admitted
  exactly when it names a template that does not exist yet or one that the configuration satisfies, whatever
  the order of map iteration; so once it is admitted against an existing template no run of the operator
  rejects the configuration against it. The webhook only reads.\<close>
theorem webhook_agrees_with_gate:
  assumes "map_order (MapOrder L)" and "map_order (MapOrder L')"
    and "opGet (GameTemplates C) ('''', gsTemplateRefName (gsSpec gs)) (world s) = (answer, w)"
  shows "(snd (result (GameServer_ValidateCreate L C gs) s) = None \<longleftrightarrow>
      gsTemplateRefName (gsSpec gs) \<noteq> ''''
      \<and> (case answer of Inl err \<Rightarrow> IsNotFound err | Inr tpl \<Rightarrow> ValidateConfig L' gs tpl = None))
    \<and> result (GameServer_ValidateUpdate L C old gs) s = result (GameServer_ValidateCreate L C gs) s
    \<and> list_all (\<lambda>ev. \<exists>tpl. ev = EvRead (OGameTemplate tpl)) (events (GameServer_ValidateCreate L C gs) s)"
proof -
  have gate: "ValidateConfig L' gs tpl = None \<longleftrightarrow> ValidateConfig L gs tpl = None" for tpl
    using ValidateConfig_None [OF assms(1)] ValidateConfig_None [OF assms(2)] by simp
  show ?thesis
    using assms(3) unfolding gate
    by (auto simp: GameServer_ValidateCreate_def GameServer_ValidateUpdate_def GameServer_validate_def result_def
        events_def Get_def emit_def return_def Let_def split: sum.splits option.splits)
qed

theorem webhook_agrees_with_gate_witness:
  "snd (result (GameServer_ValidateCreate demo_lib
      (demo_client None (Some demo_template) None [] None None None None None) demo_server) (at_time 0)) = None
    \<longleftrightarrow> ValidateConfig demo_lib demo_server demo_template = None"
proof -
  have "map_order (MapOrder demo_lib)" by simp
  from webhook_agrees_with_gate [OF this this,
      of "demo_client None (Some demo_template) None [] None None None None None" demo_server "at_time 0"
        "Inr demo_template" 0]
  show ?thesis by (simp add: static_ops_def) (simp add: demo_defs)
qed

section \<open>What a well-formed template guarantees\<close>

text \<open>C37. The objects built from an admitted template satisfy the API server's uniqueness rules: the port names
  and the port numbers of every Service and of the container are distinct.\<close>
theorem admitted_templates_build_valid_ports:
  assumes "GameTemplate_ValidateCreate tpl = None"
  shows "list_all (\<lambda>s. distinct (map spName (ssPorts (svcSpec s))) \<and> distinct (map spPort (ssPorts (svcSpec s))))
      (BuildServices gs tpl)
    \<and> list_all (\<lambda>c. distinct (map cpName (ctPorts c)) \<and> distinct (map cpContainerPort (ctPorts c)))
        (psContainers (dsTemplateSpec (depSpec (BuildDeployment L gs tpl))))"
proof -
  have ok: "distinct (map tpName (tplPorts (tplSpec tpl)))" "distinct (map tpContainerPort (tplPorts (tplSpec tpl)))"
    using assms by (simp_all add: template_admission template_ok_def)
  have "distinct (map spName (ssPorts (svcSpec s))) \<and> distinct (map spPort (ssPorts (svcSpec s)))"
    if "s \<in> set (BuildServices gs tpl)" for s
    using that by (rule service_of_template) (simp add: comp_def ok distinct_map_filter_ports)
  then show ?thesis
    by (simp add: list_all_iff builder_simps container_ports_def comp_def ok)
qed

theorem admitted_templates_build_valid_ports_witness:
  "list_all (\<lambda>s. distinct (map spName (ssPorts (svcSpec s))) \<and> distinct (map spPort (ssPorts (svcSpec s))))
     (BuildServices demo_server demo_template)"
proof -
  have "GameTemplate_ValidateCreate demo_template = None"
    by (simp add: template_admission template_ok_def demo_template_def demo_port_def demo_query_port_def demo_key_def
        enum_ok_def ConfigKeyTypeEnum_def)
  from admitted_templates_build_valid_ports [OF this] show ?thesis by blast
qed

text \<open>The writes of a config key's variable, when no two keys share a name or a variable.\<close>

lemma declared_key_distinct:
  assumes "distinct (map ckName (tplConfigKeys (tplSpec tpl)))" and "key \<in> set (tplConfigKeys (tplSpec tpl))"
  shows "declared_key tpl (ckName key) = Some key"
proof -
  have "declared_key tpl (ckName key) \<noteq> None"
    using assms(2) by (auto simp: declared_key_def find_None_iff)
  then obtain key' where "declared_key tpl (ckName key) = Some key'" by blast
  moreover from declared_key_Some [OF this] assms have "key' = key" by (meson distinct_map inj_onD)
  ultimately show ?thesis by simp
qed

lemma config_env_write:
  assumes ok: "template_ok tpl" and key: "key \<in> set (tplConfigKeys (tplSpec tpl))"
  shows "last_write (ckEnvVar key) (config_env gs tpl) =
    map_option (plain_env (ckEnvVar key)) (fmlookup (gsConfig (gsSpec gs)) (ckName key))"
proof -
  have names: "distinct (map ckName (tplConfigKeys (tplSpec tpl)))"
    and vars: "distinct (map ckEnvVar (tplConfigKeys (tplSpec tpl)))"
    using ok by (simp_all add: template_ok_def)
  have mem: "e \<in> set (config_env gs tpl) \<longleftrightarrow> (\<exists>k key' v. declared_key tpl k = Some key'
      \<and> fmlookup (gsConfig (gsSpec gs)) k = Some v \<and> e = plain_env (ckEnvVar key') v)" for e
    by (auto simp: config_env_def set_map_filter fmlookup_dom_iff split: option.splits) blast
  have own: "e = plain_env (ckEnvVar key) v \<and> fmlookup (gsConfig (gsSpec gs)) (ckName key) = Some v"
    if "declared_key tpl k = Some key'" "fmlookup (gsConfig (gsSpec gs)) k = Some v"
      "e = plain_env (ckEnvVar key') v" "evName e = ckEnvVar key" for e k key' v
  proof -
    from that have "ckEnvVar key' = ckEnvVar key" by (simp add: plain_env_def)
    with declared_key_Some [OF that(1)] key vars have "key' = key" by (meson distinct_map inj_onD)
    with that declared_key_Some [OF that(1)] show ?thesis by simp
  qed
  show ?thesis
  proof (cases "fmlookup (gsConfig (gsSpec gs)) (ckName key)")
    case None
    then have "last_write (ckEnvVar key) (config_env gs tpl) = None"
      unfolding last_write_None image_iff using mem own by (metis option.distinct(1))
    with None show ?thesis by simp
  next
    case (Some v)
    have "find (\<lambda>e. evName e = ckEnvVar key) (rev (config_env gs tpl)) = Some (plain_env (ckEnvVar key) v)"
    proof (rule find_unique)
      show "plain_env (ckEnvVar key) v \<in> set (rev (config_env gs tpl))"
        unfolding set_rev mem using declared_key_distinct [OF names key] Some by blast
      show "evName (plain_env (ckEnvVar key) v) = ckEnvVar key" by (simp add: plain_env_def)
      fix e assume "e \<in> set (rev (config_env gs tpl))" and "evName e = ckEnvVar key"
      then obtain k key' v' where "declared_key tpl k = Some key'" "fmlookup (gsConfig (gsSpec gs)) k = Some v'"
          "e = plain_env (ckEnvVar key') v'"
        unfolding set_rev mem by blast
      from own [OF this \<open>evName e = ckEnvVar key\<close>] Some show "e = plain_env (ckEnvVar key) v" by simp
    qed
    with Some show ?thesis by (simp add: last_write_def)
  qed
qed

lemma default_env_write:
  assumes ok: "template_ok tpl" and key: "key \<in> set (tplConfigKeys (tplSpec tpl))"
  shows "last_write (ckEnvVar key) (default_env tpl) =
    (if ckDefault key = '''' then None else Some (plain_env (ckEnvVar key) (ckDefault key)))"
proof -
  have same: "key' = key" if "key' \<in> set (tplConfigKeys (tplSpec tpl))" "ckEnvVar key' = ckEnvVar key" for key'
    using ok key that by (metis distinct_map inj_onD template_ok_def)
  show ?thesis
  proof (cases "ckDefault key = ''''")
    case True
    then show ?thesis
      by (auto simp: last_write_None default_env_def plain_env_def dest: same)
  next
    case False
    have "find (\<lambda>e. evName e = ckEnvVar key) (rev (default_env tpl)) = Some (plain_env (ckEnvVar key) (ckDefault key))"
      by (rule find_unique) (use key False in \<open>auto simp: default_env_def plain_env_def dest: same\<close>)
    with False show ?thesis by (simp add: last_write_def)
  qed
qed

text \<open>C28. Configuration reaches the game: with a template the webhook admits, the variable of a config key has in
  the game container, unless an override names it, the value of the server's configuration, or the key's
  default when the server does not set the key, or what the template's own \<open>env\<close> says when there is neither.\<close>
theorem configuration_reaches_container:
  assumes "map_order (MapOrder L)" and "GameTemplate_ValidateCreate tpl = None"
    and "key \<in> set (tplConfigKeys (tplSpec tpl))"
    and "ckEnvVar key \<notin> evName ` set (gsEnvOverride (gsSpec gs))"
  shows "map (\<lambda>c. env_lookup (ckEnvVar key) (ctEnv c))
      (psContainers (dsTemplateSpec (depSpec (BuildDeployment L gs tpl)))) =
    [case fmlookup (gsConfig (gsSpec gs)) (ckName key) of
       Some v \<Rightarrow> Some (plain_env (ckEnvVar key) v)
     | None \<Rightarrow> if ckDefault key \<noteq> '''' then Some (plain_env (ckEnvVar key) (ckDefault key))
               else last_write (ckEnvVar key) (tplEnv (tplSpec tpl))]"
proof -
  have "template_ok tpl" using assms(2) by (simp add: template_admission)
  note writes = config_env_write [OF this assms(3)] default_env_write [OF this assms(3)]
  have "last_write (ckEnvVar key) (gsEnvOverride (gsSpec gs)) = None"
    using assms(4) by (simp add: last_write_None)
  with writes show ?thesis
    by (simp add: builder_simps resolveEnv_lookup [OF assms(1)] env_writes_def last_write_append split: option.splits)
qed

theorem configuration_reaches_container_witness:
  "map (\<lambda>c. env_lookup ''MAX_PLAYERS'' (ctEnv c))
     (psContainers (dsTemplateSpec (depSpec (BuildDeployment demo_lib demo_server demo_template)))) =
   [Some (plain_env ''MAX_PLAYERS'' ''16'')]"
proof -
  have "map_order (MapOrder demo_lib)" "GameTemplate_ValidateCreate demo_template = None"
    "demo_key \<in> set (tplConfigKeys (tplSpec demo_template))"
    "ckEnvVar demo_key \<notin> evName ` set (gsEnvOverride (gsSpec demo_server))"
    by (simp_all add: template_admission template_ok_def demo_template_def demo_port_def demo_query_port_def
        demo_key_def enum_ok_def demo_server_def demo_spec_def ConfigKeyTypeEnum_def)
  from configuration_reaches_container [OF this] show ?thesis
    by (simp add: demo_key_def demo_server_def demo_spec_def)
qed

text \<open>Applying a Service again changes nothing: with a template the webhook admits, an update of a Service
  keeps its cluster IP and everything else the cluster owns, asks for the desired type, selector and ports,
  and a second update with the same desired Service is the identity, so reconciles do not fight over NodePorts.\<close>
theorem service_updates_converge:
  assumes "GameTemplate_ValidateCreate tpl = None" and "desired \<in> set (BuildServices gs tpl)"
  shows "merge_service (merge_service existing desired) desired = merge_service existing desired
    \<and> ssClusterIP (svcSpec (merge_service existing desired)) = ssClusterIP (svcSpec existing)
    \<and> ssRest (svcSpec (merge_service existing desired)) = ssRest (svcSpec existing)
    \<and> svcIngress (merge_service existing desired) = svcIngress existing
    \<and> ssType (svcSpec (merge_service existing desired)) = ssType (svcSpec desired)
    \<and> selector_matches (ssSelector (svcSpec (merge_service existing desired)))
        (dsTemplateLabels (depSpec (BuildDeployment L gs tpl)))"
proof -
  have "distinct (map tpName (tplPorts (tplSpec tpl)))"
    using assms(1) by (simp add: template_admission template_ok_def)
  then have "distinct (map spName (ssPorts (svcSpec desired)))"
    using assms(2) by (auto elim!: service_of_template simp: comp_def distinct_map_filter_ports)
  then have "mergeServicePorts (mergeServicePorts (ssPorts (svcSpec existing)) (ssPorts (svcSpec desired)))
      (ssPorts (svcSpec desired)) = mergeServicePorts (ssPorts (svcSpec existing)) (ssPorts (svcSpec desired))"
    by (rule mergeServicePorts_idem)
  moreover have "ssSelector (svcSpec desired) = selectorLabels gs"
    using assms(2) by (auto simp: BuildServices_eq services_spec_def)
  ultimately show ?thesis
    by (simp add: merge_service_def builder_simps selector_matches_iff)
qed

theorem service_updates_converge_witness:
  "merge_service (merge_service (build_service demo_server ''NodePort'' [(build_port demo_server demo_query_port)\<lparr>spNodePort := 30123\<rparr>])
        (build_service demo_server ''ClusterIP'' [build_port demo_server demo_query_port]))
      (build_service demo_server ''ClusterIP'' [build_port demo_server demo_query_port]) =
   merge_service (build_service demo_server ''NodePort'' [(build_port demo_server demo_query_port)\<lparr>spNodePort := 30123\<rparr>])
     (build_service demo_server ''ClusterIP'' [build_port demo_server demo_query_port])"
proof -
  have "GameTemplate_ValidateCreate query_template = None"
    by (simp add: template_admission template_ok_def query_template_def demo_template_def demo_query_port_def
        demo_key_def enum_ok_def ConfigKeyTypeEnum_def)
  moreover have "build_service demo_server ''ClusterIP'' [build_port demo_server demo_query_port]
      \<in> set (BuildServices demo_server query_template)"
    by (simp add: BuildServices_eq services_spec_def first_occurrences_def resolveExposure_def
        query_template_def demo_defs)
  ultimately show ?thesis using service_updates_converge by blast
qed

section \<open>The GameTemplate reconciler\<close>

lemma template_quiet:
  assumes "opGet (GameTemplates C) req (world s) = (Inr tpl, w)"
    and "opList (GameServers C) None fmempty w = (Inr items, w')"
    and "tplServersRegistered (tplStatus tpl) = count_servers tpl items" and "hasAvailableCondition tpl"
  shows "events (GameTemplate_Reconcile C req) s = EvRead (OGameTemplate tpl) # map (EvRead \<circ> OGameServer) items
    \<and> result (GameTemplate_Reconcile C req) s = (Result 0, None)"
  using assms
  by (simp add: GameTemplate_Reconcile_def events_def result_def Get_def List_objs_def emit_def return_def)

text \<open>C30. The reconciler of a template counts the servers that name it, from one list of all servers, and reports
  the count with the condition Available; it writes exactly when the status differs, and the status it writes
  is one that it leaves alone on the next run over the same servers, at any later time.\<close>
theorem template_status_converges:
  assumes "opGet (GameTemplates C) req (world s) = (Inr tpl, w)"
    and "opList (GameServers C) None fmempty w = (Inr items, w')"
  shows "(let n = of_nat (length (filter (\<lambda>gs. gsTemplateRefName (gsSpec gs) = mName (tplMeta tpl)) items));
          reading = \<lambda>t. EvRead (OGameTemplate t) # map (EvRead \<circ> OGameServer) items
      in if tplServersRegistered (tplStatus tpl) = n \<and> hasAvailableCondition tpl
         then events (GameTemplate_Reconcile C req) s = reading tpl
         else \<exists>now. events (GameTemplate_Reconcile C req) s =
                 reading tpl @ [EvUpdateStatus (OGameTemplate (registered now n tpl))]
            \<and> (\<forall>C' s' v v'. opGet (GameTemplates C') req (world s') = (Inr (registered now n tpl), v)
                 \<and> opList (GameServers C') None fmempty v = (Inr items, v') \<longrightarrow>
               events (GameTemplate_Reconcile C' req) s' = reading (registered now n tpl)
               \<and> result (GameTemplate_Reconcile C' req) s' = (Result 0, None)))"
proof -
  obtain now v where clock: "Clock C w' = (now, v)" by (cases "Clock C w'")
  obtain a u where upd: "opStatusUpdate (GameTemplates C) (registered now (count_servers tpl items) tpl) v = (a, u)"
    by (cases "opStatusUpdate (GameTemplates C) (registered now (count_servers tpl items) tpl) v")
  have count: "count_servers (registered now n tpl) items = count_servers tpl items" for n
    by (simp add: count_servers_def)
  show ?thesis
  proof (cases "tplServersRegistered (tplStatus tpl) = count_servers tpl items \<and> hasAvailableCondition tpl")
    case True
    with template_quiet [OF assms] show ?thesis by (simp flip: count_servers_eq)
  next
    case False
    have "events (GameTemplate_Reconcile C req) s = EvRead (OGameTemplate tpl) # map (EvRead \<circ> OGameServer) items
        @ [EvUpdateStatus (OGameTemplate (registered now (count_servers tpl items) tpl))]"
      using assms False clock upd
      by (cases a) (simp_all add: GameTemplate_Reconcile_def events_def Get_def List_objs_def Now_def StatusUpdate_def
          call_obj_def emit_def return_def Let_def)
    with False show ?thesis
      by (auto simp: count template_quiet Let_def simp flip: count_servers_eq)
  qed
qed

theorem template_status_converges_witness:
  "\<exists>now. events (GameTemplate_Reconcile (demo_client (Some demo_server) (Some demo_template) None [] None None None
      None None) ('''', ''valheim'')) (at_time 7) =
    [EvRead (OGameTemplate demo_template), EvRead (OGameServer demo_server),
     EvUpdateStatus (OGameTemplate (registered now 1 demo_template))]"
proof -
  let ?C = "demo_client (Some demo_server) (Some demo_template) None [] None None None None None"
  have "opGet (GameTemplates ?C) ('''', ''valheim'') (world (at_time 7)) = (Inr demo_template, 7)"
    "opList (GameServers ?C) None fmempty 7 = (Inr [demo_server], 7)"
    by (simp_all add: static_ops_def)
  from template_status_converges [OF this] show ?thesis
    by (auto simp: Let_def demo_server_def demo_spec_def demo_template_def demo_meta_def zero_meta_def
        split: if_splits)
qed

end
