(* ===== verification/Cluster.thy ===== *)
theory Cluster
  imports Kube
begin

text \<open>
  What the operator relies on of the API server, as a contract: a cluster is, for each kind, a finite map
  from keys to objects; \<open>view\<close> reads it off the world of a client. The locale \<open>api_kind\<close> states the
  documented behaviour of the calls on one kind when no call fails and nobody else writes meanwhile, and
  \<open>api_server\<close> puts the kinds together. The server may fill what the operator leaves open: \<open>stored old x y\<close>
  says which objects \<open>y\<close> it may keep when \<open>x\<close> is sent over \<open>old\<close>. The logic \<open>ensures\<close> carries a
  statement about the cluster through a program; its rules for the calls are lemmas of the locale.
\<close>

section \<open>Programs over a cluster\<close>

definition ensures :: "('w \<Rightarrow> 'v) \<Rightarrow> 'v \<Rightarrow> ('w, 'a) io \<Rightarrow> ('a \<Rightarrow> 'v \<Rightarrow> bool) \<Rightarrow> bool" where
  "ensures view c m Q \<longleftrightarrow>
     (\<forall>s. view (world s) = c \<longrightarrow> Q (result m s) (view (world (snd (run_state m s)))))"

lemma ensuresI:
  "(\<And>s. view (world s) = c \<Longrightarrow> Q (fst (run_state m s)) (view (world (snd (run_state m s))))) \<Longrightarrow> ensures view c m Q"
  by (simp add: ensures_def result_def)

lemma ensures_resultD:
  "ensures view (view (world s)) m Q \<Longrightarrow> Q (result m s) (view (world (snd (run_state m s))))"
  by (simp add: ensures_def)

text \<open>The cluster after a program.\<close>

definition cluster_after :: "('w \<Rightarrow> 'v) \<Rightarrow> ('w, 'a) io \<Rightarrow> 'w sys \<Rightarrow> 'v" where
  "cluster_after view m s = view (world (snd (run_state m s)))"

lemma ensures_after: "ensures view (view (world s)) m Q \<Longrightarrow> Q (result m s) (cluster_after view m s)"
  unfolding cluster_after_def by (rule ensures_resultD)

lemma ensures_mono: "ensures view c m Q \<Longrightarrow> (\<And>a c'. Q a c' \<Longrightarrow> Q' a c') \<Longrightarrow> ensures view c m Q'"
  by (simp add: ensures_def)

lemma ensures_return [ensures_intro]: "Q a c \<Longrightarrow> ensures view c (return a) Q"
  by (rule ensuresI) (simp add: return_def)

lemma ensures_sum [ensures_intro]:
  "(\<And>e. r = Inl e \<Longrightarrow> ensures view c (f e) Q) \<Longrightarrow> (\<And>x. r = Inr x \<Longrightarrow> ensures view c (g x) Q) \<Longrightarrow>
   ensures view c (case r of Inl e \<Rightarrow> f e | Inr x \<Rightarrow> g x) Q"
  by (cases r) auto

lemma ensures_option [ensures_intro]:
  "(r = None \<Longrightarrow> ensures view c f Q) \<Longrightarrow> (\<And>x. r = Some x \<Longrightarrow> ensures view c (g x) Q) \<Longrightarrow>
   ensures view c (case r of None \<Rightarrow> f | Some x \<Rightarrow> g x) Q"
  by (cases r) auto

lemma ensures_if [ensures_intro]:
  "(b \<Longrightarrow> ensures view c f Q) \<Longrightarrow> (\<not> b \<Longrightarrow> ensures view c g Q) \<Longrightarrow> ensures view c (if b then f else g) Q"
  by simp

lemma ensures_Let [ensures_intro]: "ensures view c (f x) Q \<Longrightarrow> ensures view c (let y = x in f y) Q"
  by simp

lemma ensures_bind [ensures_intro]:
  fixes view :: "'w \<Rightarrow> 'v" and m :: "('w, 'a) io"
  assumes "ensures view c m (\<lambda>a c'. ensures view c' (f a) Q)"
  shows "ensures view c (State_Monad.bind m f) Q"
proof (rule ensuresI)
  fix s :: "'w sys" assume "view (world s) = c"
  moreover obtain a s' where "run_state m s = (a, s')" by (cases "run_state m s")
  ultimately have "ensures view (view (world s')) (f a) Q"
    using assms by (auto simp: ensures_def [of _ _ m] result_def)
  then show "Q (fst (run_state (State_Monad.bind m f) s))
      (view (world (snd (run_state (State_Monad.bind m f) s))))"
    using \<open>run_state m s = (a, s')\<close> by (simp add: ensures_def result_def)
qed

section \<open>The calls on one kind\<close>

text \<open>An object is kept under its own key.\<close>

definition selects :: "string option \<Rightarrow> (string, string) fmap \<Rightarrow> object_meta \<Rightarrow> bool" where
  "selects ns labels m \<longleftrightarrow> (ns = None \<or> ns = Some (mNamespace m))
     \<and> fmpred (\<lambda>k v. fmlookup (mLabels m) k = Some v) labels"

locale api_kind =
  fixes ops :: "('w, 'o) ops"
    and view :: "'w \<Rightarrow> 'v"
    and sel :: "'v \<Rightarrow> (key, 'o) fmap"
    and upd :: "((key, 'o) fmap \<Rightarrow> (key, 'o) fmap) \<Rightarrow> 'v \<Rightarrow> 'v"
    and meta :: "'o \<Rightarrow> object_meta"
    and stored :: "'o option \<Rightarrow> 'o \<Rightarrow> 'o \<Rightarrow> bool"
    and put_status :: "'o \<Rightarrow> 'o \<Rightarrow> 'o"
  assumes keyed: "fmlookup (sel (view w)) k = Some x \<Longrightarrow> object_key (meta x) = k"
    and get_found: "fmlookup (sel (view w)) k = Some x \<Longrightarrow>
      \<exists>w'. opGet ops k w = (Inr x, w') \<and> view w' = view w"
    and get_missing: "fmlookup (sel (view w)) k = None \<Longrightarrow>
      \<exists>e w'. opGet ops k w = (Inl e, w') \<and> IsNotFound e \<and> view w' = view w"
    and list_all_selected: "\<exists>xs w'. opList ops ns labels w = (Inr xs, w') \<and> view w' = view w \<and> distinct xs
      \<and> set xs = {x \<in> fmran' (sel (view w)). selects ns labels (meta x)}"
    and create_new: "fmlookup (sel (view w)) (object_key (meta x)) = None \<Longrightarrow>
      \<exists>y w'. opCreate ops x w = (Inr y, w') \<and> stored None x y \<and> object_key (meta y) = object_key (meta x)
        \<and> view w' = upd (fmupd (object_key (meta x)) y) (view w)"
    and create_existing: "fmlookup (sel (view w)) (object_key (meta x)) = Some z \<Longrightarrow>
      \<exists>e w'. opCreate ops x w = (Inl e, w') \<and> IsAlreadyExists e \<and> view w' = view w"
    and update_existing: "fmlookup (sel (view w)) (object_key (meta x)) = Some z \<Longrightarrow>
      \<exists>y w'. opUpdate ops x w = (Inr y, w') \<and> stored (Some z) x y \<and> object_key (meta y) = object_key (meta x)
        \<and> (x = z \<longrightarrow> y = z) \<and> view w' = upd (fmupd (object_key (meta x)) y) (view w)"
    and status_existing: "fmlookup (sel (view w)) (object_key (meta x)) = Some z \<Longrightarrow>
      \<exists>w'. opStatusUpdate ops x w = (Inr (put_status x z), w')
        \<and> view w' = upd (fmupd (object_key (meta x)) (put_status x z)) (view w)"
    and delete_existing: "fmlookup (sel (view w)) (object_key (meta x)) = Some z \<Longrightarrow>
      \<exists>w'. opDelete ops x w = (None, w') \<and> view w' = upd (fmdrop (object_key (meta x))) (view w)"
begin

lemma ensures_Get:
  assumes "\<And>x. fmlookup (sel c) k = Some x \<Longrightarrow> object_key (meta x) = k \<Longrightarrow> Q (Inr x) c"
    and "\<And>e. fmlookup (sel c) k = None \<Longrightarrow> IsNotFound e \<Longrightarrow> Q (Inl e) c"
  shows "ensures view c (Get mk ops k) Q"
proof (rule ensuresI)
  fix s :: "'w sys" assume c: "view (world s) = c"
  show "Q (fst (run_state (Get mk ops k) s)) (view (world (snd (run_state (Get mk ops k) s))))"
  proof (cases "fmlookup (sel c) k")
    case None
    with get_missing [of "world s" k] c assms(2) show ?thesis by (auto simp: Get_def emit_def)
  next
    case (Some x)
    with get_found [of "world s" k x] keyed [of "world s" k x] c assms(1) show ?thesis
      by (auto simp: Get_def emit_def)
  qed
qed

lemma ensures_List:
  assumes "\<And>xs. distinct xs \<Longrightarrow> set xs = {x \<in> fmran' (sel c). selects ns labels (meta x)} \<Longrightarrow> Q (Inr xs) c"
  shows "ensures view c (List_objs mk ops ns labels) Q"
proof (rule ensuresI)
  fix s :: "'w sys" assume "view (world s) = c"
  with list_all_selected [of ns labels "world s"] assms
  show "Q (fst (run_state (List_objs mk ops ns labels) s)) (view (world (snd (run_state (List_objs mk ops ns labels) s))))"
    by (auto simp: List_objs_def emit_def)
qed

lemma ensures_Create:
  assumes "fmlookup (sel c) (object_key (meta x)) = None"
    and "\<And>y. stored None x y \<Longrightarrow> object_key (meta y) = object_key (meta x) \<Longrightarrow>
      Q (Inr y) (upd (fmupd (object_key (meta x)) y) c)"
  shows "ensures view c (Create mk ops x) Q"
proof (rule ensuresI)
  fix s :: "'w sys" assume "view (world s) = c"
  with create_new [of "world s" x] assms
  show "Q (fst (run_state (Create mk ops x) s)) (view (world (snd (run_state (Create mk ops x) s))))"
    by (auto simp: Create_def call_obj_def emit_def)
qed

lemma ensures_Create_existing:
  assumes "fmlookup (sel c) (object_key (meta x)) = Some z"
    and "\<And>e. IsAlreadyExists e \<Longrightarrow> Q (Inl e) c"
  shows "ensures view c (Create mk ops x) Q"
proof (rule ensuresI)
  fix s :: "'w sys" assume "view (world s) = c"
  with create_existing [of "world s" x] assms
  show "Q (fst (run_state (Create mk ops x) s)) (view (world (snd (run_state (Create mk ops x) s))))"
    by (auto simp: Create_def call_obj_def emit_def)
qed

lemma ensures_Update:
  assumes "fmlookup (sel c) (object_key (meta x)) = Some z"
    and "\<And>y. stored (Some z) x y \<Longrightarrow> object_key (meta y) = object_key (meta x) \<Longrightarrow> (x = z \<Longrightarrow> y = z) \<Longrightarrow>
      Q (Inr y) (upd (fmupd (object_key (meta x)) y) c)"
  shows "ensures view c (Update mk ops x) Q"
proof (rule ensuresI)
  fix s :: "'w sys" assume "view (world s) = c"
  with update_existing [of "world s" x] assms
  show "Q (fst (run_state (Update mk ops x) s)) (view (world (snd (run_state (Update mk ops x) s))))"
    by (auto simp: Update_def call_obj_def emit_def)
qed

lemma ensures_StatusUpdate:
  assumes "fmlookup (sel c) (object_key (meta x)) = Some z"
    and "Q (Inr (put_status x z)) (upd (fmupd (object_key (meta x)) (put_status x z)) c)"
  shows "ensures view c (StatusUpdate mk ops x) Q"
proof (rule ensuresI)
  fix s :: "'w sys" assume "view (world s) = c"
  with status_existing [of "world s" x] assms
  show "Q (fst (run_state (StatusUpdate mk ops x) s)) (view (world (snd (run_state (StatusUpdate mk ops x) s))))"
    by (auto simp: StatusUpdate_def call_obj_def emit_def)
qed

lemma ensures_Delete:
  assumes "fmlookup (sel c) (object_key (meta x)) = Some z"
    and "Q None (upd (fmdrop (object_key (meta x))) c)"
  shows "ensures view c (Delete mk ops x) Q"
proof (rule ensuresI)
  fix s :: "'w sys" assume "view (world s) = c"
  with delete_existing [of "world s" x] assms
  show "Q (fst (run_state (Delete mk ops x) s)) (view (world (snd (run_state (Delete mk ops x) s))))"
    by (auto simp: Delete_def emit_def)
qed

end

section \<open>The cluster\<close>

record cluster =
  clGameServers :: "(key, game_server) fmap"
  clGameTemplates :: "(key, game_template) fmap"
  clBackups :: "(key, backup) fmap"
  clBackupSchedules :: "(key, backup_schedule) fmap"
  clVolumeSnapshots :: "(key, volume_snapshot) fmap"
  clPVCs :: "(key, persistent_volume_claim) fmap"
  clDeployments :: "(key, deployment) fmap"
  clServices :: "(key, service) fmap"
  clServiceAccounts :: "(key, service_account) fmap"

lemma cluster_put [cluster_put]:
  "clGameServers_update (fmupd k x1) c = c\<lparr>clGameServers := fmupd k x1 (clGameServers c)\<rparr>"
  "clGameTemplates_update (fmupd k x2) c = c\<lparr>clGameTemplates := fmupd k x2 (clGameTemplates c)\<rparr>"
  "clBackups_update (fmupd k x3) c = c\<lparr>clBackups := fmupd k x3 (clBackups c)\<rparr>"
  "clBackupSchedules_update (fmupd k x4) c = c\<lparr>clBackupSchedules := fmupd k x4 (clBackupSchedules c)\<rparr>"
  "clVolumeSnapshots_update (fmupd k x5) c = c\<lparr>clVolumeSnapshots := fmupd k x5 (clVolumeSnapshots c)\<rparr>"
  "clPVCs_update (fmupd k x6) c = c\<lparr>clPVCs := fmupd k x6 (clPVCs c)\<rparr>"
  "clDeployments_update (fmupd k x7) c = c\<lparr>clDeployments := fmupd k x7 (clDeployments c)\<rparr>"
  "clServices_update (fmupd k x8) c = c\<lparr>clServices := fmupd k x8 (clServices c)\<rparr>"
  "clServiceAccounts_update (fmupd k x9) c = c\<lparr>clServiceAccounts := fmupd k x9 (clServiceAccounts c)\<rparr>"
  "clBackups_update (fmdrop k) c = c\<lparr>clBackups := fmdrop k (clBackups c)\<rparr>"
  by (cases c; simp)+

text \<open>What the server keeps of the metadata, and of each kind, when it stores an object: what the operator
  sets stays; the server may fill a storage class, node ports, a cluster address, and everything of an
  object that the operator leaves empty.\<close>

definition meta_stored :: "object_meta \<Rightarrow> object_meta \<Rightarrow> bool" where
  "meta_stored m m' \<longleftrightarrow> object_key m' = object_key m \<and> mLabels m' = mLabels m
     \<and> mOwnerReferences m' = mOwnerReferences m"

definition pvc_stored :: "persistent_volume_claim option \<Rightarrow> persistent_volume_claim
    \<Rightarrow> persistent_volume_claim \<Rightarrow> bool" where
  "pvc_stored old x y \<longleftrightarrow> meta_stored (pvcMeta x) (pvcMeta y)
     \<and> pvcAccessModes (pvcSpec y) = pvcAccessModes (pvcSpec x) \<and> pvcRequests (pvcSpec y) = pvcRequests (pvcSpec x)
     \<and> pvcDataSourceRef (pvcSpec y) = pvcDataSourceRef (pvcSpec x)
     \<and> (pvcStorageClassName (pvcSpec x) \<noteq> None \<longrightarrow> pvcStorageClassName (pvcSpec y) = pvcStorageClassName (pvcSpec x))
     \<and> (old \<noteq> None \<longrightarrow> pvcSpec y = pvcSpec x)"

text \<open>The status of a Deployment is a subresource: an update keeps it, and a new one has no ready replica.\<close>

definition deployment_stored :: "deployment option \<Rightarrow> deployment \<Rightarrow> deployment \<Rightarrow> bool" where
  "deployment_stored old x y \<longleftrightarrow> meta_stored (depMeta x) (depMeta y) \<and> depSpec y = depSpec x
     \<and> depReadyReplicas y = (case old of None \<Rightarrow> 0 | Some z \<Rightarrow> depReadyReplicas z)"

definition port_stored :: "service_port \<Rightarrow> service_port \<Rightarrow> bool" where
  "port_stored p q \<longleftrightarrow> q\<lparr>spNodePort := 0\<rparr> = p\<lparr>spNodePort := 0\<rparr> \<and> (spNodePort p \<noteq> 0 \<longrightarrow> spNodePort q = spNodePort p)"

definition service_stored :: "service option \<Rightarrow> service \<Rightarrow> service \<Rightarrow> bool" where
  "service_stored old x y \<longleftrightarrow> meta_stored (svcMeta x) (svcMeta y)
     \<and> ssType (svcSpec y) = ssType (svcSpec x) \<and> ssSelector (svcSpec y) = ssSelector (svcSpec x)
     \<and> list_all2 port_stored (ssPorts (svcSpec x)) (ssPorts (svcSpec y))"

definition account_stored :: "service_account option \<Rightarrow> service_account \<Rightarrow> service_account \<Rightarrow> bool" where
  "account_stored old x y \<longleftrightarrow> meta_stored (saMeta x) (saMeta y)"

text \<open>A new snapshot has no status, and neither has a new Backup: the status is a subresource.\<close>

definition snapshot_stored :: "volume_snapshot option \<Rightarrow> volume_snapshot \<Rightarrow> volume_snapshot \<Rightarrow> bool" where
  "snapshot_stored old x y \<longleftrightarrow> meta_stored (vsMeta x) (vsMeta y) \<and> vssPVCName (vsSpec y) = vssPVCName (vsSpec x)
     \<and> (old = None \<longrightarrow> vsStatus y = None)"

definition backup_stored :: "backup option \<Rightarrow> backup \<Rightarrow> backup \<Rightarrow> bool" where
  "backup_stored old x y \<longleftrightarrow> meta_stored (bMeta x) (bMeta y) \<and> bSpec y = bSpec x
     \<and> (old = None \<longrightarrow> bStatus y = zero_backup_status)"

text \<open>The kinds the operator only reads and reports on: their updates are of no concern.\<close>

abbreviation any_stored :: "'o option \<Rightarrow> 'o \<Rightarrow> 'o \<Rightarrow> bool" where
  "any_stored old x y \<equiv> True"

abbreviation no_status :: "'o \<Rightarrow> 'o \<Rightarrow> 'o" where
  "no_status x z \<equiv> z"

locale api_server =
  servers: api_kind "GameServers C" view clGameServers clGameServers_update gsMeta any_stored
    "\<lambda>x z. z\<lparr>gsStatus := gsStatus x\<rparr>" +
  templates: api_kind "GameTemplates C" view clGameTemplates clGameTemplates_update tplMeta any_stored
    "\<lambda>x z. z\<lparr>tplStatus := tplStatus x\<rparr>" +
  backups: api_kind "Backups C" view clBackups clBackups_update bMeta backup_stored
    "\<lambda>x z. z\<lparr>bStatus := bStatus x\<rparr>" +
  schedules: api_kind "BackupSchedules C" view clBackupSchedules clBackupSchedules_update bsMeta any_stored
    "\<lambda>x z. z\<lparr>bsStatus := bsStatus x\<rparr>" +
  snapshots: api_kind "VolumeSnapshots C" view clVolumeSnapshots clVolumeSnapshots_update vsMeta snapshot_stored
    no_status +
  claims: api_kind "PVCs C" view clPVCs clPVCs_update pvcMeta pvc_stored no_status +
  deployments: api_kind "Deployments C" view clDeployments clDeployments_update depMeta deployment_stored
    no_status +
  services: api_kind "Services C" view clServices clServices_update svcMeta service_stored no_status +
  accounts: api_kind "ServiceAccounts C" view clServiceAccounts clServiceAccounts_update saMeta account_stored
    no_status
  for C :: "'w client" and view :: "'w \<Rightarrow> cluster" +
  assumes clock: "view (snd (Clock C w)) = view w"
begin

lemma ensures_Now:
  assumes "\<And>t. Q t c"
  shows "ensures view c (Now (Clock C)) Q"
proof (rule ensuresI)
  fix s :: "'w sys" assume "view (world s) = c"
  with clock [of "world s"] assms
  show "Q (fst (run_state (Now (Clock C)) s)) (view (world (snd (run_state (Now (Clock C)) s))))"
    by (auto simp: Now_def emit_def split: prod.splits)
qed

lemma ensures_Now_reading:
  assumes "\<And>w. Q (fst (Clock C w)) c"
  shows "ensures view c (Now (Clock C)) Q"
proof (rule ensuresI)
  fix s :: "'w sys" assume "view (world s) = c"
  with clock [of "world s"] assms [of "world s"]
  show "Q (fst (run_state (Now (Clock C)) s)) (view (world (snd (run_state (Now (Clock C)) s))))"
    by (auto simp: Now_def emit_def split: prod.splits)
qed

end

end
