(* ===== verification/Convergence.thy ===== *)
theory Convergence
  imports GameServerFacts Cluster
begin

text \<open>
  What a reconcile of a GameServer does to a cluster whose API server keeps the contract of theory
  \<open>Cluster\<close>: \<open>run_effect\<close> is the cluster after a run, in terms of the cluster before it, and the lemmas
  show that every stage of the code refines its part of it.
\<close>

declare ConditionTrue_def [simp del] ConditionFalse_def [simp del] ConditionReady_def [simp del]
  ConditionTemplateResolved_def [simp del] ConditionConfigValid_def [simp del]
  ConditionRestoreSourceResolved_def [simp del] PhasePending_def [simp del] PhaseProvisioning_def [simp del]
  PhaseReady_def [simp del] PhaseDegraded_def [simp del] PhaseStopped_def [simp del]
  SecurityProfileAnyUID_def [simp del] Second_def [simp del]

section \<open>What is applied\<close>

text \<open>\<open>ctrl.SetControllerReference\<close> on a new object of the owner's namespace, as it is documented.\<close>

definition owner_law :: "lib \<Rightarrow> bool" where
  "owner_law L \<longleftrightarrow> (\<forall>kind owner m. mOwnerReferences m = [] \<and> mNamespace m = mNamespace owner \<longrightarrow>
     (\<exists>m'. SetControllerReference L (kind, owner) m = Inr m' \<and> object_key m' = object_key m \<and> mLabels m' = mLabels m
        \<and> mOwnerReferences m' =
            [\<lparr>orKind = kind, orName = mName owner, orUID = mUID owner, orController = True\<rparr>]))"

text \<open>The metadata of a child with the GameServer as its controller.\<close>

definition owned :: "lib \<Rightarrow> game_server \<Rightarrow> object_meta \<Rightarrow> object_meta" where
  "owned L gs m = (case SetControllerReference L (GameServerKind, gsMeta gs) m of Inl _ \<Rightarrow> m | Inr m' \<Rightarrow> m')"

abbreviation own_pvc :: "lib \<Rightarrow> game_server \<Rightarrow> persistent_volume_claim \<Rightarrow> persistent_volume_claim" where
  "own_pvc L gs p \<equiv> p\<lparr>pvcMeta := owned L gs (pvcMeta p)\<rparr>"

abbreviation own_deployment :: "lib \<Rightarrow> game_server \<Rightarrow> deployment \<Rightarrow> deployment" where
  "own_deployment L gs d \<equiv> d\<lparr>depMeta := owned L gs (depMeta d)\<rparr>"

abbreviation own_service :: "lib \<Rightarrow> game_server \<Rightarrow> service \<Rightarrow> service" where
  "own_service L gs s \<equiv> s\<lparr>svcMeta := owned L gs (svcMeta s)\<rparr>"

definition controller_of :: "game_server \<Rightarrow> owner_reference list" where
  "controller_of gs = [\<lparr>orKind = GameServerKind, orName = mName (gsMeta gs), orUID = mUID (gsMeta gs), orController = True\<rparr>]"

lemma owned_law:
  assumes "owner_law L" and "mOwnerReferences m = []" and "mNamespace m = mNamespace (gsMeta gs)"
  shows "SetControllerReference L (GameServerKind, gsMeta gs) m = Inr (owned L gs m)"
    and "object_key (owned L gs m) = object_key m" and "mLabels (owned L gs m) = mLabels m"
    and "mOwnerReferences (owned L gs m) = controller_of gs"
proof -
  from assms obtain m' where "SetControllerReference L (GameServerKind, gsMeta gs) m = Inr m'"
    "object_key m' = object_key m" "mLabels m' = mLabels m" "mOwnerReferences m' = controller_of gs"
    unfolding owner_law_def controller_of_def by blast
  then show "SetControllerReference L (GameServerKind, gsMeta gs) m = Inr (owned L gs m)"
    and "object_key (owned L gs m) = object_key m" and "mLabels (owned L gs m) = mLabels m"
    and "mOwnerReferences (owned L gs m) = controller_of gs"
    by (simp_all add: owned_def del: GameServerKind_def)
qed

text \<open>A new child has the owner it was given, and one that existed keeps its own.\<close>

definition owners_applied :: "('o \<Rightarrow> object_meta) \<Rightarrow> 'o option \<Rightarrow> 'o \<Rightarrow> 'o \<Rightarrow> bool" where
  "owners_applied meta old d y \<longleftrightarrow> mOwnerReferences (meta y) =
     (case old of None \<Rightarrow> mOwnerReferences (meta d) | Some z \<Rightarrow> mOwnerReferences (meta z))"

definition pvc_applied :: "persistent_volume_claim option \<Rightarrow> persistent_volume_claim
    \<Rightarrow> persistent_volume_claim \<Rightarrow> bool" where
  "pvc_applied old d y \<longleftrightarrow> object_key (pvcMeta y) = object_key (pvcMeta d) \<and> mLabels (pvcMeta y) = mLabels (pvcMeta d)
     \<and> owners_applied pvcMeta old d y
     \<and> (case old of None \<Rightarrow> pvc_stored None d y
        | Some z \<Rightarrow> pvcSpec y = pvcSpec z \<and> (mLabels (pvcMeta z) = mLabels (pvcMeta d) \<longrightarrow> y = z))"

definition deployment_applied :: "deployment option \<Rightarrow> deployment \<Rightarrow> deployment \<Rightarrow> bool" where
  "deployment_applied old d y \<longleftrightarrow> object_key (depMeta y) = object_key (depMeta d)
     \<and> mLabels (depMeta y) = mLabels (depMeta d) \<and> depSpec y = depSpec d \<and> owners_applied depMeta old d y
     \<and> depReadyReplicas y = (case old of None \<Rightarrow> 0 | Some z \<Rightarrow> depReadyReplicas z)
     \<and> (\<forall>z. old = Some z \<and> mLabels (depMeta z) = mLabels (depMeta d) \<and> depSpec z = depSpec d \<longrightarrow> y = z)"

definition service_as_desired :: "service \<Rightarrow> service \<Rightarrow> bool" where
  "service_as_desired d y \<longleftrightarrow> object_key (svcMeta y) = object_key (svcMeta d)
     \<and> mLabels (svcMeta y) = mLabels (svcMeta d) \<and> ssType (svcSpec y) = ssType (svcSpec d)
     \<and> ssSelector (svcSpec y) = ssSelector (svcSpec d) \<and> list_all2 port_stored (ssPorts (svcSpec d)) (ssPorts (svcSpec y))"

definition service_applied :: "service option \<Rightarrow> service \<Rightarrow> service \<Rightarrow> bool" where
  "service_applied old d y \<longleftrightarrow> service_as_desired d y \<and> owners_applied svcMeta old d y
     \<and> (\<forall>z. old = Some z \<and> merge_service z d = z \<longrightarrow> y = z)"

lemma port_stored_name: "port_stored p q \<Longrightarrow> spName q = spName p"
  unfolding port_stored_def by (cases p, cases q) simp

lemma port_stored_trans: "port_stored p q \<Longrightarrow> port_stored q r \<Longrightarrow> port_stored p r"
  by (auto simp: port_stored_def)

lemma ports_stored_find:
  assumes "list_all2 port_stored ds es" and "distinct (map spName ds)" and "i < length ds"
  shows "find (\<lambda>q. spName q = spName (ds ! i)) (rev es) = Some (es ! i)"
proof (rule find_unique)
  have len: "length es = length ds" using assms(1) by (simp add: list_all2_lengthD)
  have at: "spName (es ! j) = spName (ds ! j)" if "j < length ds" for j
    using assms(1) that by (simp add: list_all2_conv_all_nth port_stored_name)
  show "es ! i \<in> set (rev es)" using assms(3) len by simp
  show "spName (es ! i) = spName (ds ! i)" by (rule at) (rule assms(3))
  fix q assume "q \<in> set (rev es)" and q: "spName q = spName (ds ! i)"
  then obtain j where j: "j < length ds" "q = es ! j" by (auto simp: in_set_conv_nth len)
  with q at have "map spName ds ! j = map spName ds ! i" using assms(3) by simp
  with nth_eq_iff_index_eq [OF assms(2), of j i] assms(3) j(1) have "j = i" by simp
  with j(2) show "q = es ! i" by simp
qed

lemma mergeServicePorts_fixed:
  assumes "list_all2 port_stored ds es" and "distinct (map spName ds)"
  shows "mergeServicePorts es ds = es"
proof -
  have same: "(if spNodePort p = 0 then p\<lparr>spNodePort := spNodePort q\<rparr> else p) = q" if "port_stored p q" for p q
    using that unfolding port_stored_def by (cases p, cases q) auto
  show ?thesis
    unfolding mergeServicePorts_map
    using assms(1) by (intro nth_equalityI) (simp_all add: list_all2_conv_all_nth ports_stored_find [OF assms] same)
qed

lemma mergeServicePorts_stored: "list_all2 port_stored ds (mergeServicePorts es ds)"
  unfolding mergeServicePorts_map by (auto simp: list_all2_conv_all_nth port_stored_def split: option.splits)

lemma merge_service_fixed:
  assumes "service_as_desired d y" and "distinct (map spName (ssPorts (svcSpec d)))"
  shows "merge_service y d = y"
  using assms mergeServicePorts_fixed by (cases y) (simp add: service_as_desired_def merge_service_def)

lemma merge_service_desired:
  assumes "service_stored (Some z) (merge_service z d) y" and "object_key (svcMeta z) = object_key (svcMeta d)"
  shows "service_as_desired d y"
proof -
  have "list_all2 port_stored (mergeServicePorts (ssPorts (svcSpec z)) (ssPorts (svcSpec d))) (ssPorts (svcSpec y))"
    using assms(1) by (simp add: service_stored_def merge_service_def)
  from list_all2_trans [OF port_stored_trans mergeServicePorts_stored this] assms show ?thesis
    by (simp add: service_stored_def service_as_desired_def meta_stored_def merge_service_def object_key_def)
qed

lemma new_service_desired: "service_stored None d y \<Longrightarrow> service_as_desired d y"
  by (simp add: service_stored_def service_as_desired_def meta_stored_def)

section \<open>The cluster after a run\<close>

definition put_services :: "service list \<Rightarrow> (key, service) fmap \<Rightarrow> (key, service) fmap" where
  "put_services ys m = foldl (\<lambda>m y. fmupd (object_key (svcMeta y)) y m) m ys"

text \<open>The snapshot the claim is restored from, if the claim is to be created.\<close>

definition restore_snapshot :: "cluster \<Rightarrow> game_server \<Rightarrow> string option" where
  "restore_snapshot c gs =
     (case gsRestoreFrom (gsSpec gs) of
        None \<Rightarrow> None
      | Some n \<Rightarrow>
          if fmlookup (clPVCs c) (mNamespace (gsMeta gs), PVCName gs) \<noteq> None then None
          else map_option (\<lambda>b. bVolumeSnapshotName (bStatus b)) (fmlookup (clBackups c) (mNamespace (gsMeta gs), n)))"

definition restore_ready :: "cluster \<Rightarrow> game_server \<Rightarrow> bool" where
  "restore_ready c gs \<longleftrightarrow>
     (case gsRestoreFrom (gsSpec gs) of
        None \<Rightarrow> True
      | Some n \<Rightarrow> fmlookup (clPVCs c) (mNamespace (gsMeta gs), PVCName gs) \<noteq> None
          \<or> (\<exists>b. fmlookup (clBackups c) (mNamespace (gsMeta gs), n) = Some b
               \<and> bPhase (bStatus b) = BackupPhaseReady \<and> bVolumeSnapshotName (bStatus b) \<noteq> ''''))"

text \<open>The GameServer a run reports, from the four times at which it sets a condition.\<close>

definition prepared :: "gotime \<Rightarrow> gotime \<Rightarrow> gotime \<Rightarrow> game_server \<Rightarrow> game_server" where
  "prepared t1 t2 t3 gs =
     (let g = setCondition t2 (setCondition t1 gs ConditionTemplateResolved ConditionTrue ''Resolved''
                ''GameTemplate resolved'') ConditionConfigValid ConditionTrue ''Valid'' ''config satisfies template''
      in if gsRestoreFrom (gsSpec gs) \<noteq> None
         then setCondition t3 g ConditionRestoreSourceResolved ConditionTrue ''SnapshotBound''
                ''restoreFrom Backup snapshot ready''
         else g)"

lemma prepared_same [simp]: "same_object (prepared t1 t2 t3 gs) gs"
  by (simp add: prepared_def Let_def)

text \<open>What a run needs to reach its end.\<close>

definition runnable :: "lib \<Rightarrow> cluster \<Rightarrow> game_server \<Rightarrow> game_template \<Rightarrow> bool" where
  "runnable L c gs tpl \<longleftrightarrow>
     fmlookup (clGameServers c) (object_key (gsMeta gs)) = Some gs
     \<and> fmlookup (clGameTemplates c) ('''', gsTemplateRefName (gsSpec gs)) = Some tpl
     \<and> ValidateConfig L gs tpl = None \<and> restore_ready c gs
     \<and> (\<exists>qty. ParseQuantity L (storage_size gs tpl) = Inr qty)
     \<and> distinct (map tpName (tplPorts (tplSpec tpl)))
     \<and> list_all (\<lambda>p. fst (resolveExposure gs p) \<in> exposure_types) (tplPorts (tplSpec tpl))"

definition accounts_after :: "cluster \<Rightarrow> game_server \<Rightarrow> game_template \<Rightarrow> (key, service_account) fmap \<Rightarrow> bool" where
  "accounts_after c gs tpl m \<longleftrightarrow>
     (if tplSecurityProfile (tplSpec tpl) = SecurityProfileAnyUID
         \<or> fmlookup (clServiceAccounts c) (mNamespace (gsMeta gs), DefaultServiceAccountName) \<noteq> None
      then m = clServiceAccounts c
      else \<exists>y. account_stored None (desired_service_account gs) y
         \<and> m = fmupd (mNamespace (gsMeta gs), DefaultServiceAccountName) y (clServiceAccounts c))"

definition run_effect :: "lib \<Rightarrow> cluster \<Rightarrow> game_server \<Rightarrow> game_template \<Rightarrow> outcome \<Rightarrow> cluster \<Rightarrow> bool" where
  "run_effect L c gs tpl r c' \<longleftrightarrow>
     (\<exists>m qty p d ys t1 t2 t3 t4 g.
        accounts_after c gs tpl m
        \<and> ParseQuantity L (storage_size gs tpl) = Inr qty
        \<and> pvc_applied (fmlookup (clPVCs c) (mNamespace (gsMeta gs), PVCName gs))
            (own_pvc L gs (pvc_of gs qty (restore_snapshot c gs))) p
        \<and> deployment_applied (fmlookup (clDeployments c) (mNamespace (gsMeta gs), DeploymentName gs))
            (own_deployment L gs (BuildDeployment L gs tpl)) d
        \<and> list_all2 (\<lambda>b y. service_applied (fmlookup (clServices c) (object_key (svcMeta b))) (own_service L gs b) y)
            (BuildServices gs tpl) ys
        \<and> g = final_status t4 (prepared t1 t2 t3 gs) tpl d ys
        \<and> c' = c\<lparr>clServiceAccounts := m,
                  clPVCs := fmupd (mNamespace (gsMeta gs), PVCName gs) p (clPVCs c),
                  clDeployments := fmupd (mNamespace (gsMeta gs), DeploymentName gs) d (clDeployments c),
                  clServices := put_services ys (clServices c),
                  clGameServers := fmupd (object_key (gsMeta gs)) (gs\<lparr>gsStatus := gsStatus g\<rparr>) (clGameServers c)\<rparr>
        \<and> r = (Result (if observed_phase gs d = PhaseReady then 0 else 10 * Second), None))"

section \<open>Every stage refines its part\<close>

lemma fmupd_same: "fmlookup m k = Some z \<Longrightarrow> fmupd k z m = m"
  by (rule fmap_ext) auto

lemma accounts_after_fresh:
  "tplSecurityProfile (tplSpec tpl) \<noteq> SecurityProfileAnyUID \<Longrightarrow>
   fmlookup (clServiceAccounts c) (mNamespace (gsMeta gs), DefaultServiceAccountName) = None \<Longrightarrow>
   account_stored None (desired_service_account gs) y \<Longrightarrow>
   accounts_after c gs tpl (fmupd (mNamespace (gsMeta gs), DefaultServiceAccountName) y (clServiceAccounts c))"
  by (auto simp: accounts_after_def)

lemma put_same:
  "fmlookup (clPVCs c) k = Some p \<Longrightarrow> c\<lparr>clPVCs := fmupd k p (clPVCs c)\<rparr> = c"
  "fmlookup (clDeployments c) k = Some d \<Longrightarrow> c\<lparr>clDeployments := fmupd k d (clDeployments c)\<rparr> = c"
  "fmlookup (clServices c) k = Some s \<Longrightarrow> c\<lparr>clServices := fmupd k s (clServices c)\<rparr> = c"
  by (cases c; simp add: fmupd_same)+

lemma object_key_labels: "object_key (m\<lparr>mLabels := ls\<rparr>) = object_key m"
  by (simp add: object_key_def)

lemma pvc_appliedI:
  "pvc_stored None d y \<Longrightarrow> pvc_applied None d y"
  "object_key (pvcMeta z) = object_key (pvcMeta d) \<Longrightarrow> mLabels (pvcMeta z) = mLabels (pvcMeta d) \<Longrightarrow>
     pvc_applied (Some z) d z"
  "pvc_stored (Some z) (z\<lparr>pvcMeta := (pvcMeta z)\<lparr>mLabels := mLabels (pvcMeta d)\<rparr>\<rparr>) y \<Longrightarrow>
     object_key (pvcMeta z) = object_key (pvcMeta d) \<Longrightarrow> mLabels (pvcMeta z) \<noteq> mLabels (pvcMeta d) \<Longrightarrow>
     pvc_applied (Some z) d y"
  by (simp_all add: pvc_applied_def pvc_stored_def meta_stored_def object_key_labels owners_applied_def)

lemma deployment_appliedI:
  "deployment_stored None d y \<Longrightarrow> deployment_applied None d y"
  "deployment_stored (Some z) (z\<lparr>depMeta := (depMeta z)\<lparr>mLabels := mLabels (depMeta d)\<rparr>, depSpec := depSpec d\<rparr>) y \<Longrightarrow>
     object_key (depMeta z) = object_key (depMeta d) \<Longrightarrow>
     (z\<lparr>depMeta := (depMeta z)\<lparr>mLabels := mLabels (depMeta d)\<rparr>, depSpec := depSpec d\<rparr> = z \<Longrightarrow> y = z) \<Longrightarrow>
     deployment_applied (Some z) d y"
proof -
  show "deployment_stored None d y \<Longrightarrow> deployment_applied None d y"
    by (simp add: deployment_applied_def deployment_stored_def meta_stored_def owners_applied_def)
  assume same: "z\<lparr>depMeta := (depMeta z)\<lparr>mLabels := mLabels (depMeta d)\<rparr>, depSpec := depSpec d\<rparr> = z \<Longrightarrow> y = z"
  have "y = z" if "mLabels (depMeta z) = mLabels (depMeta d)" "depSpec z = depSpec d"
    by (rule same) (simp flip: that)
  then show "deployment_stored (Some z) (z\<lparr>depMeta := (depMeta z)\<lparr>mLabels := mLabels (depMeta d)\<rparr>, depSpec := depSpec d\<rparr>) y \<Longrightarrow>
     object_key (depMeta z) = object_key (depMeta d) \<Longrightarrow> deployment_applied (Some z) d y"
    by (auto simp: deployment_applied_def deployment_stored_def meta_stored_def object_key_labels owners_applied_def)
qed

lemma service_appliedI:
  "service_stored None d y \<Longrightarrow> service_applied None d y"
  "service_stored (Some z) (merge_service z d) y \<Longrightarrow> object_key (svcMeta z) = object_key (svcMeta d) \<Longrightarrow>
     (merge_service z d = z \<Longrightarrow> y = z) \<Longrightarrow> service_applied (Some z) d y"
  by (simp_all add: service_applied_def new_service_desired merge_service_desired)
    (simp_all add: service_stored_def meta_stored_def merge_service_def owners_applied_def)

lemma put_services_simps [simp]:
  "put_services [] m = m"
  "put_services (y # ys) m = put_services ys (fmupd (object_key (svcMeta y)) y m)"
  by (simp_all add: put_services_def)

text \<open>The built objects have no owner yet, live in the server's namespace, and have distinct keys.\<close>

lemma built_metas:
  "mOwnerReferences (depMeta (BuildDeployment L gs tpl)) = []"
  "mNamespace (depMeta (BuildDeployment L gs tpl)) = mNamespace (gsMeta gs)"
  "object_key (depMeta (BuildDeployment L gs tpl)) = (mNamespace (gsMeta gs), DeploymentName gs)"
  "mOwnerReferences (pvcMeta (pvc_of gs qty snap)) = []"
  "mNamespace (pvcMeta (pvc_of gs qty snap)) = mNamespace (gsMeta gs)"
  "object_key (pvcMeta (pvc_of gs qty snap)) = (mNamespace (gsMeta gs), PVCName gs)"
  by (simp_all add: BuildDeployment_def Let_def pvc_of_def object_key_def)

lemma built_service_metas:
  "b \<in> set (BuildServices gs tpl) \<Longrightarrow> mOwnerReferences (svcMeta b) = [] \<and> mNamespace (svcMeta b) = mNamespace (gsMeta gs)"
  by (auto simp: BuildServices_eq services_spec_def build_service_def)

lemma service_keys_distinct:
  assumes "list_all (\<lambda>p. fst (resolveExposure gs p) \<in> exposure_types) (tplPorts (tplSpec tpl))"
  shows "distinct (map (\<lambda>b. object_key (svcMeta b)) (BuildServices gs tpl))"
  using assms
  by (auto simp: BuildServices_eq services_spec_def comp_def object_key_def distinct_map list_all_iff
      intro!: inj_onI dest: ServiceName_inject)

lemma restore_other_kinds [simp]:
  "restore_snapshot (c\<lparr>clServiceAccounts := m\<rparr>) gs = restore_snapshot c gs"
  "restore_ready (c\<lparr>clServiceAccounts := m\<rparr>) gs = restore_ready c gs"
  by (simp_all add: restore_snapshot_def restore_ready_def split: option.split)

context api_server
begin

lemma applyPVC_effect:
  assumes "\<And>y. pvc_applied (fmlookup (clPVCs c) (object_key (pvcMeta d))) d y \<Longrightarrow>
      Q None (c\<lparr>clPVCs := fmupd (object_key (pvcMeta d)) y (clPVCs c)\<rparr>)"
  shows "ensures view c (applyPVC C d) Q"
  unfolding applyPVC_def
proof (rule ensures_bind, rule claims.ensures_Get, goal_cases)
  case (1 z)
  have keep: "Q None c" if "mLabels (pvcMeta z) = mLabels (pvcMeta d)"
    using assms [of z] put_same(1) [OF 1(1)] that 1 by (simp add: pvc_appliedI(2))
  show ?case
    by (simp, intro conjI impI)
      (rule ensures_bind, rule claims.ensures_Update [where z = z], simp add: object_key_labels 1, rule ensures_return,
       simp add: cluster_put object_key_labels 1(2), rule assms, simp add: 1 pvc_appliedI(3),
       rule ensures_return, rule keep, assumption)
next
  case (2 e)
  then show ?case
    by simp (rule ensures_bind, rule claims.ensures_Create, assumption, rule ensures_return,
      simp add: cluster_put, rule assms, simp add: pvc_appliedI(1))
qed

lemma applyDeployment_effect:
  assumes "\<And>y. deployment_applied (fmlookup (clDeployments c) (object_key (depMeta d))) d y \<Longrightarrow>
      Q None (c\<lparr>clDeployments := fmupd (object_key (depMeta d)) y (clDeployments c)\<rparr>)"
  shows "ensures view c (applyDeployment C d) Q"
  unfolding applyDeployment_def
proof (rule ensures_bind, rule deployments.ensures_Get, goal_cases)
  case (1 z)
  then show ?case
    by simp (rule ensures_bind, rule deployments.ensures_Update [where z = z], simp add: object_key_labels,
      rule ensures_return, simp add: cluster_put object_key_labels, rule assms, simp add: deployment_appliedI(2))
next
  case (2 e)
  then show ?case
    by simp (rule ensures_bind, rule deployments.ensures_Create, assumption, rule ensures_return,
      simp add: cluster_put, rule assms, simp add: deployment_appliedI(1))
qed

lemma applyService_effect:
  assumes "\<And>y. service_applied (fmlookup (clServices c) (object_key (svcMeta d))) d y \<Longrightarrow>
      Q (Inr y) (c\<lparr>clServices := fmupd (object_key (svcMeta d)) y (clServices c)\<rparr>)"
  shows "ensures view c (applyService C d) Q"
  unfolding applyService_def
proof (rule ensures_bind, rule services.ensures_Get, goal_cases)
  case (1 z)
  have key: "object_key (svcMeta (merge_service z d)) = object_key (svcMeta d)"
    using 1 by (simp add: merge_service_def object_key_labels)
  with 1 show ?case
    by simp (rule services.ensures_Update [where z = z], simp, simp only: cluster_put key, rule assms,
      simp add: service_appliedI(2))
next
  case (2 e)
  show ?case
    unfolding sum.case if_P [OF 2(2)]
  proof (rule ensures_bind, rule services.ensures_Create [OF 2(1)])
    fix y assume y: "service_stored None d y" "object_key (svcMeta y) = object_key (svcMeta d)"
    let ?c = "clServices_update (fmupd (object_key (svcMeta d)) y) c"
    have "Q (Inr y) ?c" unfolding cluster_put by (rule assms) (simp add: 2 y service_appliedI(1))
    moreover have "fmlookup (clServices ?c) (object_key (svcMeta y)) = Some y" by (simp add: cluster_put y)
    ultimately show "ensures view ?c (case Inr y of Inl err \<Rightarrow> return (Inl err)
        | Inr created \<Rightarrow> Get OService (Services C) (object_key (svcMeta created))) Q"
      by simp (rule services.ensures_Get, auto)
  qed
qed

lemma ensureServiceAccount_effect:
  assumes "\<And>m. (if fmlookup (clServiceAccounts c) (mNamespace (gsMeta gs), DefaultServiceAccountName) \<noteq> None
        then m = clServiceAccounts c
        else \<exists>y. account_stored None (desired_service_account gs) y
          \<and> m = fmupd (mNamespace (gsMeta gs), DefaultServiceAccountName) y (clServiceAccounts c)) \<Longrightarrow>
      Q None (c\<lparr>clServiceAccounts := m\<rparr>)"
  shows "ensures view c (ensureServiceAccount C gs) Q"
proof -
  have key: "object_key (saMeta (desired_service_account gs)) = (mNamespace (gsMeta gs), DefaultServiceAccountName)"
    by (simp add: object_key_def builder_simps)
  show ?thesis
    unfolding ensureServiceAccount_def Let_def
  proof (rule ensures_bind, rule accounts.ensures_Get, goal_cases)
    case (1 z)
    with assms [of "clServiceAccounts c"] show ?case
      by (simp add: key del: DefaultServiceAccountName_def) (rule ensures_return, simp)
  next
    case (2 e)
    then show ?case
      by simp (rule ensures_bind, rule accounts.ensures_Create, assumption, rule ensures_return,
        simp add: cluster_put, rule assms, auto simp: key)
  qed
qed

lemma apply_services_effect:
  assumes law: "owner_law L" and "distinct (map (\<lambda>b. object_key (svcMeta b)) bs)"
    and "\<And>b. b \<in> set bs \<Longrightarrow> mOwnerReferences (svcMeta b) = [] \<and> mNamespace (svcMeta b) = mNamespace (gsMeta gs)"
    and "\<And>ys. list_all2 (\<lambda>b y. service_applied (fmlookup (clServices c) (object_key (svcMeta b))) (own_service L gs b) y)
        bs ys \<Longrightarrow> Q (Inr (acc @ ys)) (c\<lparr>clServices := put_services ys (clServices c)\<rparr>)"
  shows "ensures view c (apply_services L C gs bs acc) Q"
  using assms(2-)
proof (induction bs arbitrary: acc c)
  case Nil
  from Nil.prems(3) [of "[]"] show ?case by (simp add: ensures_return)
next
  case (Cons b bs)
  have "mOwnerReferences (svcMeta b) = []" "mNamespace (svcMeta b) = mNamespace (gsMeta gs)"
    using Cons.prems(2) [of b] by simp_all
  note own = owned_law [OF law this]
  show ?case
    unfolding apply_services.simps own(1) sum.case
  proof (rule ensures_bind, rule applyService_effect)
    fix y
    let ?c = "c\<lparr>clServices := fmupd (object_key (svcMeta (own_service L gs b))) y (clServices c)\<rparr>"
    assume "service_applied (fmlookup (clServices c) (object_key (svcMeta (own_service L gs b)))) (own_service L gs b) y"
    then have y: "service_applied (fmlookup (clServices c) (object_key (svcMeta b))) (own_service L gs b) y"
      and key: "object_key (svcMeta y) = object_key (svcMeta b)"
      using own(2) by (simp_all add: service_applied_def service_as_desired_def)
    have "ensures view ?c (apply_services L C gs bs (acc @ [y])) Q"
    proof (rule Cons.IH)
      show "distinct (map (\<lambda>b. object_key (svcMeta b)) bs)" using Cons.prems(1) by simp
      show "mOwnerReferences (svcMeta b') = [] \<and> mNamespace (svcMeta b') = mNamespace (gsMeta gs)" if "b' \<in> set bs" for b'
        using Cons.prems(2) [of b'] that by simp
      fix ys
      assume "list_all2 (\<lambda>b' y'. service_applied (fmlookup (clServices ?c) (object_key (svcMeta b'))) (own_service L gs b') y')
        bs ys"
      moreover have "fmlookup (clServices ?c) (object_key (svcMeta b')) = fmlookup (clServices c) (object_key (svcMeta b'))"
        if "b' \<in> set bs" for b'
        using Cons.prems(1) that own(2) by (auto simp: image_iff)
      ultimately have "list_all2 (\<lambda>b' y'. service_applied (fmlookup (clServices c) (object_key (svcMeta b')))
          (own_service L gs b') y') bs ys"
        by (auto elim!: list.rel_mono_strong)
      with y Cons.prems(3) [of "y # ys"] key own(2)
      show "Q (Inr ((acc @ [y]) @ ys)) (?c\<lparr>clServices := put_services ys (clServices ?c)\<rparr>)" by simp
    qed
    then show "ensures view ?c (case Inr y of Inl err \<Rightarrow> return (Inl err) | Inr a \<Rightarrow> apply_services L C gs bs (acc @ [a])) Q"
      by simp
  qed
qed

lemma set_condition_effect:
  assumes "\<And>now. Q (setCondition now gs t st r m) c"
  shows "ensures view c (set_condition_now C gs t st r m) Q"
  unfolding set_condition_now_def
  by (rule ensures_bind, rule ensures_Now, rule ensures_return) (rule assms)

lemma resolveRestoreSource_effect:
  assumes "same_object g gs" and "restore_ready c gs" and "Q (Inr (restore_snapshot c gs)) c"
  shows "ensures view c (resolveRestoreSource C g) Q"
proof (cases "gsRestoreFrom (gsSpec gs)")
  case None
  with assms show ?thesis by (simp add: resolveRestoreSource_def restore_snapshot_def ensures_return)
next
  case (Some n)
  show ?thesis
    unfolding resolveRestoreSource_def assms(1) [THEN conjunct2] Some option.case
      same_object_names [OF assms(1)] assms(1) [THEN conjunct1]
    using assms(2,3) Some
    by (auto simp: restore_ready_def restore_snapshot_def
      intro!: ensures_bind claims.ensures_Get backups.ensures_Get ensures_return)
qed

lemma final_status_branches:
  "gsSuspend (gsSpec g) \<Longrightarrow> setCondition now (set_phase PhaseStopped (status_of g tpl d svcs)) ConditionReady
      ConditionFalse ''Suspended'' ''spec.suspend=true'' = final_status now g tpl d svcs"
  "\<not> gsSuspend (gsSpec g) \<Longrightarrow> 1 \<le> sint (depReadyReplicas d) \<Longrightarrow>
    setCondition now (set_phase PhaseReady (status_of g tpl d svcs)) ConditionReady ConditionTrue
      ''PodReady'' ''pod is Ready'' = final_status now g tpl d svcs"
  "\<not> gsSuspend (gsSpec g) \<Longrightarrow> \<not> 1 \<le> sint (depReadyReplicas d) \<Longrightarrow>
    setCondition now (set_phase PhaseProvisioning (status_of g tpl d svcs)) ConditionReady ConditionFalse
      ''PodNotReady'' ''waiting for pod to become Ready'' = final_status now g tpl d svcs"
  by (simp_all add: final_status_def observed_phase_def)

lemma report_status_effect:
  assumes g: "same_object g gs" and gs: "fmlookup (clGameServers c) (object_key (gsMeta gs)) = Some gs"
    and d: "fmlookup (clDeployments c) (mNamespace (gsMeta gs), DeploymentName gs) = Some d"
    and Q: "\<And>now. Q (Result (if observed_phase gs d = PhaseReady then 0 else 10 * Second), None)
      (c\<lparr>clGameServers := fmupd (object_key (gsMeta gs))
          (gs\<lparr>gsStatus := gsStatus (final_status now g tpl d svcs)\<rparr>) (clGameServers c)\<rparr>)"
  shows "ensures view c (report_status C g tpl svcs) Q"
proof -
  let ?finish = "\<lambda>g'. do { ru \<leftarrow> updateStatus C g';
         case ru of
           Inl err \<Rightarrow> return (Result 0, Some err)
         | Inr gs \<Rightarrow> if gsPhase (gsStatus gs) \<noteq> PhaseReady then return (Result (10 * Second), None)
             else return (Result 0, None) }"
  have phase: "observed_phase g d = observed_phase gs d" using g by (simp add: observed_phase_def)
  have fin: "ensures view c (?finish (final_status now g tpl d svcs)) Q" for now
    unfolding updateStatus_def
  proof (rule ensures_bind, rule servers.ensures_StatusUpdate [where z = gs], goal_cases)
    case 1
    show ?case using gs g by simp
  next
    case 2
    have "gsPhase (gsStatus (gs\<lparr>gsStatus := gsStatus (final_status now g tpl d svcs)\<rparr>)) = observed_phase gs d"
      by (simp add: phase)
    with Q [of now] g show ?case
      by (auto simp: cluster_put intro!: ensures_return)
  qed
  show ?thesis
    unfolding report_status_def g [THEN conjunct1] same_object_names [OF g]
  proof (rule ensures_bind, rule deployments.ensures_Get, goal_cases)
    case (1 x)
    with d have "x = d" by simp
    then show ?case
      by (simp only: sum.case Let_def, intro ensures_bind [where m = "if _ then _ else _"] ensures_if set_condition_effect)
        (simp_all add: final_status_branches fin del: not_le)
  next
    case (2 e)
    with d show ?case by simp
  qed
qed

lemma workload_effect:
  assumes law: "owner_law L" and g: "same_object g gs"
    and gs: "fmlookup (clGameServers c) (object_key (gsMeta gs)) = Some gs"
    and enum: "list_all (\<lambda>p. fst (resolveExposure gs p) \<in> exposure_types) (tplPorts (tplSpec tpl))"
    and Q: "\<And>d ys now. deployment_applied (fmlookup (clDeployments c) (mNamespace (gsMeta gs), DeploymentName gs))
          (own_deployment L gs (BuildDeployment L gs tpl)) d \<Longrightarrow>
        list_all2 (\<lambda>b y. service_applied (fmlookup (clServices c) (object_key (svcMeta b))) (own_service L gs b) y)
            (BuildServices gs tpl) ys \<Longrightarrow>
        Q (Result (if observed_phase gs d = PhaseReady then 0 else 10 * Second), None)
          (c\<lparr>clDeployments := fmupd (mNamespace (gsMeta gs), DeploymentName gs) d (clDeployments c),
             clServices := put_services ys (clServices c),
             clGameServers := fmupd (object_key (gsMeta gs))
               (gs\<lparr>gsStatus := gsStatus (final_status now g tpl d ys)\<rparr>) (clGameServers c)\<rparr>)"
  shows "ensures view c (reconcile_workload L C g tpl) Q"
proof -
  note own = owned_law [OF law built_metas(1,2) [of L gs tpl]]
  have meta: "gsMeta g = gsMeta gs" using g by simp
  let ?k = "(mNamespace (gsMeta gs), DeploymentName gs)"
  have key: "object_key (depMeta (own_deployment L gs (BuildDeployment L gs tpl))) = ?k"
    using own(2) built_metas(3) by simp
  show ?thesis
    unfolding reconcile_workload_def Let_def same_object_builders [OF g] same_object_exposure [OF g] meta own(1) sum.case
  proof (rule ensures_bind, rule applyDeployment_effect, unfold key option.case, rule ensures_bind)
    fix d
    assume d: "deployment_applied (fmlookup (clDeployments c) ?k) (own_deployment L gs (BuildDeployment L gs tpl)) d"
    let ?c = "c\<lparr>clDeployments := fmupd ?k d (clDeployments c)\<rparr>"
    have acc: "apply_services L C g = apply_services L C gs"
    proof (intro ext)
      fix bs acc show "apply_services L C g bs acc = apply_services L C gs bs acc"
        by (induction bs arbitrary: acc) (simp_all add: meta cong: sum.case_cong del: GameServerKind_def)
    qed
    show "ensures view ?c (apply_services L C g (BuildServices gs tpl) [])
        (\<lambda>a c'. ensures view c' (case a of Inl err \<Rightarrow> return (Result 0, Some err)
          | Inr appliedSvcs \<Rightarrow> report_status C g tpl appliedSvcs) Q)"
      unfolding acc
    proof (rule apply_services_effect [OF law service_keys_distinct [OF enum] built_service_metas])
      fix ys
      assume ys: "list_all2 (\<lambda>b y. service_applied (fmlookup (clServices ?c) (object_key (svcMeta b))) (own_service L gs b) y)
          (BuildServices gs tpl) ys"
      show "ensures view (?c\<lparr>clServices := put_services ys (clServices ?c)\<rparr>) (case Inr ([] @ ys) of
          Inl err \<Rightarrow> return (Result 0, Some err) | Inr appliedSvcs \<Rightarrow> report_status C g tpl appliedSvcs) Q"
        unfolding sum.case append_Nil
        by (rule report_status_effect [OF g, where d = d]) (use gs d ys Q in simp_all)
    qed
  qed
qed

lemma pvc_effect:
  assumes law: "owner_law L" and g: "same_object g gs"
    and gs: "fmlookup (clGameServers c) (object_key (gsMeta gs)) = Some gs"
    and enum: "list_all (\<lambda>p. fst (resolveExposure gs p) \<in> exposure_types) (tplPorts (tplSpec tpl))"
    and qty: "ParseQuantity L (storage_size gs tpl) = Inr qty"
    and Q: "\<And>p d ys now. pvc_applied (fmlookup (clPVCs c) (mNamespace (gsMeta gs), PVCName gs))
          (own_pvc L gs (pvc_of gs qty snap)) p \<Longrightarrow>
        deployment_applied (fmlookup (clDeployments c) (mNamespace (gsMeta gs), DeploymentName gs))
          (own_deployment L gs (BuildDeployment L gs tpl)) d \<Longrightarrow>
        list_all2 (\<lambda>b y. service_applied (fmlookup (clServices c) (object_key (svcMeta b))) (own_service L gs b) y)
            (BuildServices gs tpl) ys \<Longrightarrow>
        Q (Result (if observed_phase gs d = PhaseReady then 0 else 10 * Second), None)
          (c\<lparr>clPVCs := fmupd (mNamespace (gsMeta gs), PVCName gs) p (clPVCs c),
             clDeployments := fmupd (mNamespace (gsMeta gs), DeploymentName gs) d (clDeployments c),
             clServices := put_services ys (clServices c),
             clGameServers := fmupd (object_key (gsMeta gs))
               (gs\<lparr>gsStatus := gsStatus (final_status now g tpl d ys)\<rparr>) (clGameServers c)\<rparr>)"
  shows "ensures view c (reconcile_pvc L C g tpl snap) Q"
proof -
  note own = owned_law [OF law built_metas(4,5) [of gs qty snap]]
  have built: "BuildPVC L g tpl snap = Inr (pvc_of gs qty snap)"
    unfolding same_object_builders(2) [OF g] by (simp add: BuildPVC_eq qty)
  have meta: "gsMeta g = gsMeta gs" using g by simp
  let ?k = "(mNamespace (gsMeta gs), PVCName gs)"
  have key: "object_key (pvcMeta (own_pvc L gs (pvc_of gs qty snap))) = ?k"
    using own(2) built_metas(6) by simp
  show ?thesis
    unfolding reconcile_pvc_def built sum.case meta own(1)
  proof (rule ensures_bind, rule applyPVC_effect, unfold key option.case)
    fix p
    assume p: "pvc_applied (fmlookup (clPVCs c) ?k) (own_pvc L gs (pvc_of gs qty snap)) p"
    show "ensures view (c\<lparr>clPVCs := fmupd ?k p (clPVCs c)\<rparr>) (reconcile_workload L C g tpl) Q"
      by (rule workload_effect [OF law g _ enum]) (use gs Q [OF p] in simp_all)
  qed
qed

lemma storage_effect:
  assumes law: "owner_law L" and run: "runnable L c0 gs tpl" and m: "accounts_after c0 gs tpl m"
    and c: "c = c0\<lparr>clServiceAccounts := m\<rparr>"
    and g: "g = setCondition t2 (setCondition t1 gs ConditionTemplateResolved ConditionTrue ''Resolved''
        ''GameTemplate resolved'') ConditionConfigValid ConditionTrue ''Valid'' ''config satisfies template''"
  shows "ensures view c (reconcile_storage L C g tpl) (run_effect L c0 gs tpl)"
proof -
  from run obtain qty where qty: "ParseQuantity L (storage_size gs tpl) = Inr qty"
    by (auto simp: runnable_def)
  have gs: "fmlookup (clGameServers c) (object_key (gsMeta gs)) = Some gs"
    and enum: "list_all (\<lambda>p. fst (resolveExposure gs p) \<in> exposure_types) (tplPorts (tplSpec tpl))"
    and ready: "restore_ready c gs"
    using run by (simp_all add: runnable_def c)
  have same: "same_object g gs" by (simp add: g)
  have last: "ensures view c (reconcile_pvc L C (prepared t1 t2 t3 gs) tpl (restore_snapshot c gs)) (run_effect L c0 gs tpl)"
    for t3
  proof (rule pvc_effect [OF law _ gs enum qty], simp, goal_cases)
    case (1 p d ys now)
    with qty m show ?case
      unfolding run_effect_def by (intro exI conjI) (assumption | simp add: c | rule refl)+
  qed
  have spec: "gsSpec g = gsSpec gs" using same by simp
  show ?thesis
    unfolding reconcile_storage_def
  proof (rule ensures_bind, rule resolveRestoreSource_effect [OF same ready], unfold sum.case, rule ensures_bind)
    show "ensures view c (if gsRestoreFrom (gsSpec g) \<noteq> None
           then set_condition_now C g ConditionRestoreSourceResolved ConditionTrue
                  ''SnapshotBound'' ''restoreFrom Backup snapshot ready'' else return g)
        (\<lambda>g' c'. ensures view c' (reconcile_pvc L C g' tpl (restore_snapshot c gs)) (run_effect L c0 gs tpl))"
    proof (cases "gsRestoreFrom (gsSpec gs) = None")
      case True
      with last [of t1] show ?thesis by (simp add: prepared_def Let_def g ensures_return)
    next
      case False
      then have "setCondition now g ConditionRestoreSourceResolved ConditionTrue ''SnapshotBound''
          ''restoreFrom Backup snapshot ready'' = prepared t1 t2 now gs" for now
        by (simp add: prepared_def Let_def g)
      with False last show ?thesis unfolding spec by (simp add: set_condition_effect)
    qed
  qed
qed

lemma account_effect:
  assumes law: "owner_law L" and run: "runnable L c gs tpl"
    and h: "h = setCondition t2 (setCondition t1 gs ConditionTemplateResolved ConditionTrue ''Resolved''
        ''GameTemplate resolved'') ConditionConfigValid ConditionTrue ''Valid'' ''config satisfies template''"
  shows "ensures view c (if tplSecurityProfile (tplSpec tpl) \<noteq> SecurityProfileAnyUID
        then ensureServiceAccount C h else return None)
      (\<lambda>r c'. ensures view c' (case r of Some err \<Rightarrow> return (Result 0, Some err)
         | None \<Rightarrow> reconcile_storage L C h tpl) (run_effect L c gs tpl))"
proof (cases "tplSecurityProfile (tplSpec tpl) = SecurityProfileAnyUID")
  case True
  then have "accounts_after c gs tpl (clServiceAccounts c)" by (simp add: accounts_after_def)
  from storage_effect [OF law run this _ h] True show ?thesis by (simp add: ensures_return)
next
  case False
  have same: "gsMeta h = gsMeta gs" "desired_service_account h = desired_service_account gs"
    by (simp_all add: h, rule same_object_names(6)) simp
  have "ensures view c (ensureServiceAccount C h)
      (\<lambda>r c'. ensures view c' (case r of Some err \<Rightarrow> return (Result 0, Some err)
         | None \<Rightarrow> reconcile_storage L C h tpl) (run_effect L c gs tpl))"
    by (rule ensureServiceAccount_effect, unfold option.case same, rule storage_effect [OF law run _ refl h])
      (use False in \<open>auto simp: accounts_after_def simp del: DefaultServiceAccountName_def\<close>)
  with False show ?thesis by simp
qed

lemma reconcile_effect:
  assumes law: "owner_law L" and run: "runnable L c gs tpl"
  shows "ensures view c (GameServer_Reconcile L C (object_key (gsMeta gs))) (run_effect L c gs tpl)"
proof -
  have gs: "fmlookup (clGameServers c) (object_key (gsMeta gs)) = Some gs"
    and tpl: "fmlookup (clGameTemplates c) ('''', gsTemplateRefName (gsSpec gs)) = Some tpl"
    and valid: "ValidateConfig L gs tpl = None"
    using run by (simp_all add: runnable_def)
  let ?g = "\<lambda>t1. setCondition t1 gs ConditionTemplateResolved ConditionTrue ''Resolved'' ''GameTemplate resolved''"
  have "ValidateConfig L (?g t1) tpl = None" for t1
    using valid same_object_builders(4) [of "?g t1" gs L tpl] by simp
  then have resolved: "ensures view c (reconcile_resolved L C (?g t1) tpl) (run_effect L c gs tpl)" for t1
    unfolding reconcile_resolved_def
    by simp (rule ensures_bind, rule set_condition_effect, rule ensures_bind, rule account_effect [OF law run refl])
  show ?thesis
    unfolding GameServer_Reconcile_def
  proof (rule ensures_bind, rule servers.ensures_Get, goal_cases)
    case (1 x)
    with gs have "x = gs" by simp
    show ?case
      unfolding \<open>x = gs\<close> sum.case
    proof (rule ensures_bind, rule templates.ensures_Get, goal_cases)
      case (1 t)
      with tpl have "t = tpl" by simp
      show ?case
        unfolding \<open>t = tpl\<close> sum.case by (rule ensures_bind, rule set_condition_effect) (rule resolved)
    qed (use tpl in simp)
  qed (use gs in simp)
qed

end

section \<open>A second run\<close>

text \<open>A condition that is already reported is left as it is.\<close>

definition reports :: "game_server \<Rightarrow> string \<Rightarrow> string \<Rightarrow> string \<Rightarrow> string \<Rightarrow> bool" where
  "reports g t st r m \<longleftrightarrow> (\<exists>tr. find_cond t (gsConditions (gsStatus g)) =
     Some \<lparr>cType = t, cStatus = st, cObservedGeneration = mGeneration (gsMeta g), cLastTransitionTime = tr,
           cReason = r, cMessage = m\<rparr>)"

lemma condition_types_neq [simp]:
  "ConditionReady \<noteq> ConditionTemplateResolved" "ConditionReady \<noteq> ConditionConfigValid"
  "ConditionReady \<noteq> ConditionRestoreSourceResolved" "ConditionTemplateResolved \<noteq> ConditionConfigValid"
  "ConditionTemplateResolved \<noteq> ConditionRestoreSourceResolved" "ConditionConfigValid \<noteq> ConditionRestoreSourceResolved"
  by (simp_all add: ConditionReady_def ConditionTemplateResolved_def ConditionConfigValid_def
      ConditionRestoreSourceResolved_def)

lemmas condition_types_neq_sym [simp] = condition_types_neq [THEN not_sym]

lemma reports_set [simp]: "reports (setCondition now g t st r m) t st r m"
  by (simp add: reports_def gs_cond.lookup_set updated_condition_def)

lemma reports_other [simp]: "t \<noteq> t' \<Longrightarrow> reports (setCondition now g t' st' r' m') t st r m = reports g t st r m"
  by (simp add: reports_def gs_cond.lookup_other)

lemma reports_cong:
  "gsConditions (gsStatus g) = gsConditions (gsStatus h) \<Longrightarrow> gsMeta g = gsMeta h \<Longrightarrow>
   reports g t st r m = reports h t st r m"
  by (simp add: reports_def)

lemma upsert_fixed:
  "find_cond t cs = Some \<lparr>cType = t, cStatus = st, cObservedGeneration = gen, cLastTransitionTime = tr,
     cReason = r, cMessage = m\<rparr> \<Longrightarrow> upsert_condition now gen t st r m cs = cs"
  by (induction cs) (auto split: if_splits)

lemma setCondition_fixed: "reports g t st r m \<Longrightarrow> setCondition now g t st r m = g"
  unfolding reports_def setCondition_def by (auto dest: upsert_fixed [of _ _ _ _ _ _ _ now])

text \<open>The status that a run leaves reports what the next run would report.\<close>

definition settled :: "game_server \<Rightarrow> game_template \<Rightarrow> deployment \<Rightarrow> service list \<Rightarrow> bool" where
  "settled g tpl d ys \<longleftrightarrow>
     reports g ConditionTemplateResolved ConditionTrue ''Resolved'' ''GameTemplate resolved''
     \<and> reports g ConditionConfigValid ConditionTrue ''Valid'' ''config satisfies template''
     \<and> (gsRestoreFrom (gsSpec g) \<noteq> None \<longrightarrow> reports g ConditionRestoreSourceResolved ConditionTrue ''SnapshotBound''
          ''restoreFrom Backup snapshot ready'')
     \<and> (if gsSuspend (gsSpec g) then reports g ConditionReady ConditionFalse ''Suspended'' ''spec.suspend=true''
        else if sint (depReadyReplicas d) \<ge> 1 then reports g ConditionReady ConditionTrue ''PodReady'' ''pod is Ready''
        else reports g ConditionReady ConditionFalse ''PodNotReady'' ''waiting for pod to become Ready'')
     \<and> status_of g tpl d ys = g \<and> gsPhase (gsStatus g) = observed_phase g d"

lemma address_same:
  assumes "same_object a b"
  shows "PrimaryAddress a tpl ys = PrimaryAddress b tpl ys"
  unfolding PrimaryAddress_def same_object_exposure(2) [OF assms] same_object_names(3) [OF assms]
    assms [THEN conjunct1] by (rule refl)

lemma settled_run:
  assumes "g = final_status t4 (prepared t1 t2 t3 gs) tpl d ys"
  shows "settled (gs\<lparr>gsStatus := gsStatus g\<rparr>) tpl d ys"
proof -
  let ?p = "prepared t1 t2 t3 gs"
  have g: "same_object g gs" using assms by simp
  then have eq: "gs\<lparr>gsStatus := gsStatus g\<rparr> = g" by (cases gs, cases g) simp
  have conds: "reports g t st r m = reports ?p t st r m" if "t \<noteq> ConditionReady" for t st r m
    using that by (simp add: assms final_status_def Let_def status_of_def set_phase_def reports_def gs_cond.lookup_other)
  have "reports ?p ConditionTemplateResolved ConditionTrue ''Resolved'' ''GameTemplate resolved''"
    "reports ?p ConditionConfigValid ConditionTrue ''Valid'' ''config satisfies template''"
    "gsRestoreFrom (gsSpec gs) \<noteq> None \<Longrightarrow> reports ?p ConditionRestoreSourceResolved ConditionTrue ''SnapshotBound''
          ''restoreFrom Backup snapshot ready''"
    by (simp_all add: prepared_def Let_def)
  moreover have "gsSpec g = gsSpec gs" using g by simp
  moreover have "status_of g tpl d ys = g"
    using address_same [of "status_of ?p tpl d ys" ?p tpl ys] address_same [of g ?p tpl ys] g
    by (simp add: assms final_status_def Let_def status_of_def set_phase_def setCondition_def)
  ultimately show ?thesis
    unfolding settled_def eq
    by (simp add: conds) (simp add: assms final_status_def Let_def observed_phase_def)
qed

lemma settled_stays:
  assumes "settled g tpl d ys"
  shows "prepared t1 t2 t3 g = g" and "final_status t4 g tpl d ys = g"
proof -
  from assms show "prepared t1 t2 t3 g = g"
    by (simp add: settled_def prepared_def Let_def setCondition_fixed)
  have "set_phase (observed_phase g d) g = g"
    using assms by (cases g) (simp add: settled_def set_phase_def)
  with assms show "final_status t4 g tpl d ys = g"
    by (auto simp: settled_def final_status_def Let_def setCondition_fixed split: if_splits)
qed

lemma put_services_lookup:
  assumes "distinct (map (\<lambda>y. object_key (svcMeta y)) ys)" and "y \<in> set ys"
  shows "fmlookup (put_services ys m) (object_key (svcMeta y)) = Some y"
  using assms
proof (induction ys arbitrary: m)
  case (Cons z ys)
  have other: "fmlookup (put_services ys m) k = fmlookup m k" if "k \<notin> (\<lambda>y. object_key (svcMeta y)) ` set ys" for m k
    using that by (induction ys arbitrary: m) auto
  from Cons show ?case by (cases "y = z") (auto simp: other)
qed simp

lemma put_services_again:
  assumes "\<And>y. y \<in> set ys \<Longrightarrow> fmlookup m (object_key (svcMeta y)) = Some y"
  shows "put_services ys m = m"
  using assms by (induction ys) (simp_all add: fmupd_same)

lemma services_again:
  assumes law: "owner_law L"
    and keys: "distinct (map (\<lambda>b. object_key (svcMeta b)) bs)"
    and bs: "\<And>b. b \<in> set bs \<Longrightarrow> mOwnerReferences (svcMeta b) = [] \<and> mNamespace (svcMeta b) = mNamespace (gsMeta gs)
        \<and> distinct (map spName (ssPorts (svcSpec b)))"
    and ys: "list_all2 (\<lambda>b y. service_applied (look b) (own_service L gs b) y) bs ys"
    and zs: "list_all2 (\<lambda>b z. service_applied (fmlookup (put_services ys m) (object_key (svcMeta b))) (own_service L gs b) z) bs zs"
  shows "zs = ys" and "put_services ys (put_services ys m) = put_services ys m"
proof -
  have len: "length ys = length bs" "length zs = length bs"
    using list_all2_lengthD [OF ys] list_all2_lengthD [OF zs] by simp_all
  have key: "object_key (svcMeta (ys ! i)) = object_key (svcMeta (bs ! i))" if "i < length bs" for i
    using ys bs [of "bs ! i"] that owned_law(2) [OF law, of "svcMeta (bs ! i)" gs]
    by (simp add: list_all2_conv_all_nth service_applied_def service_as_desired_def)
  have "map (\<lambda>y. object_key (svcMeta y)) ys = map (\<lambda>b. object_key (svcMeta b)) bs"
    by (intro nth_equalityI) (simp_all add: len key)
  with keys have dist: "distinct (map (\<lambda>y. object_key (svcMeta y)) ys)" by simp
  note look = put_services_lookup [OF dist]
  show "put_services ys (put_services ys m) = put_services ys m"
    by (rule put_services_again) (rule look)
  show "zs = ys"
  proof (rule nth_equalityI)
    fix i assume "i < length zs"
    then have i: "i < length bs" using len by simp
    have b: "mOwnerReferences (svcMeta (bs ! i)) = []" "mNamespace (svcMeta (bs ! i)) = mNamespace (gsMeta gs)"
      "distinct (map spName (ssPorts (svcSpec (bs ! i))))"
      using bs [of "bs ! i"] i by simp_all
    have "service_as_desired (own_service L gs (bs ! i)) (ys ! i)"
      using ys i by (simp add: list_all2_conv_all_nth service_applied_def)
    then have fixed: "merge_service (ys ! i) (own_service L gs (bs ! i)) = ys ! i"
      by (rule merge_service_fixed) (simp add: b)
    have "fmlookup (put_services ys m) (object_key (svcMeta (bs ! i))) = Some (ys ! i)"
      using look [of "ys ! i" m] key [OF i] i len by simp
    with list_all2_nthD [OF zs i] have "service_applied (Some (ys ! i)) (own_service L gs (bs ! i)) (zs ! i)"
      by (simp only:)
    with fixed show "zs ! i = ys ! i" by (simp add: service_applied_def)
  qed (simp add: len)
qed

text \<open>The cluster a run leaves is one that the next run leaves alone.\<close>

lemma services_settle:
  assumes "owner_law L" and "runnable L c gs tpl"
    and "list_all2 (\<lambda>b y. service_applied (fmlookup m (object_key (svcMeta b))) (own_service L gs b) y)
      (BuildServices gs tpl) ys"
    and "list_all2 (\<lambda>b z. service_applied (fmlookup (put_services ys m) (object_key (svcMeta b))) (own_service L gs b) z)
      (BuildServices gs tpl) zs"
  shows "zs = ys \<and> put_services ys (put_services ys m) = put_services ys m"
proof -
  have dist: "distinct (map tpName (tplPorts (tplSpec tpl)))"
    and enum: "list_all (\<lambda>p. fst (resolveExposure gs p) \<in> exposure_types) (tplPorts (tplSpec tpl))"
    using assms(2) by (simp_all add: runnable_def)
  note again = services_again [OF assms(1) service_keys_distinct [OF enum] _ assms(3,4)]
  show ?thesis
    by (intro conjI again) (use built_service_metas built_service_ports [OF dist] in blast)+
qed

lemma run_effect_settles:
  assumes law: "owner_law L" and run: "runnable L c gs tpl" and eff: "run_effect L c gs tpl r c1"
  obtains g where "fmlookup (clGameServers c1) (object_key (gsMeta gs)) = Some g" and "same_object g gs"
    and "runnable L c1 g tpl" and "\<And>r' c2. run_effect L c1 g tpl r' c2 \<Longrightarrow> c2 = c1 \<and> r' = r"
proof -
  let ?kp = "(mNamespace (gsMeta gs), PVCName gs)" and ?kd = "(mNamespace (gsMeta gs), DeploymentName gs)"
  from eff obtain m qty p d ys t1 t2 t3 t4 g0 where m: "accounts_after c gs tpl m"
    and qty: "ParseQuantity L (storage_size gs tpl) = Inr qty"
    and p: "pvc_applied (fmlookup (clPVCs c) ?kp) (own_pvc L gs (pvc_of gs qty (restore_snapshot c gs))) p"
    and d: "deployment_applied (fmlookup (clDeployments c) ?kd) (own_deployment L gs (BuildDeployment L gs tpl)) d"
    and ys: "list_all2 (\<lambda>b y. service_applied (fmlookup (clServices c) (object_key (svcMeta b))) (own_service L gs b) y)
        (BuildServices gs tpl) ys"
    and g0: "g0 = final_status t4 (prepared t1 t2 t3 gs) tpl d ys"
    and c1: "c1 = c\<lparr>clServiceAccounts := m, clPVCs := fmupd ?kp p (clPVCs c),
                  clDeployments := fmupd ?kd d (clDeployments c),
                  clServices := put_services ys (clServices c),
                  clGameServers := fmupd (object_key (gsMeta gs)) (gs\<lparr>gsStatus := gsStatus g0\<rparr>) (clGameServers c)\<rparr>"
    and r: "r = (Result (if observed_phase gs d = PhaseReady then 0 else 10 * Second), None)"
    unfolding run_effect_def by blast
  let ?g = "gs\<lparr>gsStatus := gsStatus g0\<rparr>"
  have same: "same_object ?g gs" by simp
  have settled: "settled ?g tpl d ys" by (rule settled_run) (rule g0)
  note eqs = same_object_names [OF same] same_object_builders [OF same] same_object_exposure [OF same]
  have look: "fmlookup (clGameServers c1) (object_key (gsMeta gs)) = Some ?g" by (simp add: c1)
  have run1: "runnable L c1 ?g tpl"
    using run unfolding runnable_def eqs
    by (simp add: c1 restore_ready_def eqs storage_size_def split: option.splits)
  have owned: "owned L ?g = owned L gs" by (simp add: owned_def fun_eq_iff)
  have "c2 = c1 \<and> r' = r" if again: "run_effect L c1 ?g tpl r' c2" for r' c2
  proof -
    from again obtain m' qty' p' d' zs u1 u2 u3 u4 where m': "accounts_after c1 ?g tpl m'"
      and p': "pvc_applied (fmlookup (clPVCs c1) ?kp) (own_pvc L gs (pvc_of gs qty' (restore_snapshot c1 ?g))) p'"
      and d': "deployment_applied (fmlookup (clDeployments c1) ?kd) (own_deployment L gs (BuildDeployment L gs tpl)) d'"
      and zs: "list_all2 (\<lambda>b y. service_applied (fmlookup (clServices c1) (object_key (svcMeta b))) (own_service L gs b) y)
          (BuildServices gs tpl) zs"
      and c2: "c2 = c1\<lparr>clServiceAccounts := m', clPVCs := fmupd ?kp p' (clPVCs c1),
                  clDeployments := fmupd ?kd d' (clDeployments c1), clServices := put_services zs (clServices c1),
                  clGameServers := fmupd (object_key (gsMeta gs)) (?g\<lparr>gsStatus :=
                    gsStatus (final_status u4 (prepared u1 u2 u3 ?g) tpl d' zs)\<rparr>) (clGameServers c1)\<rparr>"
      and r': "r' = (Result (if observed_phase ?g d' = PhaseReady then 0 else 10 * Second), None)"
      unfolding run_effect_def eqs owned same [THEN conjunct1] by blast
    have "m' = clServiceAccounts c1"
      using m m' by (auto simp: accounts_after_def c1 same [THEN conjunct1] split: if_splits)
    moreover have "p' = p"
      using p p' owned_law(3) [OF law built_metas(4,5)]
      by (simp add: pvc_applied_def c1 pvc_of_simps)
    moreover have "d' = d"
      using d d' by (simp add: deployment_applied_def c1)
    moreover have "zs = ys \<and> put_services ys (put_services ys (clServices c)) = put_services ys (clServices c)"
      using services_settle [OF law run ys] zs by (simp add: c1)    moreover have "final_status u4 (prepared u1 u2 u3 ?g) tpl d ys = ?g"
      by (simp only: settled_stays [OF settled])
    moreover have "observed_phase ?g d = observed_phase gs d" by (simp add: observed_phase_def)
    ultimately show ?thesis
      using look by (cases c, simp add: c2 r r' c1 fmupd_same)
  qed
  with look same run1 show thesis by (rule that)
qed

end
