(* ===== verification/GameServerRuns.thy ===== *)
theory GameServerRuns
  imports GameServerFacts
begin

text \<open>
  The specification of a reconcile of a GameServer: \<open>run_shape\<close> says, for every client and every world,
  which lists of API calls a run can make, and \<open>justified\<close> what each write must come from: an object that
  was built for this server and template, or an object read in this run with the builders' fields replaced.
  \<open>run_shape_holds\<close> is the refinement lemma; the safety properties follow from it.
\<close>

section \<open>The specification\<close>

definition source_ok :: "game_server \<Rightarrow> string set \<Rightarrow> string option \<Rightarrow> bool" where
  "source_ok gs snaps snap \<longleftrightarrow>
     snap = None \<or> (gsRestoreFrom (gsSpec gs) \<noteq> None \<and> (\<exists>s \<in> snaps. snap = Some s))"

text \<open>A child object as it is created: the built object, with the metadata of \<open>SetControllerReference\<close>.
  \<open>snaps\<close> are the snapshots a volume may be restored from.\<close>

definition created_ok :: "lib \<Rightarrow> game_server \<Rightarrow> game_template \<Rightarrow> string set \<Rightarrow> object \<Rightarrow> bool" where
  "created_ok L gs tpl snaps obj \<longleftrightarrow>
     (case obj of
        OServiceAccount sa \<Rightarrow>
          sa = desired_service_account gs \<and> tplSecurityProfile (tplSpec tpl) \<noteq> SecurityProfileAnyUID
      | OPVC p \<Rightarrow> (\<exists>qty snap m. p = pvc_of gs qty snap\<lparr>pvcMeta := m\<rparr>
          \<and> ParseQuantity L (storage_size gs tpl) = Inr qty
          \<and> SetControllerReference L (GameServerKind, gsMeta gs) (pvcMeta (pvc_of gs qty snap)) = Inr m
          \<and> source_ok gs snaps snap)
      | ODeployment d \<Rightarrow> (\<exists>m. d = BuildDeployment L gs tpl\<lparr>depMeta := m\<rparr>
          \<and> SetControllerReference L (GameServerKind, gsMeta gs) (depMeta (BuildDeployment L gs tpl)) = Inr m)
      | OService s \<Rightarrow> (\<exists>b m. b \<in> set (BuildServices gs tpl) \<and> s = b\<lparr>svcMeta := m\<rparr>
          \<and> SetControllerReference L (GameServerKind, gsMeta gs) (svcMeta b) = Inr m)
      | _ \<Rightarrow> False)"

text \<open>A child object as it is updated: one that the run read, with the built fields in it.\<close>

definition updated_ok :: "lib \<Rightarrow> game_server \<Rightarrow> game_template \<Rightarrow> event list \<Rightarrow> object \<Rightarrow> bool" where
  "updated_ok L gs tpl es obj \<longleftrightarrow>
     (case obj of
        OPVC p' \<Rightarrow> (\<exists>p ls. EvRead (OPVC p) \<in> set es \<and> p' = p\<lparr>pvcMeta := (pvcMeta p)\<lparr>mLabels := ls\<rparr>\<rparr>)
      | ODeployment d' \<Rightarrow> (\<exists>d m. EvRead (ODeployment d) \<in> set es
          \<and> merge_deployment d (BuildDeployment L gs tpl\<lparr>depMeta := m\<rparr>) = Some d')
      | OService s' \<Rightarrow> (\<exists>s b m. EvRead (OService s) \<in> set es \<and> b \<in> set (BuildServices gs tpl)
          \<and> s' = merge_service s (b\<lparr>svcMeta := m\<rparr>))
      | _ \<Rightarrow> False)"

text \<open>A status that is written: of this server, and Ready only when the Deployment read in this run has a
  ready replica.\<close>

definition status_ok :: "game_server \<Rightarrow> game_template \<Rightarrow> event list \<Rightarrow> object \<Rightarrow> bool" where
  "status_ok gs tpl es obj \<longleftrightarrow>
     (case obj of
        OGameServer g' \<Rightarrow>
          (\<exists>g d now svcs. same_object g gs \<and> EvRead (ODeployment d) \<in> set es
             \<and> g' = final_status now g tpl d svcs)
          \<or> (same_object g' gs \<and> gsPhase (gsStatus g') = PhaseDegraded)
          \<or> (\<exists>g now msg. same_object g gs
               \<and> g' = setCondition now g ConditionConfigValid ConditionFalse ''InvalidStorage'' msg)
      | _ \<Rightarrow> False)"

definition justified :: "lib \<Rightarrow> game_server \<Rightarrow> game_template \<Rightarrow> string set \<Rightarrow> event list \<Rightarrow> event \<Rightarrow> bool" where
  "justified L gs tpl snaps es ev \<longleftrightarrow>
     (case ev of
        EvRead obj \<Rightarrow> True
      | EvCreate obj \<Rightarrow> created_ok L gs tpl snaps obj
      | EvUpdate obj \<Rightarrow> updated_ok L gs tpl es obj
      | EvUpdateStatus obj \<Rightarrow> status_ok gs tpl es obj
      | EvDelete obj \<Rightarrow> False)"

definition run_ok :: "lib \<Rightarrow> game_server \<Rightarrow> game_template \<Rightarrow> string set \<Rightarrow> event list \<Rightarrow> bool" where
  "run_ok L gs tpl snaps es \<longleftrightarrow> list_all (justified L gs tpl snaps es) es"

text \<open>The snapshots of the Backups that were read, Ready and bound.\<close>

definition restorable :: "event list \<Rightarrow> string set" where
  "restorable es = {bVolumeSnapshotName (bStatus b) | b. EvRead (OBackup b) \<in> set es
     \<and> bPhase (bStatus b) = BackupPhaseReady \<and> bVolumeSnapshotName (bStatus b) \<noteq> ''''}"

section \<open>It is a discipline\<close>

lemma updated_ok_mono: "updated_ok L gs tpl es obj \<Longrightarrow> set es \<subseteq> set es' \<Longrightarrow> updated_ok L gs tpl es' obj"
  by (cases obj) (auto simp: updated_ok_def)

lemma status_ok_mono: "status_ok gs tpl es obj \<Longrightarrow> set es \<subseteq> set es' \<Longrightarrow> status_ok gs tpl es' obj"
  unfolding status_ok_def by (cases obj) (simp_all del: final_status_simps, blast)

lemma created_ok_mono: "created_ok L gs tpl snaps obj \<Longrightarrow> snaps \<subseteq> snaps' \<Longrightarrow> created_ok L gs tpl snaps' obj"
  unfolding created_ok_def source_ok_def by (cases obj) (simp_all, blast)

lemma justified_mono:
  "justified L gs tpl snaps es ev \<Longrightarrow> snaps \<subseteq> snaps' \<Longrightarrow> set es \<subseteq> set es' \<Longrightarrow>
   justified L gs tpl snaps' es' ev"
  by (cases ev) (auto simp: justified_def intro: updated_ok_mono status_ok_mono created_ok_mono)

lemma run_ok_append:
  "run_ok L gs tpl snaps es \<Longrightarrow> run_ok L gs tpl snaps' es' \<Longrightarrow> snaps \<subseteq> snaps'' \<Longrightarrow> snaps' \<subseteq> snaps'' \<Longrightarrow>
   run_ok L gs tpl snaps'' (es @ es')"
  by (auto simp: run_ok_def list_all_iff elim!: justified_mono)

lemma restorable_append [simp]: "restorable (es @ es') = restorable es \<union> restorable es'"
  by (auto simp: restorable_def)

lemma restorable_Nil [simp]: "restorable [] = {}"
  by (simp add: restorable_def)

lemma run_ok_closed: "append_closed (run_ok L gs tpl snaps)"
  unfolding append_closed_def
  by (intro conjI allI impI, simp add: run_ok_def, erule run_ok_append, assumption) simp_all

lemma run_ok_restorable_closed: "append_closed (\<lambda>es. run_ok L gs tpl (restorable es) es)"
  unfolding append_closed_def
  by (intro conjI allI impI, simp add: run_ok_def, erule run_ok_append, assumption) simp_all

lemma reads_ok: "list_all (\<lambda>ev. \<not> is_write ev) es \<Longrightarrow> run_ok L gs tpl snaps es"
  by (auto simp: run_ok_def list_all_iff justified_def is_write_def split: event.splits)

lemma run_ok_pieces:
  "created_ok L gs tpl snaps obj \<Longrightarrow> run_ok L gs tpl snaps [EvCreate obj]"
  "updated_ok L gs tpl [EvRead x, EvUpdate obj] obj \<Longrightarrow> run_ok L gs tpl snaps [EvRead x, EvUpdate obj]"
  "status_ok gs tpl [EvUpdateStatus obj] obj \<Longrightarrow> run_ok L gs tpl snaps [EvUpdateStatus obj]"
  "status_ok gs tpl [EvRead x, EvUpdateStatus obj] obj \<Longrightarrow> run_ok L gs tpl snaps [EvRead x, EvUpdateStatus obj]"
  by (simp_all add: run_ok_def justified_def)

lemma created_ok_pieces:
  "tplSecurityProfile (tplSpec tpl) \<noteq> SecurityProfileAnyUID \<Longrightarrow>
     created_ok L gs tpl snaps (OServiceAccount (desired_service_account gs))"
  "SetControllerReference L (GameServerKind, gsMeta gs) (depMeta (BuildDeployment L gs tpl)) = Inr m \<Longrightarrow>
     created_ok L gs tpl snaps (ODeployment (BuildDeployment L gs tpl\<lparr>depMeta := m\<rparr>))"
  "b \<in> set (BuildServices gs tpl) \<Longrightarrow>
     SetControllerReference L (GameServerKind, gsMeta gs) (svcMeta b) = Inr m \<Longrightarrow>
     created_ok L gs tpl snaps (OService (b\<lparr>svcMeta := m\<rparr>))"
  "source_ok gs snaps snap \<Longrightarrow> ParseQuantity L (storage_size gs tpl) = Inr qty \<Longrightarrow>
     SetControllerReference L (GameServerKind, gsMeta gs) (pvcMeta (pvc_of gs qty snap)) = Inr m \<Longrightarrow>
     created_ok L gs tpl snaps (OPVC (pvc_of gs qty snap\<lparr>pvcMeta := m\<rparr>))"
  by (auto simp: created_ok_def simp del: GameServerKind_def)

lemma updated_ok_pieces:
  "merge_pvc p q = Some p' \<Longrightarrow> updated_ok L gs tpl [EvRead (OPVC p), ev] (OPVC p')"
  "merge_deployment d (BuildDeployment L gs tpl\<lparr>depMeta := m\<rparr>) = Some d' \<Longrightarrow>
     updated_ok L gs tpl [EvRead (ODeployment d), ev] (ODeployment d')"
  "b \<in> set (BuildServices gs tpl) \<Longrightarrow>
     updated_ok L gs tpl [EvRead (OService s), ev] (OService (merge_service s (b\<lparr>svcMeta := m\<rparr>)))"
  by (auto simp: updated_ok_def merge_pvc_def split: if_splits)

lemma status_ok_pieces:
  "same_object g gs \<Longrightarrow> status_ok gs tpl [EvRead (ODeployment d), ev] (OGameServer (final_status now g tpl d svcs))"
  "same_object g gs \<Longrightarrow> gsPhase (gsStatus g) = PhaseDegraded \<Longrightarrow> status_ok gs tpl es (OGameServer g)"
  "same_object g gs \<Longrightarrow> status_ok gs tpl es (OGameServer
     (setCondition now g ConditionConfigValid ConditionFalse ''InvalidStorage'' msg))"
  unfolding status_ok_def by (simp_all, blast+)

text \<open>With the snapshots fixed, every piece of a run from the PVC on is justified; before the restore
  source is known, no PVC is created.\<close>

interpretation with_source: run_discipline L gs tpl "run_ok L gs tpl snaps"
  "source_ok gs snaps" for L gs tpl snaps
  by unfold_locales
    (auto intro: run_ok_closed reads_ok run_ok_pieces created_ok_pieces updated_ok_pieces status_ok_pieces
      simp: is_write_def simp del: GameServerKind_def)

interpretation before_source: run_discipline L gs tpl "\<lambda>es. run_ok L gs tpl (restorable es) es" "\<lambda>_. False"
  for L gs tpl
  by unfold_locales
    (auto intro: run_ok_restorable_closed reads_ok run_ok_pieces created_ok_pieces updated_ok_pieces
      status_ok_pieces simp: is_write_def simp del: GameServerKind_def)

section \<open>Every run has the specified shape\<close>

lemma restore_source_produces:
  "produces (resolveRestoreSource C g) (\<lambda>r es. list_all (\<lambda>ev. \<not> is_write ev) es
     \<and> (\<forall>s. r = Inr (Some s) \<longrightarrow> gsRestoreFrom (gsSpec g) \<noteq> None \<and> s \<in> restorable es))"
  unfolding resolveRestoreSource_def
  by (auto intro!: io_intro simp: is_write_def restorable_def simp del: BackupPhaseReady_def)

lemma join_source:
  assumes "list_all (\<lambda>ev. \<not> is_write ev) es"
    and "produces m (\<lambda>_ es'. run_ok L gs tpl (restorable es) es')"
  shows "produces m (\<lambda>_ es'. run_ok L gs tpl (restorable (es @ es')) (es @ es'))"
  using assms(2) by (rule produces_mono) (rule run_ok_append [OF reads_ok [OF assms(1)]], auto)

lemma storage_run:
  assumes g: "same_object g gs"
  shows "produces (reconcile_storage L C g tpl) (\<lambda>_ es. run_ok L gs tpl (restorable es) es)"
  unfolding reconcile_storage_def
proof (rule produces_bind, rule produces_mono [OF restore_source_produces], erule conjE)
  fix rr :: "go_error + string option" and es
  assume es: "list_all (\<lambda>ev. \<not> is_write ev) es" and snap: "\<forall>s. rr = Inr (Some s) \<longrightarrow> gsRestoreFrom (gsSpec g) \<noteq> None \<and> s \<in> restorable es"
  show "produces (case rr of
      Inl restoreErr \<Rightarrow>
        report_failure C g ConditionRestoreSourceResolved ''Unavailable'' (err_text restoreErr) PhaseDegraded
    | Inr sourceSnapshot \<Rightarrow>
        State_Monad.bind
          (if gsRestoreFrom (gsSpec g) \<noteq> None
           then set_condition_now C g ConditionRestoreSourceResolved ConditionTrue
                  ''SnapshotBound'' ''restoreFrom Backup snapshot ready''
           else return g)
          (\<lambda>gs. reconcile_pvc L C gs tpl sourceSnapshot))
    (\<lambda>_ es'. run_ok L gs tpl (restorable (es @ es')) (es @ es'))"
  proof (rule join_source [OF es], rule produces_sum)
    fix e
    show "produces (report_failure C g ConditionRestoreSourceResolved ''Unavailable'' (err_text e) PhaseDegraded)
        (\<lambda>_. run_ok L gs tpl (restorable es))"
      by (rule with_source.failure [OF g])
  next
    fix src
    assume "rr = Inr src"
    with snap g have src: "source_ok gs (restorable es) src" by (cases src) (simp_all add: source_ok_def)
    show "produces (State_Monad.bind (if gsRestoreFrom (gsSpec g) \<noteq> None
           then set_condition_now C g ConditionRestoreSourceResolved ConditionTrue
                  ''SnapshotBound'' ''restoreFrom Backup snapshot ready''
           else return g) (\<lambda>gs. reconcile_pvc L C gs tpl src)) (\<lambda>_. run_ok L gs tpl (restorable es))"
      by (rule with_source.conditional_cond [OF g]) (rule with_source.pvc_stage [OF _ src])
  qed
qed

text \<open>What a run whose configuration the template rejects writes.\<close>

definition rejected :: "gotime \<Rightarrow> gotime \<Rightarrow> game_server \<Rightarrow> go_error \<Rightarrow> game_server" where
  "rejected now now' gs err =
     set_phase PhaseDegraded (setCondition now'
       (setCondition now gs ConditionTemplateResolved ConditionTrue ''Resolved'' ''GameTemplate resolved'')
       ConditionConfigValid ConditionFalse ''Invalid'' (err_text err))"

definition template_missing :: "gotime \<Rightarrow> game_server \<Rightarrow> game_server" where
  "template_missing now gs =
     set_phase PhasePending (setCondition now gs ConditionTemplateResolved ConditionFalse ''NotFound''
       (''GameTemplate '' @ Quote (gsTemplateRefName (gsSpec gs)) @ '' not found''))"

definition run_shape :: "lib \<Rightarrow> outcome \<Rightarrow> event list \<Rightarrow> bool" where
  "run_shape L r es \<longleftrightarrow>
     (es = [] \<and> (\<exists>err. r = (Result 0, if IsNotFound err then None else Some err)))
     \<or> (\<exists>gs err. es = [EvRead (OGameServer gs)] \<and> r = (Result 0, Some err) \<and> \<not> IsNotFound err)
     \<or> (\<exists>gs now. es = [EvRead (OGameServer gs), EvUpdateStatus (OGameServer (template_missing now gs))]
          \<and> r = (Result (30 * Second), None))
     \<or> (\<exists>gs tpl err now now'. ValidateConfig L gs tpl = Some err
          \<and> es = [EvRead (OGameServer gs), EvRead (OGameTemplate tpl),
                  EvUpdateStatus (OGameServer (rejected now now' gs err))]
          \<and> r = (Result (30 * Second), None))
     \<or> (\<exists>gs tpl es'. ValidateConfig L gs tpl = None
          \<and> es = EvRead (OGameServer gs) # EvRead (OGameTemplate tpl) # es'
          \<and> run_ok L gs tpl (restorable es') es')"

lemma failure_produces:
  "produces (report_failure C g t r m ph) (\<lambda>a es. a = (Result (30 * Second), None)
     \<and> (\<exists>now. es = [EvUpdateStatus (OGameServer (set_phase ph (setCondition now g t ConditionFalse r m)))]))"
  unfolding report_failure_def updateStatus_def
  by (rule produces_bind, rule produces_set_condition_now, rule produces_bind, rule produces_StatusUpdate,
      rule produces_return) auto

lemma resolved_run:
  assumes g: "same_object g gs"
  shows "produces (reconcile_resolved L C g tpl) (\<lambda>a es.
    (case ValidateConfig L gs tpl of
       Some err \<Rightarrow> a = (Result (30 * Second), None)
         \<and> (\<exists>now. es = [EvUpdateStatus (OGameServer (set_phase PhaseDegraded
               (setCondition now g ConditionConfigValid ConditionFalse ''Invalid'' (err_text err))))])
     | None \<Rightarrow> run_ok L gs tpl (restorable es) es))"
proof (cases "ValidateConfig L gs tpl")
  case None
  have "produces (reconcile_resolved L C g tpl) (\<lambda>_ es. run_ok L gs tpl (restorable es) es)"
    by (rule before_source.resolved_stage [OF g storage_run])
  with None show ?thesis by simp
next
  case (Some err)
  then show ?thesis
    by (simp only: reconcile_resolved_def same_object_builders [OF g] option.case) (rule failure_produces)
qed

lemma run_shape_holds: "produces (GameServer_Reconcile L C req) (run_shape L)"
proof (rule reconcile_rule)
  fix gs tpl now
  let ?g = "setCondition now gs ConditionTemplateResolved ConditionTrue ''Resolved'' ''GameTemplate resolved''"
  have g: "same_object ?g gs" by simp
  show "produces (reconcile_resolved L C ?g tpl)
      (\<lambda>r es. run_shape L r (EvRead (OGameServer gs) # EvRead (OGameTemplate tpl) # es))"
    by (rule produces_mono [OF resolved_run [OF g]])
      (cases "ValidateConfig L gs tpl"; auto simp: run_shape_def rejected_def)
qed (auto simp: run_shape_def template_missing_def)

section \<open>What follows for single writes\<close>

definition reads :: "object \<Rightarrow> event list \<Rightarrow> bool" where
  "reads obj es \<longleftrightarrow> EvRead obj \<in> set es"

abbreviation gs_run :: "lib \<Rightarrow> 'w client \<Rightarrow> key \<Rightarrow> 'w sys \<Rightarrow> event list" where
  "gs_run L C req s \<equiv> events (GameServer_Reconcile L C req) s"

lemma run_shape_events: "run_shape L (result (GameServer_Reconcile L C req) s) (gs_run L C req s)"
  by (rule produces_eventsD) (rule run_shape_holds)

text \<open>A write other than a status update is justified by a server and a template that the run read.\<close>

lemma write_justified:
  assumes "ev \<in> set (gs_run L C req s)" and "is_write ev" and "\<And>obj. ev \<noteq> EvUpdateStatus obj"
  obtains gs tpl where "reads (OGameServer gs) (gs_run L C req s)" and "reads (OGameTemplate tpl) (gs_run L C req s)"
    and "ValidateConfig L gs tpl = None"
    and "justified L gs tpl (restorable (gs_run L C req s)) (gs_run L C req s) ev"
proof -
  let ?es = "gs_run L C req s"
  from run_shape_events [of L C req s] assms
  obtain gs tpl es' where es: "?es = EvRead (OGameServer gs) # EvRead (OGameTemplate tpl) # es'"
    and valid: "ValidateConfig L gs tpl = None" and ok: "run_ok L gs tpl (restorable es') es'"
    by (auto simp: run_shape_def is_write_def)
  from assms es have "ev \<in> set es'" by (auto simp: is_write_def)
  with ok have "justified L gs tpl (restorable es') es' ev" by (simp add: run_ok_def list_all_iff)
  then have "justified L gs tpl (restorable ?es) ?es ev"
    by (rule justified_mono) (auto simp: es restorable_def)
  with es valid show thesis by (intro that [of gs tpl]) (simp_all add: reads_def)
qed

lemma create_justified:
  assumes "EvCreate obj \<in> set (gs_run L C req s)"
  obtains gs tpl where "reads (OGameServer gs) (gs_run L C req s)" and "reads (OGameTemplate tpl) (gs_run L C req s)"
    and "ValidateConfig L gs tpl = None" and "created_ok L gs tpl (restorable (gs_run L C req s)) obj"
  using assms by (rule write_justified) (auto simp: is_write_def justified_def intro: that)

lemma update_justified:
  assumes "EvUpdate obj \<in> set (gs_run L C req s)"
  obtains gs tpl where "reads (OGameServer gs) (gs_run L C req s)" and "reads (OGameTemplate tpl) (gs_run L C req s)"
    and "ValidateConfig L gs tpl = None" and "updated_ok L gs tpl (gs_run L C req s) obj"
  using assms by (rule write_justified) (auto simp: is_write_def justified_def intro: that)

lemma never_deletes: "EvDelete obj \<notin> set (gs_run L C req s)"
  by (rule notI, erule write_justified) (auto simp: is_write_def justified_def)

lemma status_justified:
  assumes "EvUpdateStatus (OGameServer g) \<in> set (gs_run L C req s)"
  obtains (observed) g0 gs tpl d now svcs where "same_object g0 gs" "reads (OGameServer gs) (gs_run L C req s)"
      "reads (ODeployment d) (gs_run L C req s)" "g = final_status now g0 tpl d svcs"
  | (failed) "gsPhase (gsStatus g) = PhaseDegraded \<or> gsPhase (gsStatus g) = PhasePending"
  | (storage) g0 now msg where
      "g = setCondition now g0 ConditionConfigValid ConditionFalse ''InvalidStorage'' msg"
proof -
  let ?es = "gs_run L C req s"
  from run_shape_events [of L C req s] assms consider
    (a) "gsPhase (gsStatus g) = PhaseDegraded \<or> gsPhase (gsStatus g) = PhasePending"
  | (b) gs tpl es' where "?es = EvRead (OGameServer gs) # EvRead (OGameTemplate tpl) # es'"
      "run_ok L gs tpl (restorable es') es'"
    unfolding run_shape_def by (auto simp: rejected_def template_missing_def)
  then show thesis
  proof cases
    case a
    then show ?thesis by (rule failed)
  next
    case b
    with assms have "status_ok gs tpl es' (OGameServer g)"
      by (auto simp: run_ok_def list_all_iff justified_def)
    then consider
      (1) g0 d now svcs where "same_object g0 gs" "EvRead (ODeployment d) \<in> set es'" "g = final_status now g0 tpl d svcs"
    | (2) "gsPhase (gsStatus g) = PhaseDegraded"
    | (3) g0 now msg where "g = setCondition now g0 ConditionConfigValid ConditionFalse ''InvalidStorage'' msg"
      unfolding status_ok_def object.case by blast
    then show ?thesis
    proof cases
      case 1
      with b(1) show ?thesis by (intro observed [of g0 gs d]) (simp_all add: reads_def)
    next
      case 2
      then show ?thesis by (intro failed disjI1)
    next
      case 3
      then show ?thesis by (rule storage)
    qed
  qed
qed

end
