(* ===== verification/GameServerDemo.thy ===== *)
theory GameServerDemo
  imports GameServerRuns Fixtures
begin

text \<open>
  Three reconciles evaluated on the demo cluster: a first one, one of a running server, and one that
  restores a world from a Backup. The witnesses of the properties use them.
\<close>

section \<open>Runs on the demo cluster\<close>

lemma same_object_setCondition [simp]:
  "ValidateConfig L (setCondition now gs t st r m) tpl = ValidateConfig L gs tpl"
  "BuildPVC L (setCondition now gs t st r m) tpl snap = BuildPVC L gs tpl snap"
  "BuildDeployment L (setCondition now gs t st r m) tpl = BuildDeployment L gs tpl"
  "BuildServices (setCondition now gs t st r m) tpl = BuildServices gs tpl"
  "desired_service_account (setCondition now gs t st r m) = desired_service_account gs"
  by (intro same_object_builders same_object_exposure same_object_names; simp)+

lemma demo_config_ok: "config_ok demo_server demo_template"
proof -
  have "Atoi ''16'' = Some 16" by code_simp
  then show ?thesis
    by (simp add: config_ok_def demo_defs fmpred_upd_fresh declared_key_def value_ok_def)
qed

lemma demo_valid [simp]: "ValidateConfig demo_lib demo_server demo_template = None"
  using ValidateConfig_None [of demo_lib] demo_config_ok by simp

lemma demo_pvc [simp]: "BuildPVC demo_lib demo_server demo_template snap = Inr (pvc_of demo_server ''20Gi'' snap)"
  by (simp add: BuildPVC_eq storage_size_def demo_defs)

lemma demo_facts [simp]:
  "tplSecurityProfile (tplSpec demo_template) = SecurityProfileRestricted"
  "gsRestoreFrom (gsSpec demo_server) = None"
  "mName (gsMeta demo_server) = ''midgard''" "mUID (gsMeta demo_server) = ''midgard-uid''"
  "mNamespace (gsMeta demo_server) = ''games''"
  by (simp_all add: demo_defs)

lemma demo_services [simp]:
  "BuildServices demo_server demo_template =
     [build_service demo_server ''NodePort'' [build_port demo_server demo_port],
      build_service demo_server ''ClusterIP'' [build_port demo_server demo_query_port]]"
  by (simp add: BuildServices_eq services_spec_def first_occurrences_def resolveExposure_def demo_defs)

definition fresh_cluster :: "int client" where
  "fresh_cluster = demo_client (Some demo_server) (Some demo_template) None [] None None None None None"

definition demo_owned :: "object_meta \<Rightarrow> object_meta" where
  "demo_owned m = m\<lparr>mOwnerReferences := [\<lparr>orKind = GameServerKind, orName = ''midgard'',
     orUID = ''midgard-uid'', orController = True\<rparr>]\<rparr>"

definition demo_deployment :: deployment where
  "demo_deployment = BuildDeployment demo_lib demo_server demo_template
     \<lparr>depMeta := demo_owned (depMeta (BuildDeployment demo_lib demo_server demo_template))\<rparr>"

definition demo_claim :: "string option \<Rightarrow> persistent_volume_claim" where
  "demo_claim snap = pvc_of demo_server ''20Gi'' snap
     \<lparr>pvcMeta := demo_owned (pvcMeta (pvc_of demo_server ''20Gi'' snap))\<rparr>"

lemmas reconcile_defs = events_def result_def GameServer_Reconcile_def set_condition_now_def reconcile_resolved_def
  ensureServiceAccount_def reconcile_storage_def resolveRestoreSource_def reconcile_pvc_def applyPVC_def
  reconcile_workload_def applyDeployment_def applyService_def report_status_def report_failure_def
  updateStatus_def IsNotFound_def demo_owned_def demo_deployment_def demo_claim_def Let_def

text \<open>A first reconcile of the demo server: everything is created, and the run ends with the error of the
  read after the creation of the first Service, which this cluster does not remember.\<close>

lemma fresh_run:
  "\<exists>svc. gs_run demo_lib fresh_cluster req (at_time t) =
     [EvRead (OGameServer demo_server), EvRead (OGameTemplate demo_template),
      EvCreate (OServiceAccount (desired_service_account demo_server)),
      EvCreate (OPVC (demo_claim None)), EvCreate (ODeployment demo_deployment), EvCreate (OService svc)]"
  by (simp add: fresh_cluster_def reconcile_defs)

text \<open>A later reconcile, of a server that runs: the claim has lost its labels.\<close>

definition drifted_claim :: persistent_volume_claim where
  "drifted_claim = demo_claim None\<lparr>pvcMeta := (pvcMeta (demo_claim None))\<lparr>mLabels := fmempty\<rparr>\<rparr>"

definition running_cluster :: "int32 \<Rightarrow> int client" where
  "running_cluster ready = demo_client (Some demo_server) (Some demo_template) None [] None None
     (Some drifted_claim) (Some (demo_deployment\<lparr>depReadyReplicas := ready\<rparr>))
     (Some (build_service demo_server ''NodePort'' []))"

lemma baseLabels_nonempty [simp]: "fmempty \<noteq> baseLabels gs" "baseLabels gs \<noteq> fmempty"
  by (metis baseLabels_lookup(1) fmempty_lookup option.distinct(1))+

lemma demo_running [simp]: "\<not> gsSuspend (gsSpec demo_server)"
  by (simp add: demo_defs)

lemma running_run:
  "EvUpdate (OPVC (demo_claim None)) \<in> set (gs_run demo_lib (running_cluster 1) req (at_time t))"
  "\<exists>g. EvUpdateStatus (OGameServer g) \<in> set (gs_run demo_lib (running_cluster 1) req (at_time t))
     \<and> gsPhase (gsStatus g) = PhaseReady"
  by (simp_all add: running_cluster_def drifted_claim_def reconcile_defs builder_simps status_of_def)
    (simp add: set_phase_def setCondition_def)?

text \<open>A first reconcile of a server that restores its world from a Backup.\<close>

definition restoring_server :: game_server where
  "restoring_server = demo_server\<lparr>gsSpec := demo_spec\<lparr>gsRestoreFrom := Some ''nightly-1''\<rparr>\<rparr>"

definition restoring_cluster :: "int client" where
  "restoring_cluster = demo_client (Some restoring_server) (Some demo_template)
     (Some (demo_backup ''nightly-1'' 0 False)) [] None None None None None"

lemma restoring_facts [simp]:
  "ValidateConfig demo_lib restoring_server demo_template = None"
  "BuildPVC demo_lib restoring_server demo_template snap = Inr (pvc_of restoring_server ''20Gi'' snap)"
  "gsRestoreFrom (gsSpec restoring_server) = Some ''nightly-1''"
  "gsMeta restoring_server = gsMeta demo_server"
  "BuildServices restoring_server demo_template =
     [build_service restoring_server ''NodePort'' [build_port restoring_server demo_port],
      build_service restoring_server ''ClusterIP'' [build_port restoring_server demo_query_port]]"
proof -
  have "config_ok restoring_server demo_template"
    using demo_config_ok by (simp add: config_ok_def restoring_server_def demo_server_def)
  then show "ValidateConfig demo_lib restoring_server demo_template = None"
    using ValidateConfig_None [of demo_lib] by simp
qed (simp_all add: BuildPVC_eq storage_size_def BuildServices_eq services_spec_def first_occurrences_def
    resolveExposure_def restoring_server_def demo_defs)

lemma restoring_run:
  "EvCreate (OPVC (pvc_of restoring_server ''20Gi'' (Some ''nightly-1'')
       \<lparr>pvcMeta := demo_owned (pvcMeta (pvc_of restoring_server ''20Gi'' (Some ''nightly-1'')))\<rparr>))
     \<in> set (gs_run demo_lib restoring_cluster req (at_time t))"
proof -
  have "bPhase (bStatus (demo_backup ''nightly-1'' 0 False)) = BackupPhaseReady"
    "bVolumeSnapshotName (bStatus (demo_backup ''nightly-1'' 0 False)) = ''nightly-1''"
    by (simp_all add: demo_defs)
  then show ?thesis
    by (simp add: restoring_cluster_def reconcile_defs)
qed

end
