(* ===== verification/BackupProperties.thy ===== *)
theory BackupProperties
  imports GameServerDemo
begin

text \<open>
  What a reconcile of a Backup does, for every API client and every world: \<open>backup_shape\<close> is the list of
  its API calls with its outcome, and \<open>mirror_ok\<close> the status it derives from a snapshot.
\<close>

section \<open>The specification\<close>

definition mirrored_phase :: "volume_snapshot \<Rightarrow> string" where
  "mirrored_phase vs =
     (case vsStatus vs of
        None \<Rightarrow> BackupPhaseInProgress
      | Some st \<Rightarrow>
          if vssReadyToUse st = Some True then BackupPhaseReady
          else (case vssError st of Some (Some _) \<Rightarrow> BackupPhaseFailed | _ \<Rightarrow> BackupPhaseInProgress))"

text \<open>The Backup that is written after the snapshot \<open>vs\<close> was read.\<close>

definition mirror_ok :: "backup \<Rightarrow> volume_snapshot \<Rightarrow> backup \<Rightarrow> bool" where
  "mirror_ok b vs b' \<longleftrightarrow>
     bMeta b' = bMeta b \<and> bSpec b' = bSpec b
     \<and> bPhase (bStatus b') = mirrored_phase vs
     \<and> bVolumeSnapshotName (bStatus b') = mName (vsMeta vs)
     \<and> map_option cStatus (find_cond ConditionBackupReady (bConditions (bStatus b'))) =
         Some (if mirrored_phase vs = BackupPhaseReady then ConditionTrue else ConditionFalse)"

text \<open>The outcome after a status update that answered \<open>eo\<close>: a Backup that is neither Ready nor Failed is
  looked at again.\<close>

definition mirror_outcome :: "volume_snapshot \<Rightarrow> go_error option \<Rightarrow> outcome" where
  "mirror_outcome vs eo =
     (if mirrored_phase vs = BackupPhaseInProgress \<and> eo = None then (Result (10 * Second), None)
      else (Result 0, eo))"

definition built_snapshot :: "lib \<Rightarrow> backup \<Rightarrow> game_server \<Rightarrow> volume_snapshot \<Rightarrow> bool" where
  "built_snapshot L b gs vs \<longleftrightarrow>
     (\<exists>m. SetControllerReference L (BackupKind, bMeta b) (vsMeta (BuildVolumeSnapshot b gs)) = Inr m
        \<and> vs = BuildVolumeSnapshot b gs\<lparr>vsMeta := m\<rparr>)"

definition backup_shape :: "lib \<Rightarrow> outcome \<Rightarrow> event list \<Rightarrow> bool" where
  "backup_shape L r es \<longleftrightarrow>
     (es = [] \<and> (\<exists>err. r = (Result 0, if IsNotFound err then None else Some err)))
     \<or> (\<exists>b err. es = [EvRead (OBackup b)] \<and> r = (Result 0, Some err))
     \<or> (\<exists>b b'. es = [EvRead (OBackup b), EvUpdateStatus (OBackup b')]
          \<and> bPhase (bStatus b') = BackupPhasePending \<and> r = (Result (30 * Second), None))
     \<or> (\<exists>b gs err. es = [EvRead (OBackup b), EvRead (OGameServer gs)] \<and> r = (Result 0, Some err))
     \<or> (\<exists>b gs vs err. built_snapshot L b gs vs
          \<and> es = [EvRead (OBackup b), EvRead (OGameServer gs), EvCreate (OVolumeSnapshot vs)]
          \<and> r = (Result 0, Some err))
     \<or> (\<exists>b gs vs b' eo. built_snapshot L b gs vs
          \<and> es = [EvRead (OBackup b), EvRead (OGameServer gs), EvCreate (OVolumeSnapshot vs),
                  EvUpdateStatus (OBackup b')]
          \<and> bPhase (bStatus b') = BackupPhaseInProgress \<and> r = (Result (5 * Second), eo))
     \<or> (\<exists>b gs vs b' eo. mirror_ok b vs b'
          \<and> es = [EvRead (OBackup b), EvRead (OGameServer gs), EvRead (OVolumeSnapshot vs),
                  EvUpdateStatus (OBackup b')]
          \<and> r = mirror_outcome vs eo)"

section \<open>Every run has the specified shape\<close>

declare BackupPhasePending_def [simp del] BackupPhaseInProgress_def [simp del]
  BackupPhaseReady_def [simp del] BackupPhaseFailed_def [simp del] ConditionBackupReady_def [simp del]
  ConditionSnapshotBound_def [simp del] BackupKind_def [simp del] ConditionTrue_def [simp del]
  ConditionFalse_def [simp del] Second_def [simp del]

lemma backup_phases_neq [simp]:
  "BackupPhaseReady \<noteq> BackupPhaseInProgress" "BackupPhaseFailed \<noteq> BackupPhaseInProgress"
  "BackupPhaseFailed \<noteq> BackupPhaseReady" "BackupPhaseInProgress \<noteq> BackupPhaseReady"
  "BackupPhasePending \<noteq> BackupPhaseReady" "BackupPhaseInProgress \<noteq> BackupPhaseFailed"
  "BackupPhaseReady \<noteq> BackupPhaseFailed" "BackupPhasePending \<noteq> BackupPhaseFailed"
  by (simp_all add: BackupPhaseReady_def BackupPhaseInProgress_def BackupPhaseFailed_def BackupPhasePending_def)

lemma set_backup_phase_simps [simp]:
  "bMeta (set_backup_phase ph b) = bMeta b" "bSpec (set_backup_phase ph b) = bSpec b"
  "bPhase (bStatus (set_backup_phase ph b)) = ph"
  "bVolumeSnapshotName (bStatus (set_backup_phase ph b)) = bVolumeSnapshotName (bStatus b)"
  by (simp_all add: set_backup_phase_def)

text \<open>Setting the condition Ready and writing the status: the last step of every branch.\<close>

lemma report_backup:
  assumes "\<And>now r. produces (k r) (\<lambda>a es. R a (EvUpdateStatus (OBackup (setBackupCondition now b t st reason msg)) # es))"
  shows "produces (do { b \<leftarrow> set_backup_condition_now C b t st reason msg;
      r \<leftarrow> updateBackupStatus C b; k r }) R"
  unfolding set_backup_condition_now_def updateBackupStatus_def
  by (intro produces_bind produces_Now produces_return produces_StatusUpdate) (use assms in simp)

lemmas backup_ready_simps = backup_cond.lookup_set updated_condition_def

definition same_backup :: "backup \<Rightarrow> volume_snapshot \<Rightarrow> backup \<Rightarrow> bool" where
  "same_backup b vs b' \<longleftrightarrow> bMeta b' = bMeta b \<and> bSpec b' = bSpec b
     \<and> bVolumeSnapshotName (bStatus b') = mName (vsMeta vs)"

definition mirror_post :: "backup \<Rightarrow> volume_snapshot \<Rightarrow> outcome \<Rightarrow> event list \<Rightarrow> bool" where
  "mirror_post b vs r es \<longleftrightarrow>
     (\<exists>b' eo. es = [EvUpdateStatus (OBackup b')] \<and> mirror_ok b vs b' \<and> r = mirror_outcome vs eo)"

lemma backup_waiting_produces:
  assumes "same_backup b vs b'" and "mirrored_phase vs = BackupPhaseInProgress"
  shows "produces (backup_waiting C b') (mirror_post b vs)"
  unfolding backup_waiting_def
proof (rule report_backup)
  fix now and r :: "go_error + backup"
  show "produces (case r of Inl err \<Rightarrow> return (Result 0, Some err) | Inr _ \<Rightarrow> return (Result (10 * Second), None))
      (\<lambda>a es. mirror_post b vs a (EvUpdateStatus (OBackup (setBackupCondition now
         (set_backup_phase BackupPhaseInProgress b') ConditionBackupReady ConditionFalse
         ''WaitingForReady'' ''VolumeSnapshot not yet ReadyToUse'')) # es))"
    using assms
    by (cases r) (auto intro!: produces_return simp: mirror_post_def mirror_ok_def same_backup_def
      backup_ready_simps mirror_outcome_def intro: exI [of _ "err_of r"])
qed

lemma final_backup_produces:
  assumes "same_backup b vs b'" and "mirrored_phase vs = ph" and "ph \<noteq> BackupPhaseInProgress"
    and "st = (if ph = BackupPhaseReady then ConditionTrue else ConditionFalse)"
  shows "produces (do { b \<leftarrow> set_backup_condition_now C (set_backup_phase ph b') ConditionBackupReady st reason msg;
      r \<leftarrow> updateBackupStatus C b; return (Result 0, err_of r) }) (mirror_post b vs)"
  by (rule report_backup, rule produces_return)
    (use assms in \<open>auto simp: mirror_post_def mirror_ok_def same_backup_def backup_ready_simps mirror_outcome_def\<close>)

lemma mirror_snapshot_produces: "produces (mirror_snapshot L C b vs) (mirror_post b vs)"
proof -
  let ?b = "b\<lparr>bStatus := (bStatus b)\<lparr>bVolumeSnapshotName := mName (vsMeta vs),
                      bObservedGeneration := mGeneration (bMeta b)\<rparr>\<rparr>"
  show ?thesis
  proof (cases "vsStatus vs")
    case None
    have "same_backup b vs ?b" by (simp add: same_backup_def)
    moreover have "mirrored_phase vs = BackupPhaseInProgress" by (simp add: mirrored_phase_def None)
    ultimately have "produces (backup_waiting C ?b) (mirror_post b vs)" by (rule backup_waiting_produces)
    then show ?thesis by (simp add: mirror_snapshot_def None)
  next
    case (Some st)
    have rest: "produces (do {
         let b'' = (case vssRestoreSize st of None \<Rightarrow> b'
           | Some q \<Rightarrow> b'\<lparr>bStatus := (bStatus b')\<lparr>bRestoreSize := QuantityString L q\<rparr>\<rparr>);
         let b'' = (case vssCreationTime st of None \<Rightarrow> b''
           | Some t \<Rightarrow> b''\<lparr>bStatus := (bStatus b'')\<lparr>bCreationTime := Some t\<rparr>\<rparr>);
         if vssReadyToUse st = Some True then do {
           b \<leftarrow> set_backup_condition_now C (set_backup_phase BackupPhaseReady b'') ConditionBackupReady
             ConditionTrue ''SnapshotReady'' ''VolumeSnapshot ReadyToUse'';
           r \<leftarrow> updateBackupStatus C b;
           return (Result 0, err_of r) }
         else (case vssError st of
             Some (Some msg) \<Rightarrow> do {
               b \<leftarrow> set_backup_condition_now C (set_backup_phase BackupPhaseFailed b'')
                 ConditionBackupReady ConditionFalse ''SnapshotError'' msg;
               r \<leftarrow> updateBackupStatus C b;
               return (Result 0, err_of r) }
           | _ \<Rightarrow> backup_waiting C b'') }) (mirror_post b vs)"
      if b': "same_backup b vs b'" for b'
    proof -
      let ?r = "case vssRestoreSize st of None \<Rightarrow> b'
           | Some q \<Rightarrow> b'\<lparr>bStatus := (bStatus b')\<lparr>bRestoreSize := QuantityString L q\<rparr>\<rparr>"
      let ?c = "case vssCreationTime st of None \<Rightarrow> ?r
           | Some t \<Rightarrow> ?r\<lparr>bStatus := (bStatus ?r)\<lparr>bCreationTime := Some t\<rparr>\<rparr>"
      have "same_backup b vs ?r" using b' by (auto simp: same_backup_def split: option.split)
      then have c: "same_backup b vs ?c" by (auto simp: same_backup_def split: option.split)
      show ?thesis
        unfolding Let_def
        by (intro produces_if produces_option final_backup_produces [OF c] backup_waiting_produces [OF c])
          (simp_all add: mirrored_phase_def Some)
    qed
    have "produces (case vssBoundContentName st of None \<Rightarrow> return ?b
         | Some content \<Rightarrow> set_backup_condition_now C ?b ConditionSnapshotBound ConditionTrue ''Bound''
             (''bound to VolumeSnapshotContent '' @ Quote content)) (\<lambda>b' es. es = [] \<and> same_backup b vs b')"
      unfolding set_backup_condition_now_def
      by (auto intro!: produces_option produces_return produces_bind produces_Now simp: same_backup_def)
    then show ?thesis
      unfolding mirror_snapshot_def Let_def Some option.case
      by (intro produces_bind) (erule produces_mono, use rest in \<open>simp add: Let_def\<close>)
  qed
qed

lemma shape_created:
  "built_snapshot L b gs vs \<Longrightarrow> bPhase (bStatus b') = BackupPhaseInProgress \<Longrightarrow>
   backup_shape L (Result (5 * Second), eo)
     [EvRead (OBackup b), EvRead (OGameServer gs), EvCreate (OVolumeSnapshot vs), EvUpdateStatus (OBackup b')]"
  unfolding backup_shape_def by blast

lemma shape_missing:
  "bPhase (bStatus b') = BackupPhasePending \<Longrightarrow>
   backup_shape L (Result (30 * Second), None) [EvRead (OBackup b), EvUpdateStatus (OBackup b')]"
  unfolding backup_shape_def by blast

lemma mirror_shape:
  "produces (mirror_snapshot L C b vs) (\<lambda>r es. backup_shape L r
     (EvRead (OBackup b) # EvRead (OGameServer gs) # EvRead (OVolumeSnapshot vs) # es))"
  using mirror_snapshot_produces
  by (rule produces_mono) (unfold mirror_post_def backup_shape_def, blast)

lemma created_shape:
  assumes "built_snapshot L b gs vs"
  shows "produces (do {
      b' \<leftarrow> set_backup_condition_now C (set_backup_phase BackupPhaseInProgress
         (b\<lparr>bStatus := (bStatus b)\<lparr>bVolumeSnapshotName := mName (vsMeta created)\<rparr>\<rparr>))
         ConditionSnapshotBound ConditionFalse ''Creating'' ''VolumeSnapshot created; waiting for bind'';
      r \<leftarrow> updateBackupStatus C b';
      return (Result (5 * Second), err_of r) })
    (\<lambda>r es. backup_shape L r (EvRead (OBackup b) # EvRead (OGameServer gs) # EvCreate (OVolumeSnapshot vs) # es))"
  by (rule report_backup, rule produces_return, rule shape_created [OF assms]) simp

lemma snapshot_shape:
  assumes "built_snapshot L b gs vs"
  shows "produces (reconcile_snapshot L C b vs)
    (\<lambda>r es. backup_shape L r (EvRead (OBackup b) # EvRead (OGameServer gs) # es))"
proof -
  have err: "backup_shape L (Result 0, Some err) [EvRead (OBackup b), EvRead (OGameServer gs)]"
    "backup_shape L (Result 0, Some err) [EvRead (OBackup b), EvRead (OGameServer gs), EvCreate (OVolumeSnapshot vs)]" for err
    unfolding backup_shape_def using assms by blast+
  show ?thesis
    unfolding reconcile_snapshot_def Let_def
    by (rule produces_bind, rule produces_Get)
      (auto intro!: produces_if produces_return produces_sum produces_bind [of "Create _ _ _"] produces_Create err
        created_shape [OF assms] mirror_shape)
qed

lemma backup_shape_holds: "produces (Backup_Reconcile L C req) (backup_shape L)"
proof -
  have missing: "produces (backup_missing_server C b) (\<lambda>r es. backup_shape L r (EvRead (OBackup b) # es))" for b
    unfolding backup_missing_server_def
    by (rule report_backup, rule produces_return, rule shape_missing) simp
  have scr: "produces (case SetControllerReference L (BackupKind, bMeta b) (vsMeta (BuildVolumeSnapshot b gs)) of
        Inl err \<Rightarrow> return (Result 0, Some err)
      | Inr m \<Rightarrow> reconcile_snapshot L C b (BuildVolumeSnapshot b gs\<lparr>vsMeta := m\<rparr>))
      (\<lambda>r es. backup_shape L r (EvRead (OBackup b) # EvRead (OGameServer gs) # es))" for b gs
    by (rule produces_sum, rule produces_return, unfold backup_shape_def, blast, fold backup_shape_def,
        rule snapshot_shape) (auto simp: built_snapshot_def)
  have err: "backup_shape L (Result 0, Some err) [EvRead (OBackup b)]" for err b
    by (simp add: backup_shape_def)
  have gone: "backup_shape L (Result 0, if IsNotFound err then None else Some err) []" for err
    unfolding backup_shape_def by (intro disjI1 conjI exI) simp_all
  have gone': "IsNotFound err \<Longrightarrow> backup_shape L (Result 0, None) []"
    "\<not> IsNotFound err \<Longrightarrow> backup_shape L (Result 0, Some err) []" for err
    using gone [of err] by simp_all
  show ?thesis
    unfolding Backup_Reconcile_def Let_def
    by (rule produces_bind, rule produces_Get)
      (auto intro!: produces_if produces_return produces_bind [of "Get _ _ _"] produces_Get err gone' missing scr)
qed

lemma backup_shape_events:
  "backup_shape L (result (Backup_Reconcile L C req) s) (events (Backup_Reconcile L C req) s)"
  by (rule produces_eventsD) (rule backup_shape_holds)

section \<open>Properties\<close>

text \<open>The status of a Backup mirrors its VolumeSnapshot: whenever a reconcile writes the phase Ready, it has
  read a snapshot that is ready to use, and the status names that snapshot; it writes Failed only after
  reading a snapshot with an error and not ready; and the condition Ready is True exactly then.\<close>
theorem backup_status_mirrors_snapshot:
  assumes "EvUpdateStatus (OBackup b') \<in> set (events (Backup_Reconcile L C req) s)"
    and "bPhase (bStatus b') = BackupPhaseReady \<or> bPhase (bStatus b') = BackupPhaseFailed"
  shows "\<exists>vs st. reads (OVolumeSnapshot vs) (events (Backup_Reconcile L C req) s) \<and> vsStatus vs = Some st
    \<and> bVolumeSnapshotName (bStatus b') = mName (vsMeta vs)
    \<and> (bPhase (bStatus b') = BackupPhaseReady) = (vssReadyToUse st = Some True)
    \<and> (bPhase (bStatus b') = BackupPhaseFailed \<longrightarrow> (\<exists>msg. vssError st = Some (Some msg)))
    \<and> map_option cStatus (find_cond ConditionBackupReady (bConditions (bStatus b'))) =
        Some (if vssReadyToUse st = Some True then ConditionTrue else ConditionFalse)"
proof -
  let ?es = "events (Backup_Reconcile L C req) s"
  have "\<exists>b gs vs. mirror_ok b vs b' \<and>
      ?es = [EvRead (OBackup b), EvRead (OGameServer gs), EvRead (OVolumeSnapshot vs), EvUpdateStatus (OBackup b')]"
    using backup_shape_events [of L C req s, unfolded backup_shape_def] assms
    by (elim disjE exE conjE) simp_all
  then obtain b gs vs where ok: "mirror_ok b vs b'"
    and es: "?es = [EvRead (OBackup b), EvRead (OGameServer gs), EvRead (OVolumeSnapshot vs), EvUpdateStatus (OBackup b')]"
    by blast
  from ok assms(2) have ph: "mirrored_phase vs = bPhase (bStatus b')" by (simp add: mirror_ok_def)
  with assms(2) obtain st where st: "vsStatus vs = Some st"
    by (cases "vsStatus vs") (auto simp: mirrored_phase_def)
  have ready: "(mirrored_phase vs = BackupPhaseReady) = (vssReadyToUse st = Some True)"
    by (auto simp: mirrored_phase_def st split: option.splits)
  have failed: "mirrored_phase vs = BackupPhaseFailed \<longrightarrow> (\<exists>msg. vssError st = Some (Some msg))"
    by (auto simp: mirrored_phase_def st split: option.splits if_splits)
  from ok have "bVolumeSnapshotName (bStatus b') = mName (vsMeta vs)"
    and "map_option cStatus (find_cond ConditionBackupReady (bConditions (bStatus b'))) =
      Some (if mirrored_phase vs = BackupPhaseReady then ConditionTrue else ConditionFalse)"
    unfolding mirror_ok_def by blast+
  moreover have "reads (OVolumeSnapshot vs) ?es" by (simp add: reads_def es)
  ultimately show ?thesis
    using st ready failed unfolding ph by (intro exI [of _ vs] exI [of _ st]) simp
qed

section \<open>Witnesses\<close>

definition demo_snapshot :: volume_snapshot where
  "demo_snapshot = (BuildVolumeSnapshot (demo_backup ''nightly-1'' 0 False) demo_server)
     \<lparr>vsStatus := Some \<lparr>vssBoundContentName = Some ''content-1'', vssReadyToUse = Some True,
        vssCreationTime = Some 5, vssRestoreSize = Some ''20Gi'', vssError = None\<rparr>\<rparr>"

definition backup_cluster :: "int client" where
  "backup_cluster = demo_client (Some demo_server) None (Some (demo_backup ''nightly-1'' 0 False)) [] None
     (Some demo_snapshot) None None None"

lemma backup_run:
  "result (Backup_Reconcile demo_lib backup_cluster req) (at_time t) = (Result 0, None)"
  "\<exists>b'. EvUpdateStatus (OBackup b') \<in> set (events (Backup_Reconcile demo_lib backup_cluster req) (at_time t))
     \<and> bPhase (bStatus b') = BackupPhaseReady"
  by (simp_all add: backup_cluster_def Backup_Reconcile_def reconcile_snapshot_def mirror_snapshot_def
      demo_snapshot_def set_backup_condition_now_def updateBackupStatus_def events_def result_def Let_def)

theorem backup_status_mirrors_snapshot_witness:
  "\<exists>vs st. reads (OVolumeSnapshot vs) (events (Backup_Reconcile demo_lib backup_cluster (''games'', ''nightly-1'')) (at_time 0))
     \<and> vsStatus vs = Some st"
proof -
  obtain b' where b': "EvUpdateStatus (OBackup b') \<in>
      set (events (Backup_Reconcile demo_lib backup_cluster (''games'', ''nightly-1'')) (at_time 0))"
    "bPhase (bStatus b') = BackupPhaseReady"
    using backup_run(2) by blast
  from backup_status_mirrors_snapshot [OF b'(1)] b'(2) show ?thesis by blast
qed

end
