(* ===== verification/StampFacts.thy ===== *)
theory StampFacts
  imports ScheduleController
begin

text \<open>
  The stamp in a Backup's name determines the minute of its fire time: the date arithmetic and the
  decimal fields are inverted, so two runs of a schedule never share a name. The names are what makes
  \<open>spawnBackup\<close> idempotent.
\<close>

section \<open>Decimal fields\<close>

lemma digit_val_char: "d < 10 \<Longrightarrow> digit_val (digit_char d) = Some d"
  by (simp add: digit_val_def digit_char_def Let_def)

lemma parse_digits_append:
  "parse_digits acc (xs @ ys) = (case parse_digits acc xs of None \<Rightarrow> None | Some a \<Rightarrow> parse_digits a ys)"
  by (induction xs arbitrary: acc) (auto split: option.splits)

lemma parse_nat_digits: "parse_digits 0 (nat_digits n) = Some n"
proof (induction n rule: nat_digits.induct)
  case (1 n)
  then show ?case
    by (subst nat_digits.simps) (auto simp: parse_digits_append digit_val_char)
qed

lemma parse_zeros: "parse_digits 0 (replicate k (CHR ''0'') @ ds) = parse_digits 0 ds"
proof (induction k)
  case (Suc k)
  have "digit_val (CHR ''0'') = Some 0" by (simp add: digit_val_def)
  with Suc show ?case by simp
qed simp

lemma nat_digits_length: "n < 10 ^ w \<Longrightarrow> w > 0 \<Longrightarrow> length (nat_digits n) \<le> w"
proof (induction n arbitrary: w rule: nat_digits.induct)
  case (1 n)
  show ?case
  proof (cases "n < 10")
    case True
    then show ?thesis using "1.prems" by (subst nat_digits.simps) simp
  next
    case False
    with "1.prems" obtain v where v: "w = Suc v" "v > 0"
      by (cases w; cases "w - 1") auto
    with "1.prems"(1) have "n div 10 < 10 ^ v" by (simp add: less_mult_imp_div_less)
    with False v "1.IH" [of v] show ?thesis by (subst nat_digits.simps) simp
  qed
qed

lemma pad_field_facts:
  assumes "0 \<le> i" and "i < 10 ^ w" and "w > 0"
  shows "length (pad_field w i) = w" and "parse_digits 0 (pad_field w i) = Some (nat i)"
proof -
  have "nat i < 10 ^ w" using assms by (simp add: nat_less_iff)
  with assms(1,3) nat_digits_length [of "nat i" w] show "length (pad_field w i) = w"
    by (simp add: pad_field_def Let_def)
  show "parse_digits 0 (pad_field w i) = Some (nat i)"
    using assms(1) by (simp add: pad_field_def Let_def parse_zeros parse_nat_digits)
qed

lemma pad_field_inject:
  assumes "pad_field w i = pad_field w j" and "0 \<le> i" "i < 10 ^ w" "0 \<le> j" "j < 10 ^ w" "w > 0"
  shows "i = j"
  using pad_field_facts(2) [of i w] pad_field_facts(2) [of j w] assms by simp

section \<open>Dates\<close>

text \<open>A quotient that is capped at 3: the last of the four parts takes one day more.\<close>

lemma capped_div:
  fixes r :: int
  assumes "n = min 3 (r div k)" and "0 \<le> r" and "r \<le> 4 * k" and "0 < k"
  shows "0 \<le> n" and "n \<le> 3" and "0 \<le> r - k * n" and "r - k * n \<le> k" and "n < 3 \<Longrightarrow> r - k * n < k"
proof -
  have e: "r = k * (r div k) + r mod k" "0 \<le> r mod k" "r mod k < k" using assms(4) by simp_all
  have q: "0 \<le> r div k" "r div k \<le> 4"
    using assms(2,4) zdiv_mono1 [OF assms(3,4)] by (simp_all add: pos_imp_zdiv_nonneg_iff)
  show "0 \<le> n" "n \<le> 3" using q by (simp_all add: assms(1))
  consider "r div k \<le> 3" | "r div k = 4" using q by linarith
  then show "0 \<le> r - k * n" "r - k * n \<le> k" "n < 3 \<Longrightarrow> r - k * n < k"
    by (cases; use e assms(1,3) in \<open>simp add: min_def; linarith\<close>)+
qed

lemma last_day_leap:
  fixes a b c :: int
  assumes "y = 400 * a + 100 * b + 4 * c + 4" and "0 \<le> c" "c \<le> 24" and "c = 24 \<Longrightarrow> b = 3"
  shows "is_leap y"
proof (cases "c = 24")
  case True
  with assms(1,4) have "y = 400 * (a + 1)" by simp
  then show ?thesis by (simp add: is_leap_def)
next
  case False
  with assms(2,3) have "4 * c + 4 < 100" "0 < 4 * c + 4" by auto
  moreover have "y = (4 * c + 4) + 100 * (4 * a + b)" using assms(1) by simp
  ultimately have "y mod 100 \<noteq> 0" by (simp only: mod_mult_self2 mod_pos_pos_trivial)
  moreover have "y = 4 * (100 * a + 25 * b + c + 1)" using assms(1) by simp
  ultimately show ?thesis by (simp add: is_leap_def)
qed

lemma year_day_inverse:
  assumes "year_day d = (y, yd)"
  shows "d = 365 * (y - 1) + (y - 1) div 4 - (y - 1) div 100 + (y - 1) div 400 + yd"
    and "0 \<le> yd" and "yd < (if is_leap y then 366 else 365)"
proof -
  define n400 where "n400 = d div 146097"
  define r400 where "r400 = d mod 146097"
  define n100 where "n100 = min 3 (r400 div 36524)"
  define r100 where "r100 = r400 - 36524 * n100"
  define n4 where "n4 = r100 div 1461"
  define r4 where "r4 = r100 mod 1461"
  define n1 where "n1 = min 3 (r4 div 365)"
  have "year_day d = (400 * n400 + 100 * n100 + 4 * n4 + n1 + 1, r4 - 365 * n1)"
    by (simp only: year_day_def Let_def n1_def r4_def n4_def r100_def n100_def r400_def n400_def)
  with assms have y: "y = 400 * n400 + 100 * n100 + 4 * n4 + n1 + 1" and yd: "yd = r4 - 365 * n1"
    by simp_all
  have d: "d = 146097 * n400 + r400" "0 \<le> r400" "r400 < 146097"
    by (simp_all add: n400_def r400_def)
  have n100: "0 \<le> n100" "n100 \<le> 3" "0 \<le> r100" "r100 \<le> 36524" "n100 < 3 \<Longrightarrow> r100 < 36524"
    unfolding r100_def by (rule capped_div [OF n100_def]; use d in simp)+
  have r100: "r100 = 1461 * n4 + r4" "0 \<le> r4" "r4 < 1461" by (simp_all add: n4_def r4_def)
  have n4: "0 \<le> n4" "n4 \<le> 24" using n100(3,4) r100 by linarith+
  have n1: "0 \<le> n1" "n1 \<le> 3" "0 \<le> yd" "yd \<le> 365" "n1 < 3 \<Longrightarrow> yd < 365"
    unfolding yd by (rule capped_div [OF n1_def]; use r100 in simp)+
  have q4: "(y - 1) div 4 = 100 * n400 + 25 * n100 + n4"
    by (rule int_div_pos_eq [of _ _ _ n1]) (use y n1(1,2) in \<open>simp_all add: algebra_simps\<close>)
  have q100: "(y - 1) div 100 = 4 * n400 + n100"
    by (rule int_div_pos_eq [of _ _ _ "4 * n4 + n1"]) (use y n4 n1(1,2) in \<open>simp_all add: algebra_simps\<close>)
  have q400: "(y - 1) div 400 = n400"
    by (rule int_div_pos_eq [of _ _ _ "100 * n100 + 4 * n4 + n1"]) (use y n4 n1(1,2) n100(1,2) in \<open>simp_all add: algebra_simps\<close>)
  show "d = 365 * (y - 1) + (y - 1) div 4 - (y - 1) div 100 + (y - 1) div 400 + yd"
    unfolding q4 q100 q400 using d(1) r100(1) y yd by (simp add: r100_def)
  show "0 \<le> yd" by (rule n1)
  show "yd < (if is_leap y then 366 else 365)"
  proof (cases "yd = 365")
    case False
    with n1 show ?thesis by simp
  next
    case True
    with n1 have n1': "n1 = 3" by linarith
    with True yd have r4: "r4 = 1460" by simp
    have late: "n4 = 24 \<Longrightarrow> n100 = 3" using n100 r100 r4 by linarith
    have "is_leap y"
      by (rule last_day_leap [of _ n400 n100 n4]) (use y n1' n4 late in simp_all)
    with True show ?thesis by simp
  qed
qed

lemma month_day_table:
  "list_all (\<lambda>yd. list_all (\<lambda>leap. leap \<or> yd < 365 \<longrightarrow>
     (case month_day leap yd of (m, day) \<Rightarrow>
        1 \<le> m \<and> m \<le> 12 \<and> 1 \<le> day \<and> day \<le> 31
        \<and> map_of (days_before leap) m = Some (yd - day + 1))) [True, False]) [0..365]"
  by code_simp

lemma month_day_inverse:
  assumes "0 \<le> yd" and "yd < (if leap then 366 else 365)" and "month_day leap yd = (m, day)"
  shows "1 \<le> m \<and> m \<le> 12 \<and> 1 \<le> day \<and> day \<le> 31 \<and> map_of (days_before leap) m = Some (yd - day + 1)"
proof -
  have yd: "yd \<in> set [0..365]" and leap: "leap \<in> set [True, False]" using assms by (auto split: if_splits)
  have "leap \<or> yd < 365 \<longrightarrow> (case month_day leap yd of (m, day) \<Rightarrow>
        1 \<le> m \<and> m \<le> 12 \<and> 1 \<le> day \<and> day \<le> 31
        \<and> map_of (days_before leap) m = Some (yd - day + 1))"
    using bspec [OF bspec [OF month_day_table [unfolded list_all_iff] yd] leap] .
  then show ?thesis using assms(2,3) by (simp split: if_splits)
qed

text \<open>Of two days the date determines the day.\<close>

lemma date_inject:
  assumes "year_day d = (y, yd)" and "year_day d' = (y, yd')"
    and "month_day (is_leap y) yd = (m, day)" and "month_day (is_leap y) yd' = (m, day)"
  shows "d = d'"
proof -
  have "map_of (days_before (is_leap y)) m = Some (yd - day + 1)"
    and "map_of (days_before (is_leap y)) m = Some (yd' - day + 1)"
    using month_day_inverse [OF year_day_inverse(2,3) [OF assms(1)] assms(3)]
      month_day_inverse [OF year_day_inverse(2,3) [OF assms(2)] assms(4)] by auto
  then have "yd = yd'" by simp
  then show ?thesis using year_day_inverse(1) [OF assms(1)] year_day_inverse(1) [OF assms(2)] by simp
qed

section \<open>The stamp\<close>

text \<open>The instants whose year has four digits; an instant on a full minute is a multiple of a minute.\<close>

definition four_digit_year :: "gotime \<Rightarrow> bool" where
  "four_digit_year t \<longleftrightarrow> 0 \<le> fst (year_day (civil_days t)) \<and> fst (year_day (civil_days t)) \<le> 9999"

definition full_minute :: "gotime \<Rightarrow> bool" where
  "full_minute t \<longleftrightarrow> t mod Minute = 0"

definition day_minutes :: "gotime \<Rightarrow> int" where
  "day_minutes t = (t - zero_time) mod (24 * Hour) div Minute"

lemma full_minute_split:
  assumes "full_minute t"
  shows "t - zero_time = civil_days t * (24 * Hour) + day_minutes t * Minute"
proof -
  have z: "zero_time mod Minute = 0" by (simp add: zero_time_def)
  with assms have "(t - zero_time) mod Minute = 0"
    unfolding full_minute_def by (metis mod_diff_cong mod_0 diff_0_right)
  then have "(t - zero_time) mod (24 * Hour) mod Minute = 0"
    by (subst mod_mod_cancel) simp_all
  then have "(t - zero_time) mod (24 * Hour) = day_minutes t * Minute"
    unfolding day_minutes_def using mult_div_mod_eq [of Minute "(t - zero_time) mod (24 * Hour)"] by simp
  then show ?thesis
    unfolding civil_days_def using div_mult_mod_eq [of "t - zero_time" "24 * Hour"] by simp
qed

lemma day_minutes_bounds: "0 \<le> day_minutes t" "day_minutes t < 1440"
proof -
  have "0 \<le> (t - zero_time) mod (24 * Hour)" "(t - zero_time) mod (24 * Hour) < 24 * Hour" by simp_all
  then show "0 \<le> day_minutes t" "day_minutes t < 1440"
    by (simp_all add: day_minutes_def)
qed

lemma hour_bounds:
  assumes "0 \<le> x" and "(x :: int) < 1440"
  shows "0 \<le> x div 60 \<and> x div 60 < 10 ^ 2 \<and> 0 \<le> x mod 60 \<and> x mod 60 < 10 ^ 2"
proof -
  have "x div 60 \<le> 1440 div 60" using assms(2) by (intro zdiv_mono1) simp_all
  moreover have "0 \<le> x div 60" using assms(1) by (simp add: pos_imp_zdiv_nonneg_iff)
  moreover have "0 \<le> x mod 60" "x mod 60 < 60" by simp_all
  ultimately show ?thesis by simp
qed

definition stamp_fields :: "int \<Rightarrow> int \<Rightarrow> int \<Rightarrow> int \<Rightarrow> int \<Rightarrow> string" where
  "stamp_fields y m d h i =
     pad_field 4 y @ pad_field 2 m @ pad_field 2 d @ ''-'' @ pad_field 2 h @ pad_field 2 i"

definition in_field :: "nat \<Rightarrow> int \<Rightarrow> bool" where
  "in_field w i \<longleftrightarrow> 0 \<le> i \<and> i < 10 ^ w \<and> w > 0"

lemma in_field_length: "in_field w i \<Longrightarrow> length (pad_field w i) = w"
  by (simp add: in_field_def pad_field_facts)

lemma in_field_inject: "pad_field w i = pad_field w j \<Longrightarrow> in_field w i \<Longrightarrow> in_field w j \<Longrightarrow> i = j"
  unfolding in_field_def by (elim conjE) (rule pad_field_inject)

lemma stamp_fields_inject:
  assumes "stamp_fields y m d h i = stamp_fields y' m' d' h' i'"
    and b: "in_field 4 y" "in_field 2 m" "in_field 2 d" "in_field 2 h" "in_field 2 i"
    and b': "in_field 4 y'" "in_field 2 m'" "in_field 2 d'" "in_field 2 h'" "in_field 2 i'"
  shows "y = y'" "m = m'" "d = d'" "h = h'" "i = i'"
proof -
  have "pad_field 4 y = pad_field 4 y' \<and> pad_field 2 m = pad_field 2 m' \<and> pad_field 2 d = pad_field 2 d'
      \<and> pad_field 2 h = pad_field 2 h' \<and> pad_field 2 i = pad_field 2 i'"
    using assms(1) b [THEN in_field_length] b' [THEN in_field_length] by (simp add: stamp_fields_def)
  then show "y = y'" "m = m'" "d = d'" "h = h'" "i = i'"
    using b b' by (blast dest: in_field_inject)+
qed

lemma FormatStamp_fields:
  assumes "year_day (civil_days t) = (y, yd)" and "month_day (is_leap y) yd = (m, d)"
  shows "FormatStamp t = stamp_fields y m d (day_minutes t div 60) (day_minutes t mod 60)"
  by (simp only: FormatStamp_def assms prod.case Let_def day_minutes_def stamp_fields_def)

lemma stamp_bounds:
  assumes "year_day (civil_days t) = (y, yd)" and "month_day (is_leap y) yd = (m, d)" and "four_digit_year t"
  shows "in_field 4 y" "in_field 2 m" "in_field 2 d"
    "in_field 2 (day_minutes t div 60)" "in_field 2 (day_minutes t mod 60)"
proof -
  show "in_field 4 y" using assms(1,3) by (simp add: four_digit_year_def in_field_def)
  show "in_field 2 m" "in_field 2 d"
    using month_day_inverse [OF year_day_inverse(2,3) [OF assms(1)] assms(2)] by (simp_all add: in_field_def)
  show "in_field 2 (day_minutes t div 60)" "in_field 2 (day_minutes t mod 60)"
    using hour_bounds [OF day_minutes_bounds [of t]] by (simp_all only: in_field_def) simp_all
qed

lemma FormatStamp_inject:
  assumes eq: "FormatStamp t = FormatStamp t'"
    and f: "four_digit_year t" and f': "four_digit_year t'" and "full_minute t" "full_minute t'"
  shows "t = t'"
proof -
  obtain y yd where yd: "year_day (civil_days t) = (y, yd)" by (cases "year_day (civil_days t)")
  obtain y' yd' where yd': "year_day (civil_days t') = (y', yd')" by (cases "year_day (civil_days t')")
  obtain m d where md: "month_day (is_leap y) yd = (m, d)" by (cases "month_day (is_leap y) yd")
  obtain m' d' where md': "month_day (is_leap y') yd' = (m', d')" by (cases "month_day (is_leap y') yd'")
  note fields = stamp_fields_inject [OF eq [unfolded FormatStamp_fields [OF yd md] FormatStamp_fields [OF yd' md']]
      stamp_bounds [OF yd md f] stamp_bounds [OF yd' md' f']]
  have days: "civil_days t = civil_days t'"
    by (rule date_inject [OF yd yd' [folded fields(1)] md]) (use md' fields(1,2,3) in simp)
  have minutes: "day_minutes t = day_minutes t'"
    using div_mult_mod_eq [of "day_minutes t" 60] div_mult_mod_eq [of "day_minutes t'" 60]
    unfolding fields(4,5) by (rule trans [OF sym])
  show ?thesis
    using full_minute_split [OF assms(4)] full_minute_split [OF assms(5)] unfolding days minutes
    by (metis diff_add_cancel)
qed

end
