(* ===== verification/ScheduleFacts.thy ===== *)
theory ScheduleFacts
  imports StampFacts GameServerDemo
begin

text \<open>
  The specification of a reconcile of a BackupSchedule, for every client and every world: \<open>schedule_shape\<close>
  says which lists of API calls a run can make (at most one creation, then retention, the refresh of the
  children, the status) and \<open>surplus\<close> which Backups retention deletes.
\<close>

section \<open>The specification\<close>

abbreviation same_schedule :: "backup_schedule \<Rightarrow> backup_schedule \<Rightarrow> bool" where
  "same_schedule a b \<equiv> bsMeta a = bsMeta b \<and> bsSpec a = bsSpec b"

abbreviation last_run :: "backup_schedule \<Rightarrow> gotime option" where
  "last_run bs \<equiv> bssLastScheduleTime (bsStatus bs)"

definition next_fire :: "lib \<Rightarrow> gotime \<Rightarrow> cron_schedule \<Rightarrow> location \<Rightarrow> backup_schedule \<Rightarrow> gotime" where
  "next_fire L now sched loc bs = CronNext L sched loc (reference_time now bs)"

text \<open>The time zone and the cron expression of a schedule, when both parse.\<close>

definition schedule_parsed :: "lib \<Rightarrow> backup_schedule \<Rightarrow> (location \<times> cron_schedule) option" where
  "schedule_parsed L bs =
     (case (loadLocation L (bssTimeZone (bsSpec bs)), ParseCron L (bssSchedule (bsSpec bs))) of
        (Inr loc, Inr sched) \<Rightarrow> Some (loc, sched)
      | _ \<Rightarrow> None)"

definition due :: "lib \<Rightarrow> gotime \<Rightarrow> cron_schedule \<Rightarrow> location \<Rightarrow> backup_schedule \<Rightarrow> bool" where
  "due L now sched loc bs \<longleftrightarrow> \<not> bssSuspend (bsSpec bs) \<and> next_fire L now sched loc bs \<le> now"

text \<open>The Backup that a run creates: the one of this fire time, owned by the schedule.\<close>

definition spawned :: "lib \<Rightarrow> backup_schedule \<Rightarrow> gotime \<Rightarrow> event list \<Rightarrow> bool" where
  "spawned L bs fire es \<longleftrightarrow>
     (\<exists>m. SetControllerReference L (BackupScheduleKind, bsMeta bs) (bMeta (scheduled_backup bs fire)) = Inr m
        \<and> es = [EvCreate (OBackup (scheduled_backup bs fire\<lparr>bMeta := m\<rparr>))])"

text \<open>The Backups past the first \<open>keep\<close> that are not retained forever, of a list sorted newest first.\<close>

definition surplus :: "int \<Rightarrow> backup list \<Rightarrow> backup list" where
  "surplus keep bs = drop (nat keep) (filter (\<lambda>b. \<not> bRetainForever (bSpec b)) bs)"

definition retention_ok :: "lib \<Rightarrow> backup_schedule \<Rightarrow> event list \<Rightarrow> bool" where
  "retention_ok L bs es \<longleftrightarrow>
     es = [] \<or> (\<exists>items k. es = map (EvRead \<circ> OBackup) items
       @ map (EvDelete \<circ> OBackup) (take k (surplus (effective_keep bs) (SortNewestFirst L items))))"

definition refresh_ok :: "event list \<Rightarrow> bool" where
  "refresh_ok es \<longleftrightarrow> (\<exists>items. es = map (EvRead \<circ> OBackup) items)"

definition finished :: "lib \<Rightarrow> backup_schedule \<Rightarrow> outcome \<Rightarrow> event list \<Rightarrow> bool" where
  "finished L bs r es \<longleftrightarrow>
     (\<exists>ret ref bs'. es = ret @ ref @ [EvUpdateStatus (OBackupSchedule bs')]
        \<and> retention_ok L bs ret \<and> refresh_ok ref \<and> same_schedule bs' bs \<and> last_run bs' = last_run bs)
     \<and> ((\<exists>err. r = (Result 0, Some err)) \<or> (\<exists>wait \<ge> Minute. r = (Result wait, None)))"

text \<open>A run that found the time to be \<open>now\<close>.\<close>

definition schedule_shape :: "lib \<Rightarrow> gotime \<Rightarrow> outcome \<Rightarrow> event list \<Rightarrow> bool" where
  "schedule_shape L now r es \<longleftrightarrow>
     es = []
     \<or> (\<exists>bs bs' eo. es = [EvRead (OBackupSchedule bs), EvUpdateStatus (OBackupSchedule bs')]
          \<and> same_schedule bs' bs \<and> last_run bs' = last_run bs \<and> r = (Result (5 * Minute), eo))
     \<or> (\<exists>bs sched loc sp. es = EvRead (OBackupSchedule bs) # sp \<and> schedule_parsed L bs = Some (loc, sched)
          \<and> due L now sched loc bs \<and> (sp = [] \<or> spawned L bs (next_fire L now sched loc bs) sp)
          \<and> r = (Result (30 * Second), None))
     \<or> (\<exists>bs sched loc sp fin. es = EvRead (OBackupSchedule bs) # sp @ fin \<and> schedule_parsed L bs = Some (loc, sched)
          \<and> due L now sched loc bs \<and> spawned L bs (next_fire L now sched loc bs) sp
          \<and> finished L (bs\<lparr>bsStatus := (bsStatus bs)
               \<lparr>bssLastScheduleTime := Some (next_fire L now sched loc bs)\<rparr>\<rparr>) r fin)
     \<or> (\<exists>bs sched loc fin. es = EvRead (OBackupSchedule bs) # fin \<and> schedule_parsed L bs = Some (loc, sched)
          \<and> \<not> due L now sched loc bs \<and> finished L bs r fin)"

section \<open>Every run has the specified shape\<close>

declare BackupScheduleKind_def [simp del] ScheduleValid_def [simp del] Minute_def [simp del]
  Second_def [simp del] Hour_def [simp del] ConditionTrue_def [simp del] ConditionFalse_def [simp del]

lemma retention_loop_produces:
  "produces (retention_loop C keep kept bs) (\<lambda>r es. \<exists>k. es = map (EvDelete \<circ> OBackup)
      (take k (surplus (keep - kept) bs)) \<and> (r = None \<longrightarrow> length (surplus (keep - kept) bs) \<le> k))"
proof (induction bs arbitrary: kept)
  case Nil
  show ?case by (simp add: surplus_def produces_return)
next
  case (Cons b bs)
  consider (retained) "bRetainForever (bSpec b)" | (kept) "\<not> bRetainForever (bSpec b)" "kept < keep"
    | (surplus) "\<not> bRetainForever (bSpec b)" "\<not> kept < keep" by blast
  then show ?case
  proof cases
    case retained
    then have "surplus (keep - kept) (b # bs) = surplus (keep - kept) bs" by (simp add: surplus_def)
    with retained Cons.IH [of kept] show ?thesis by simp
  next
    case kept
    then have "nat (keep - kept) = Suc (nat (keep - (kept + 1)))" by simp
    with kept have "surplus (keep - kept) (b # bs) = surplus (keep - (kept + 1)) bs"
      by (simp add: surplus_def)
    with kept Cons.IH [of "kept + 1"] show ?thesis by simp
  next
    case surplus
    then have s: "surplus (keep - kept) (b # bs) = b # surplus (keep - kept) bs"
      by (simp add: surplus_def)
    have rest: "produces (retention_loop C keep kept bs) (\<lambda>r es. \<exists>k. EvDelete (OBackup b) # es =
        map (EvDelete \<circ> OBackup) (take k (surplus (keep - kept) (b # bs)))
        \<and> (r = None \<longrightarrow> length (surplus (keep - kept) (b # bs)) \<le> k))"
    proof (rule produces_mono [OF Cons.IH [of kept]], elim exE conjE)
      fix r es k
      assume "es = map (EvDelete \<circ> OBackup) (take k (surplus (keep - kept) bs))"
        and "r = None \<longrightarrow> length (surplus (keep - kept) bs) \<le> k"
      then show "\<exists>k. EvDelete (OBackup b) # es = map (EvDelete \<circ> OBackup) (take k (surplus (keep - kept) (b # bs)))
          \<and> (r = None \<longrightarrow> length (surplus (keep - kept) (b # bs)) \<le> k)"
        by (intro exI [of _ "Suc k"]) (simp add: s)
    qed
    have stop: "\<exists>k. [EvDelete (OBackup b)] = map (EvDelete \<circ> OBackup) (take k (surplus (keep - kept) (b # bs)))
        \<and> (Some err = None \<longrightarrow> length (surplus (keep - kept) (b # bs)) \<le> k)" for err :: go_error
      by (intro exI [of _ 1]) (simp add: s)
    have next_one: "produces (case r of
          Some err \<Rightarrow> if \<not> IsNotFound err then return (Some err) else retention_loop C keep kept bs
        | None \<Rightarrow> retention_loop C keep kept bs)
        (\<lambda>r es. \<exists>k. EvDelete (OBackup b) # es = map (EvDelete \<circ> OBackup) (take k (surplus (keep - kept) (b # bs)))
          \<and> (r = None \<longrightarrow> length (surplus (keep - kept) (b # bs)) \<le> k))" for r
      by (intro produces_option produces_if rest, rule produces_return, rule stop)
    show ?thesis
      unfolding retention_loop.simps if_not_P [OF surplus(1)] if_not_P [OF surplus(2)]
      by (rule produces_bind, rule produces_Delete, unfold append_Cons append_Nil, rule next_one)
  qed
qed

lemma retention_produces:
  "produces (applyRetention L C bs) (\<lambda>r es. retention_ok L bs es)"
proof -
  have loop: "produces (retention_loop C (effective_keep bs) 0 xs) (\<lambda>r es. \<exists>k. es = map (EvDelete \<circ> OBackup)
      (take k (surplus (effective_keep bs) xs)))" for xs
    using retention_loop_produces [of C "effective_keep bs" 0 xs] by (rule produces_mono) auto
  show ?thesis
    unfolding applyRetention_def list_children_def
    by (rule produces_bind, rule produces_List_objs)
      (auto simp: retention_ok_def intro!: produces_return produces_mono [OF loop])
qed

lemma child_status_frame:
  "same_schedule (child_status items bs) bs" "last_run (child_status items bs) = last_run bs"
  by (simp_all add: child_status_def Let_def split: prod.splits option.splits)

lemma refresh_produces:
  "produces (refreshChildStatus C bs) (\<lambda>p es. refresh_ok es \<and> same_schedule (snd p) bs \<and> last_run (snd p) = last_run bs)"
  unfolding refreshChildStatus_def list_children_def
  by (rule produces_bind, rule produces_List_objs, unfold sum.case; rule produces_return)
    (auto simp: refresh_ok_def child_status_frame)

lemma finish_produces: "produces (finish_schedule L C now sched loc bs) (finished L bs)"
proof -
  have status: "produces (do {
       r \<leftarrow> StatusUpdate OBackupSchedule (BackupSchedules C) bs'';
       case r of
         Inl err \<Rightarrow> return (Result 0, Some err)
       | Inr _ \<Rightarrow> do {
           wall \<leftarrow> Now (Clock C);
           return (Result (max (time_sub (CronNext L sched loc now) wall) Minute), None) } })
      (\<lambda>r es. finished L bs r (ret @ ref @ es))"
    if "retention_ok L bs ret" "refresh_ok ref" "same_schedule bs'' bs" "last_run bs'' = last_run bs"
    for ret ref bs''
    by (rule produces_bind, rule produces_StatusUpdate, rule produces_sum; intro produces_bind produces_Now produces_return)
      (use that in \<open>auto simp: finished_def\<close>)
  show ?thesis
    unfolding finish_schedule_def
    by (rule produces_bind, rule produces_mono [OF retention_produces], rule produces_bind,
        rule produces_mono [OF refresh_produces], rule produces_prod, unfold Let_def append_assoc, rule status)
      auto
qed

lemma spawn_produces:
  "produces (spawnBackup L C bs fire) (\<lambda>r es. (es = [] \<and> r \<noteq> None) \<or> spawned L bs fire es)"
  unfolding spawnBackup_def Let_def
  by (auto intro!: produces_sum produces_return produces_bind produces_Create produces_if simp: spawned_def)

text \<open>The outcome of a failed creation is a retry in 30 seconds.\<close>

lemma run_schedule_produces:
  assumes bs: "same_schedule bs' bs" "last_run bs' = last_run bs" and parsed: "schedule_parsed L bs = Some (loc, sched)"
  shows "produces (run_schedule L C now sched loc bs')
    (\<lambda>r es. schedule_shape L now r (EvRead (OBackupSchedule bs) # es))"
proof -
  let ?fire = "next_fire L now sched loc bs"
  let ?bs = "bs'\<lparr>bsStatus := (bsStatus bs')\<lparr>bssLastScheduleTime := Some ?fire\<rparr>\<rparr>"
  let ?ran = "bs\<lparr>bsStatus := (bsStatus bs)\<lparr>bssLastScheduleTime := Some ?fire\<rparr>\<rparr>"
  have ref: "reference_time now bs' = reference_time now bs"
    using bs by (simp add: reference_time_def)
  have due: "(\<not> bssSuspend (bsSpec bs') \<and> \<not> now < ?fire) = due L now sched loc bs"
    using bs by (auto simp: due_def)
  have spawned: "spawned L bs' fire es = spawned L bs fire es" for fire es
    using bs by (simp add: spawned_def scheduled_backup_def)
  have fin: "finished L b r es \<Longrightarrow> same_schedule b b' \<Longrightarrow> last_run b = last_run b' \<Longrightarrow> finished L b' r es" for b b' r es
    by (auto simp: finished_def retention_ok_def effective_keep_def)
  have spawn: "produces (case ro of Some err \<Rightarrow> return (Result (30 * Second), None)
      | None \<Rightarrow> finish_schedule L C now sched loc ?bs)
      (\<lambda>r es'. schedule_shape L now r (EvRead (OBackupSchedule bs) # es @ es'))"
    if d: "due L now sched loc bs" and sp: "(es = [] \<and> ro \<noteq> None) \<or> spawned L bs ?fire es" for ro es
  proof (rule produces_option)
    assume "ro = None"
    with sp have "spawned L bs ?fire es" by simp
    then show "produces (finish_schedule L C now sched loc ?bs)
        (\<lambda>r es'. schedule_shape L now r (EvRead (OBackupSchedule bs) # es @ es'))"
      by (intro produces_mono [OF finish_produces])
        (use d parsed fin [of ?bs _ _ ?ran] bs in \<open>unfold schedule_shape_def, simp, blast\<close>)
  next
    fix err
    show "produces (return (Result (30 * Second), None))
        (\<lambda>r es'. schedule_shape L now r (EvRead (OBackupSchedule bs) # es @ es'))"
      by (rule produces_return) (use d parsed sp in \<open>unfold schedule_shape_def, simp, blast\<close>)
  qed
  show ?thesis
    unfolding run_schedule_def Let_def ref next_fire_def [symmetric] due
  proof (rule produces_if)
    assume d: "due L now sched loc bs"
    show "produces (State_Monad.bind (spawnBackup L C bs' ?fire)
        (\<lambda>r. case r of Some err \<Rightarrow> return (Result (30 * Second), None)
           | None \<Rightarrow> finish_schedule L C now sched loc ?bs))
        (\<lambda>r es. schedule_shape L now r (EvRead (OBackupSchedule bs) # es))"
      by (rule produces_bind, rule produces_mono [OF spawn_produces]) (rule spawn [OF d], simp add: spawned)
  next
    assume d: "\<not> due L now sched loc bs"
    show "produces (finish_schedule L C now sched loc bs')
        (\<lambda>r es. schedule_shape L now r (EvRead (OBackupSchedule bs) # es))"
      by (rule produces_mono [OF finish_produces])
        (use d parsed fin [of bs' _ _ bs] bs in \<open>simp add: schedule_shape_def\<close>)
  qed
qed

lemma set_schedule_produces:
  "(\<And>now. R (setScheduleCondition now bs t st r m) []) \<Longrightarrow> produces (set_schedule_condition_now C bs t st r m) R"
  unfolding set_schedule_condition_now_def by (auto intro!: io_intro)

text \<open>What a run does once it has read the clock.\<close>

lemma schedule_turn_produces:
  "produces (do {
     r \<leftarrow> Get OBackupSchedule (BackupSchedules C) req;
     case r of
       Inl err \<Rightarrow> if IsNotFound err then return (Result 0, None) else return (Result 0, Some err)
     | Inr bs \<Rightarrow>
         (case loadLocation L (bssTimeZone (bsSpec bs)) of
            Inl err \<Rightarrow> invalid_schedule C bs ''InvalidTimeZone'' (err_text err)
          | Inr loc \<Rightarrow>
              (case ParseCron L (bssSchedule (bsSpec bs)) of
                 Inl err \<Rightarrow> invalid_schedule C bs ''InvalidSchedule'' err
               | Inr sched \<Rightarrow> do {
                   bs \<leftarrow> set_schedule_condition_now C bs ScheduleValid ConditionTrue ''Parsed''
                     ''cron parsed cleanly'';
                   run_schedule L C now sched loc bs })) }) (schedule_shape L now)"
proof -
  have invalid: "produces (invalid_schedule C bs reason msg)
      (\<lambda>r es. schedule_shape L now r (EvRead (OBackupSchedule bs) # es))" for bs reason msg
    unfolding invalid_schedule_def
    by (rule produces_bind, rule set_schedule_produces, rule produces_bind, rule produces_StatusUpdate,
        rule produces_return) (auto simp: schedule_shape_def)
  have run: "produces (State_Monad.bind (set_schedule_condition_now C bs ScheduleValid ConditionTrue ''Parsed''
        ''cron parsed cleanly'') (run_schedule L C now sched loc))
      (\<lambda>r es. schedule_shape L now r (EvRead (OBackupSchedule bs) # es))"
    if "loadLocation L (bssTimeZone (bsSpec bs)) = Inr loc" "ParseCron L (bssSchedule (bsSpec bs)) = Inr sched"
    for bs sched loc
    by (rule produces_bind, rule set_schedule_produces, unfold append_Nil, rule run_schedule_produces)
      (use that in \<open>simp_all add: schedule_parsed_def\<close>)
  show ?thesis
  proof (rule produces_bind, rule produces_Get; unfold sum.case append_Cons append_Nil)
    show "produces (if IsNotFound e then return (Result 0, None) else return (Result 0, Some e)) (schedule_shape L now)" for e
      by (intro produces_if produces_return) (simp_all add: schedule_shape_def)
  qed (intro produces_sum invalid run; assumption)
qed

lemma clock_produces: "produces (schedule_now injected C) (\<lambda>_ es. es = [])"
  unfolding schedule_now_def by (auto intro!: io_intro)

lemma schedule_shape_holds: "produces (BackupSchedule_Reconcile L injected C req) (\<lambda>r es. \<exists>now. schedule_shape L now r es)"
  unfolding BackupSchedule_Reconcile_def
  by (rule produces_bind, rule produces_mono [OF clock_produces], simp)
    (rule produces_mono [OF schedule_turn_produces], blast)

text \<open>The instant of a run is what its clock says at the start.\<close>

lemma schedule_shape_events:
  "schedule_shape L (result (schedule_now injected C) s) (result (BackupSchedule_Reconcile L injected C req) s)
     (events (BackupSchedule_Reconcile L injected C req) s)"
  unfolding BackupSchedule_Reconcile_def
  by (rule produces_after [OF clock_produces schedule_turn_produces])

section \<open>Reading the shape\<close>

definition is_create :: "event \<Rightarrow> bool" where
  "is_create ev \<longleftrightarrow> (case ev of EvCreate _ \<Rightarrow> True | _ \<Rightarrow> False)"

lemma reference_bounds:
  "now - 24 * Hour \<le> reference_time now bs"
  "last_run bs = Some t \<Longrightarrow> t \<le> reference_time now bs"
  by (auto simp: reference_time_def Let_def split: option.splits)

lemma finished_events:
  assumes "finished L bs r es"
  shows "filter is_create es = []" and "EvCreate obj \<notin> set es"
    and "EvDelete obj \<in> set es \<Longrightarrow> \<exists>items b. obj = OBackup b \<and> (EvRead \<circ> OBackup) ` set items \<subseteq> set es
      \<and> b \<in> set (surplus (effective_keep bs) (SortNewestFirst L items))"
    and "EvUpdateStatus (OBackupSchedule bs') \<in> set es \<Longrightarrow> last_run bs' = last_run bs"
proof -
  obtain ret ref bs'' where es: "es = ret @ ref @ [EvUpdateStatus (OBackupSchedule bs'')]"
    and ret: "retention_ok L bs ret" and ref: "refresh_ok ref" and last: "last_run bs'' = last_run bs"
    using assms by (auto simp: finished_def)
  have "filter is_create ret = []" "filter is_create ref = []"
    using ret ref by (auto simp: retention_ok_def refresh_ok_def filter_empty_conv is_create_def)
  then show "filter is_create es = []" by (simp add: es is_create_def)
  then show "EvCreate obj \<notin> set es" by (auto simp: filter_empty_conv is_create_def)
  show "\<exists>items b. obj = OBackup b \<and> (EvRead \<circ> OBackup) ` set items \<subseteq> set es
      \<and> b \<in> set (surplus (effective_keep bs) (SortNewestFirst L items))" if "EvDelete obj \<in> set es"
  proof -
    from that es ref have "EvDelete obj \<in> set ret" by (auto simp: refresh_ok_def)
    with ret obtain items k where "ret = map (EvRead \<circ> OBackup) items
       @ map (EvDelete \<circ> OBackup) (take k (surplus (effective_keep bs) (SortNewestFirst L items)))"
      by (auto simp: retention_ok_def)
    with \<open>EvDelete obj \<in> set ret\<close> es show ?thesis by (auto dest: in_set_takeD intro!: exI [of _ items])
  qed
  show "last_run bs' = last_run bs" if "EvUpdateStatus (OBackupSchedule bs') \<in> set es"
    using that last ret ref by (auto simp: es retention_ok_def refresh_ok_def)
qed

lemma spawned_form:
  assumes "es = EvRead (OBackupSchedule bs) # sp @ fin" and "schedule_parsed L bs = Some (loc, sched) \<and> due L now sched loc bs"
    and "spawned L bs (next_fire L now sched loc bs) sp" and "filter is_create fin = []"
    and "EvCreate obj \<in> set es"
  shows "\<exists>bs sched loc m fin. es = EvRead (OBackupSchedule bs) # EvCreate obj # fin
    \<and> schedule_parsed L bs = Some (loc, sched) \<and> due L now sched loc bs \<and> obj = OBackup (scheduled_backup bs (next_fire L now sched loc bs)\<lparr>bMeta := m\<rparr>)
    \<and> SetControllerReference L (BackupScheduleKind, bsMeta bs)
        (bMeta (scheduled_backup bs (next_fire L now sched loc bs))) = Inr m
    \<and> filter is_create fin = []"
proof -
  obtain m where m: "SetControllerReference L (BackupScheduleKind, bsMeta bs)
      (bMeta (scheduled_backup bs (next_fire L now sched loc bs))) = Inr m"
    and sp: "sp = [EvCreate (OBackup (scheduled_backup bs (next_fire L now sched loc bs)\<lparr>bMeta := m\<rparr>))]"
    using assms(3) unfolding spawned_def by blast
  have "EvCreate obj \<notin> set fin" using assms(4) by (auto simp: filter_empty_conv is_create_def)
  with assms(1,5) sp have "obj = OBackup (scheduled_backup bs (next_fire L now sched loc bs)\<lparr>bMeta := m\<rparr>)"
    by auto
  with assms(1,2,4) m sp show ?thesis by (metis append_Cons append_Nil)
qed

lemma create_form:
  assumes "schedule_shape L now r es" and "EvCreate obj \<in> set es"
  shows "\<exists>bs sched loc m fin. es = EvRead (OBackupSchedule bs) # EvCreate obj # fin
    \<and> schedule_parsed L bs = Some (loc, sched) \<and> due L now sched loc bs \<and> obj = OBackup (scheduled_backup bs (next_fire L now sched loc bs)\<lparr>bMeta := m\<rparr>)
    \<and> SetControllerReference L (BackupScheduleKind, bsMeta bs)
        (bMeta (scheduled_backup bs (next_fire L now sched loc bs))) = Inr m
    \<and> filter is_create fin = []"
  using assms(1)[unfolded schedule_shape_def]
proof (elim disjE exE conjE)
  fix bs sched loc sp
  assume es: "es = EvRead (OBackupSchedule bs) # sp" and parsed: "schedule_parsed L bs = Some (loc, sched)" and due: "due L now sched loc bs"
    and sp: "spawned L bs (next_fire L now sched loc bs) sp"
  show ?thesis by (rule spawned_form [OF _ conjI [OF parsed due] sp _ assms(2), of "[]"]) (simp_all add: es)
next
  fix bs sched loc sp fin
  assume es: "es = EvRead (OBackupSchedule bs) # sp @ fin" and parsed: "schedule_parsed L bs = Some (loc, sched)" and due: "due L now sched loc bs"
    and sp: "spawned L bs (next_fire L now sched loc bs) sp"
    and fin: "finished L (bs\<lparr>bsStatus := (bsStatus bs)
        \<lparr>bssLastScheduleTime := Some (next_fire L now sched loc bs)\<rparr>\<rparr>) r fin"
  show ?thesis by (rule spawned_form [OF es conjI [OF parsed due] sp finished_events(1) [OF fin] assms(2)])
next
  fix bs fin
  assume "es = EvRead (OBackupSchedule bs) # fin" "finished L bs r fin"
  with assms(2) finished_events(2) have False by fastforce
  then show ?thesis ..
qed (use assms(2) in auto)

lemma delete_form:
  assumes "schedule_shape L now r es" and "EvDelete obj \<in> set es"
  shows "\<exists>bs items b. EvRead (OBackupSchedule bs) \<in> set es \<and> obj = OBackup b
    \<and> (EvRead \<circ> OBackup) ` set items \<subseteq> set es
    \<and> b \<in> set (surplus (effective_keep bs) (SortNewestFirst L items))"
  using assms(1)[unfolded schedule_shape_def]
proof (elim disjE exE conjE)
  fix bs fire sp fin
  assume es: "es = EvRead (OBackupSchedule bs) # sp @ fin" "spawned L bs fire sp"
    and fin: "finished L (bs\<lparr>bsStatus := (bsStatus bs)\<lparr>bssLastScheduleTime := Some fire\<rparr>\<rparr>) r fin"
  from es assms(2) have "EvDelete obj \<in> set fin" by (auto simp: spawned_def)
  from finished_events(3) [OF fin this] show ?thesis
    by (intro exI [of _ bs]) (auto simp: es effective_keep_def)
next
  fix bs fin
  assume es: "es = EvRead (OBackupSchedule bs) # fin" and fin: "finished L bs r fin"
  from es assms(2) have "EvDelete obj \<in> set fin" by simp
  from finished_events(3) [OF fin this] show ?thesis
    by (intro exI [of _ bs]) (auto simp: es)
qed (use assms(2) in \<open>auto simp: spawned_def\<close>)

lemma status_form:
  assumes "schedule_shape L now r es" and "EvUpdateStatus (OBackupSchedule bs') \<in> set es"
  shows "\<exists>bs. EvRead (OBackupSchedule bs) \<in> set es
    \<and> ((last_run bs' = last_run bs \<and> filter is_create es = [])
       \<or> (\<exists>sched loc sp. due L now sched loc bs \<and> last_run bs' = Some (next_fire L now sched loc bs)
            \<and> spawned L bs (next_fire L now sched loc bs) sp \<and> set sp \<subseteq> set es))"
  using assms(1)[unfolded schedule_shape_def]
proof (elim disjE exE conjE)
  fix bs sched loc sp fin
  assume es: "es = EvRead (OBackupSchedule bs) # sp @ fin" and parsed: "schedule_parsed L bs = Some (loc, sched)" and due: "due L now sched loc bs"
    and sp: "spawned L bs (next_fire L now sched loc bs) sp"
    and fin: "finished L (bs\<lparr>bsStatus := (bsStatus bs)
        \<lparr>bssLastScheduleTime := Some (next_fire L now sched loc bs)\<rparr>\<rparr>) r fin"
  from es sp assms(2) have "EvUpdateStatus (OBackupSchedule bs') \<in> set fin" by (auto simp: spawned_def)
  from finished_events(4) [OF fin this] have "last_run bs' = Some (next_fire L now sched loc bs)" by simp
  moreover have "set sp \<subseteq> set es" "EvRead (OBackupSchedule bs) \<in> set es" by (auto simp: es)
  ultimately show ?thesis using due sp by blast
next
  fix bs fin
  assume es: "es = EvRead (OBackupSchedule bs) # fin" and fin: "finished L bs r fin"
  from es assms(2) have "EvUpdateStatus (OBackupSchedule bs') \<in> set fin" by simp
  from finished_events(4) [OF fin this] finished_events(1) [OF fin] es show ?thesis
    by (intro exI [of _ bs]) (simp add: is_create_def)
qed (use assms(2) in \<open>auto simp: spawned_def is_create_def\<close>)

end
