(* ===== verification/BackupEffects.thy ===== *)
theory BackupEffects
  imports Convergence BackupProperties ScheduleFacts TemplateController
begin

text \<open>
  What the reconciles of Backups, BackupSchedules and GameTemplates do to a cluster whose API server keeps
  the contract of theory \<open>Cluster\<close>: the state machine of a Backup and its snapshot, the Backups that a
  schedule keeps, and the one status a template has.
\<close>

declare ConditionTrue_def [simp del] ConditionFalse_def [simp del] Second_def [simp del] Minute_def [simp del]
  BackupPhasePending_def [simp del] BackupPhaseInProgress_def [simp del] BackupPhaseReady_def [simp del]
  BackupPhaseFailed_def [simp del] ConditionBackupReady_def [simp del] ConditionSnapshotBound_def [simp del]
  BackupKind_def [simp del]

section \<open>A Backup and its snapshot\<close>

abbreviation put_backup :: "backup \<Rightarrow> backup \<Rightarrow> cluster \<Rightarrow> cluster" where
  "put_backup b b' c \<equiv> c\<lparr>clBackups := fmupd (object_key (bMeta b)) b' (clBackups c)\<rparr>"

text \<open>The Backup of a run that found no server, and of a run that created the snapshot.\<close>

definition waits_for_server :: "backup \<Rightarrow> backup \<Rightarrow> bool" where
  "waits_for_server b b' \<longleftrightarrow> bMeta b' = bMeta b \<and> bSpec b' = bSpec b \<and> bPhase (bStatus b') = BackupPhasePending
     \<and> bVolumeSnapshotName (bStatus b') = bVolumeSnapshotName (bStatus b)"

definition snapshot_requested :: "backup \<Rightarrow> volume_snapshot \<Rightarrow> backup \<Rightarrow> bool" where
  "snapshot_requested b vs b' \<longleftrightarrow> bMeta b' = bMeta b \<and> bSpec b' = bSpec b
     \<and> bPhase (bStatus b') = BackupPhaseInProgress \<and> bVolumeSnapshotName (bStatus b') = mName (vsMeta vs)"

definition backup_run_effect :: "cluster \<Rightarrow> backup \<Rightarrow> outcome \<Rightarrow> cluster \<Rightarrow> bool" where
  "backup_run_effect c b r c' \<longleftrightarrow>
     (case fmlookup (clGameServers c) (mNamespace (bMeta b), bGameServerRefName (bSpec b)) of
        None \<Rightarrow> \<exists>b'. waits_for_server b b' \<and> c' = put_backup b b' c \<and> r = (Result (30 * Second), None)
      | Some gs \<Rightarrow>
          (let k = (mNamespace (bMeta b), VolumeSnapshotName b) in
           case fmlookup (clVolumeSnapshots c) k of
             None \<Rightarrow> \<exists>vs b'. object_key (vsMeta vs) = k \<and> mLabels (vsMeta vs) = mLabels (vsMeta (BuildVolumeSnapshot b gs))
               \<and> vssPVCName (vsSpec vs) = Some (PVCName gs) \<and> vsStatus vs = None \<and> snapshot_requested b vs b'
               \<and> c' = put_backup b b' (c\<lparr>clVolumeSnapshots := fmupd k vs (clVolumeSnapshots c)\<rparr>)
               \<and> r = (Result (5 * Second), None)
           | Some vs \<Rightarrow> \<exists>b'. mirror_ok b vs b' \<and> c' = put_backup b b' c \<and> r = mirror_outcome vs None))"

text \<open>The status of a Backup that is stored is replaced.\<close>

lemma with_status:
  fixes b :: backup
  shows "bMeta b' = bMeta b \<Longrightarrow> bSpec b' = bSpec b \<Longrightarrow> b\<lparr>bStatus := bStatus b'\<rparr> = b'"
  by (cases b, cases b') simp

context api_server
begin

lemma report_backup_effect:
  assumes "fmlookup (clBackups c) (object_key (bMeta b)) = Some b"
    and "bMeta b' = bMeta b" and "bSpec b' = bSpec b"
    and "\<And>now g. g = setBackupCondition now b' t st reason msg \<Longrightarrow> ensures view (put_backup b g c) (k (Inr g)) Q"
  shows "ensures view c (do { b \<leftarrow> set_backup_condition_now C b' t st reason msg; r \<leftarrow> updateBackupStatus C b; k r }) Q"
  unfolding set_backup_condition_now_def updateBackupStatus_def
proof (rule ensures_bind, rule ensures_bind, rule ensures_Now, rule ensures_return, rule ensures_bind)
  fix now
  let ?g = "setBackupCondition now b' t st reason msg"
  show "ensures view c (StatusUpdate OBackup (Backups C) ?g) (\<lambda>r c'. ensures view c' (k r) Q)"
  proof (rule backups.ensures_StatusUpdate [where z = b], simp add: assms(1,2))
    have "b\<lparr>bStatus := bStatus ?g\<rparr> = ?g" by (rule with_status) (simp_all add: assms(2,3))
    from assms(4) [OF refl, of now]
    show "ensures view (clBackups_update (fmupd (object_key (bMeta ?g)) (b\<lparr>bStatus := bStatus ?g\<rparr>)) c)
        (k (Inr (b\<lparr>bStatus := bStatus ?g\<rparr>))) Q"
      unfolding \<open>b\<lparr>bStatus := bStatus ?g\<rparr> = ?g\<close> by (simp add: cluster_put assms(2))
  qed
qed

lemma waiting_effect:
  assumes stored: "fmlookup (clBackups c) (object_key (bMeta b)) = Some b"
    and "same_backup b vs b'" and "mirrored_phase vs = BackupPhaseInProgress"
    and Q: "\<And>g. mirror_ok b vs g \<Longrightarrow> Q (mirror_outcome vs None) (put_backup b g c)"
  shows "ensures view c (backup_waiting C b') Q"
  unfolding backup_waiting_def
proof (rule report_backup_effect [OF stored])
  fix now g
  assume "g = setBackupCondition now (set_backup_phase BackupPhaseInProgress b') ConditionBackupReady ConditionFalse
      ''WaitingForReady'' ''VolumeSnapshot not yet ReadyToUse''"
  with assms(2,3) have "mirror_ok b vs g" by (simp add: same_backup_def mirror_ok_def backup_ready_simps)
  from Q [OF this] assms(3) show "ensures view (put_backup b g c) (case Inr g of Inl err \<Rightarrow> return (Result 0, Some err)
      | Inr _ \<Rightarrow> return (Result (10 * Second), None)) Q"
    by (simp add: mirror_outcome_def ensures_return)
qed (use assms(2) in \<open>simp_all add: same_backup_def\<close>)

lemma final_backup_effect:
  assumes stored: "fmlookup (clBackups c) (object_key (bMeta b)) = Some b"
    and "same_backup b vs b'" and "mirrored_phase vs = ph" and "ph \<noteq> BackupPhaseInProgress"
    and "st = (if ph = BackupPhaseReady then ConditionTrue else ConditionFalse)"
    and Q: "\<And>g. mirror_ok b vs g \<Longrightarrow> Q (mirror_outcome vs None) (put_backup b g c)"
  shows "ensures view c (do { b \<leftarrow> set_backup_condition_now C (set_backup_phase ph b') ConditionBackupReady st reason msg;
      r \<leftarrow> updateBackupStatus C b; return (Result 0, err_of r) }) Q"
proof (rule report_backup_effect [OF stored])
  fix now g
  assume "g = setBackupCondition now (set_backup_phase ph b') ConditionBackupReady st reason msg"
  with assms(2-5) have "mirror_ok b vs g" by (simp add: same_backup_def mirror_ok_def backup_ready_simps)
  from Q [OF this] assms(3,4) show "ensures view (put_backup b g c) (return (Result 0, err_of (Inr g))) Q"
    by (simp add: mirror_outcome_def ensures_return)
qed (use assms(2) in \<open>simp_all add: same_backup_def\<close>)

lemma mirror_effect:
  assumes stored: "fmlookup (clBackups c) (object_key (bMeta b)) = Some b"
    and Q: "\<And>g. mirror_ok b vs g \<Longrightarrow> Q (mirror_outcome vs None) (put_backup b g c)"
  shows "ensures view c (mirror_snapshot L C b vs) Q"
proof -
  let ?b = "b\<lparr>bStatus := (bStatus b)\<lparr>bVolumeSnapshotName := mName (vsMeta vs),
                      bObservedGeneration := mGeneration (bMeta b)\<rparr>\<rparr>"
  have b: "same_backup b vs ?b" by (simp add: same_backup_def)
  show ?thesis
  proof (cases "vsStatus vs")
    case None
    then have "mirrored_phase vs = BackupPhaseInProgress" by (simp add: mirrored_phase_def)
    then have "ensures view c (backup_waiting C ?b) Q"
      by (rule waiting_effect [where Q = Q, OF stored b]) (rule Q)
    then show ?thesis by (simp add: mirror_snapshot_def None)
  next
    case (Some st)
    have kept: "same_backup b vs (case vssRestoreSize st of None \<Rightarrow> b'
          | Some q \<Rightarrow> b'\<lparr>bStatus := (bStatus b')\<lparr>bRestoreSize := QuantityString L q\<rparr>\<rparr>)"
      "same_backup b vs (case vssCreationTime st of None \<Rightarrow> b'
          | Some t \<Rightarrow> b'\<lparr>bStatus := (bStatus b')\<lparr>bCreationTime := Some t\<rparr>\<rparr>)" if "same_backup b vs b'" for b'
      using that by (auto simp: same_backup_def split: option.split)
    have bound: "ensures view c (case vssBoundContentName st of None \<Rightarrow> return ?b
         | Some content \<Rightarrow> set_backup_condition_now C ?b ConditionSnapshotBound ConditionTrue ''Bound''
             (''bound to VolumeSnapshotContent '' @ Quote content)) (\<lambda>b' c'. c' = c \<and> same_backup b vs b')"
      unfolding set_backup_condition_now_def
      by (auto intro!: ensures_option ensures_return ensures_bind ensures_Now simp: same_backup_def)
    show ?thesis
      unfolding mirror_snapshot_def Let_def Some option.case
      by (rule ensures_bind, rule ensures_mono [OF bound], elim conjE, hypsubst,
          intro ensures_if ensures_option final_backup_effect [where vs = vs, OF stored]
            waiting_effect [where vs = vs, OF stored] kept Q)
        (simp_all add: mirrored_phase_def Some)
  qed
qed

lemma snapshot_effect:
  assumes law: "owner_law L" and stored: "fmlookup (clBackups c) (object_key (bMeta b)) = Some b"
    and gs: "fmlookup (clGameServers c) (mNamespace (bMeta b), bGameServerRefName (bSpec b)) = Some gs"
    and desired: "SetControllerReference L (BackupKind, bMeta b) (vsMeta (BuildVolumeSnapshot b gs)) = Inr m"
    and m: "object_key m = (mNamespace (bMeta b), VolumeSnapshotName b)"
      "mLabels m = mLabels (vsMeta (BuildVolumeSnapshot b gs))"
  shows "ensures view c (reconcile_snapshot L C b (BuildVolumeSnapshot b gs\<lparr>vsMeta := m\<rparr>)) (backup_run_effect c b)"
proof -
  let ?k = "(mNamespace (bMeta b), VolumeSnapshotName b)"
  let ?d = "BuildVolumeSnapshot b gs\<lparr>vsMeta := m\<rparr>"
  have key: "object_key (vsMeta ?d) = ?k" by (simp add: m)
  show ?thesis
    unfolding reconcile_snapshot_def Let_def key
  proof (rule ensures_bind, rule snapshots.ensures_Get, goal_cases)
    case (1 vs)
    then show ?case
      by (simp, intro mirror_effect [OF stored]) (auto simp: backup_run_effect_def gs Let_def)
  next
    case (2 e)
    show ?case
      unfolding sum.case if_P [OF 2(2)]
    proof (rule ensures_bind, rule snapshots.ensures_Create)
      show "fmlookup (clVolumeSnapshots c) (object_key (vsMeta ?d)) = None" unfolding key by (rule 2)
      fix y assume y: "snapshot_stored None ?d y" "object_key (vsMeta y) = object_key (vsMeta ?d)"
      let ?c = "clVolumeSnapshots_update (fmupd (object_key (vsMeta ?d)) y) c"
      have c: "?c = c\<lparr>clVolumeSnapshots := fmupd ?k y (clVolumeSnapshots c)\<rparr>" unfolding key cluster_put by simp
      have built: "vssPVCName (vsSpec ?d) = Some (PVCName gs)" "vsMeta ?d = m"
        by (simp_all add: builder_simps)
      note y' = y [unfolded snapshot_stored_def meta_stored_def built m]
      show "ensures view ?c (case Inr y of Inl err \<Rightarrow> return (Result 0, Some err)
          | Inr created \<Rightarrow> do {
              b \<leftarrow> set_backup_condition_now C (set_backup_phase BackupPhaseInProgress
                 (b\<lparr>bStatus := (bStatus b)\<lparr>bVolumeSnapshotName := mName (vsMeta created)\<rparr>\<rparr>))
                ConditionSnapshotBound ConditionFalse ''Creating'' ''VolumeSnapshot created; waiting for bind'';
              r \<leftarrow> updateBackupStatus C b;
              return (Result (5 * Second), err_of r) }) (backup_run_effect c b)"
        unfolding sum.case c
      proof (rule report_backup_effect [where b = b], goal_cases)
        case (4 now g)
        then have "snapshot_requested b y g" by (simp add: snapshot_requested_def)
        then show ?case
          using y' 2 gs by (intro ensures_return) (auto simp: backup_run_effect_def Let_def)
      qed (use stored in simp_all)
    qed
  qed
qed

lemma backup_effect:
  assumes law: "owner_law L" and stored: "fmlookup (clBackups c) (object_key (bMeta b)) = Some b"
  shows "ensures view c (Backup_Reconcile L C (object_key (bMeta b))) (backup_run_effect c b)"
  unfolding Backup_Reconcile_def
proof (rule ensures_bind, rule backups.ensures_Get, goal_cases)
  case (1 x)
  with stored have x: "x = b" by simp
  show ?case
    unfolding x sum.case
  proof (rule ensures_bind, rule servers.ensures_Get, goal_cases)
    case (1 gs)
    from law obtain m where m: "SetControllerReference L (BackupKind, bMeta b) (vsMeta (BuildVolumeSnapshot b gs)) = Inr m"
      "object_key m = object_key (vsMeta (BuildVolumeSnapshot b gs))"
      "mLabels m = mLabels (vsMeta (BuildVolumeSnapshot b gs))"
      unfolding owner_law_def
      by (elim allE [where x = BackupKind] allE [where x = "bMeta b"] allE [where x = "vsMeta (BuildVolumeSnapshot b gs)"])
        (auto simp: BuildVolumeSnapshot_def Let_def)
    have "object_key m = (mNamespace (bMeta b), VolumeSnapshotName b)"
      unfolding m(2) by (simp add: object_key_def BuildVolumeSnapshot_def Let_def)
    from snapshot_effect [OF law stored 1(1) m(1) this m(3)] show ?case
      by (simp add: Let_def m(1))
  next
    case (2 e)
    show ?case
      unfolding sum.case if_P [OF 2(2)] backup_missing_server_def
    proof (rule report_backup_effect [OF stored], goal_cases)
      case (3 now g)
      then have "waits_for_server b g" by (simp add: waits_for_server_def)
      with 2 show ?case by (auto simp: backup_run_effect_def intro!: ensures_return)
    qed simp_all
  qed
qed (use stored in simp)

text \<open>What is found under a key has it.\<close>

lemma snapshots_keyed: "fmlookup (clVolumeSnapshots (view w)) k = Some vs \<Longrightarrow> object_key (vsMeta vs) = k"
  by (rule snapshots.keyed)

lemma backups_keyed: "fmlookup (clBackups (view w)) k = Some b \<Longrightarrow> object_key (bMeta b) = k"
  by (rule backups.keyed)

end

end
