(* ===== verification/ScheduleEffects.thy ===== *)
theory ScheduleEffects
  imports BackupEffects
begin

text \<open>
  What a reconcile of a BackupSchedule does to the Backups of a cluster whose API server keeps the contract
  of theory \<open>Cluster\<close>: at most one new Backup, then the surplus of the schedule's own Backups is dropped.
\<close>

declare ConditionTrue_def [simp del] ConditionFalse_def [simp del] Second_def [simp del] Minute_def [simp del]
  Hour_def [simp del] BackupScheduleKind_def [simp del] ScheduleValid_def [simp del]

section \<open>The effect\<close>

text \<open>The Backups that the schedule's label and namespace select.\<close>

definition children_of :: "backup_schedule \<Rightarrow> (key, backup) fmap \<Rightarrow> backup set" where
  "children_of bs m = {b \<in> fmran' m. selects (Some (mNamespace (bsMeta bs)))
     (fmupd labelSchedule (mName (bsMeta bs)) fmempty) (bMeta b)}"

definition drop_backups :: "backup list \<Rightarrow> (key, backup) fmap \<Rightarrow> (key, backup) fmap" where
  "drop_backups bs m = foldl (\<lambda>m b. fmdrop (object_key (bMeta b)) m) m bs"

definition retention_effect :: "lib \<Rightarrow> backup_schedule \<Rightarrow> (key, backup) fmap \<Rightarrow> (key, backup) fmap \<Rightarrow> bool" where
  "retention_effect L bs m m' \<longleftrightarrow> (\<exists>items. distinct items \<and> set items = children_of bs m
     \<and> m' = drop_backups (surplus (effective_keep bs) (SortNewestFirst L items)) m)"

definition spawn_effect :: "backup_schedule \<Rightarrow> gotime \<Rightarrow> (key, backup) fmap \<Rightarrow> (key, backup) fmap \<Rightarrow> bool" where
  "spawn_effect bs fire m m' \<longleftrightarrow>
     (let d = scheduled_backup bs fire; k = object_key (bMeta d) in
      if fmlookup m k \<noteq> None then m' = m
      else \<exists>y. object_key (bMeta y) = k \<and> mLabels (bMeta y) = mLabels (bMeta d) \<and> bSpec y = bSpec d
        \<and> bStatus y = zero_backup_status \<and> m' = fmupd k y m)"

abbreviation put_schedule :: "backup_schedule \<Rightarrow> backup_schedule \<Rightarrow> cluster \<Rightarrow> cluster" where
  "put_schedule bs g c \<equiv> c\<lparr>clBackupSchedules := fmupd (object_key (bsMeta bs)) g (clBackupSchedules c)\<rparr>"

abbreviation put_run :: "backup_schedule \<Rightarrow> backup_schedule \<Rightarrow> (key, backup) fmap \<Rightarrow> cluster \<Rightarrow> cluster" where
  "put_run bs g m c \<equiv> c\<lparr>clBackups := m, clBackupSchedules := fmupd (object_key (bsMeta bs)) g (clBackupSchedules c)\<rparr>"

text \<open>A run at the instant \<open>now\<close>, whose later readings of the wall clock are in \<open>walls\<close>.\<close>

definition schedule_run_at :: "lib \<Rightarrow> gotime set \<Rightarrow> gotime \<Rightarrow> cluster \<Rightarrow> backup_schedule \<Rightarrow> outcome \<Rightarrow> cluster \<Rightarrow> bool" where
  "schedule_run_at L walls now c bs r c' \<longleftrightarrow>
     (case schedule_parsed L bs of
        None \<Rightarrow> \<exists>g. same_schedule g bs \<and> last_run g = last_run bs \<and> c' = put_schedule bs g c
          \<and> r = (Result (5 * Minute), None)
      | Some (loc, sched) \<Rightarrow> \<exists>m1 m2 g wall. same_schedule g bs
          \<and> (if due L now sched loc bs
             then spawn_effect bs (next_fire L now sched loc bs) (clBackups c) m1
               \<and> last_run g = Some (next_fire L now sched loc bs)
             else m1 = clBackups c \<and> last_run g = last_run bs)
          \<and> retention_effect L bs m1 m2 \<and> c' = put_run bs g m2 c
          \<and> wall \<in> walls \<and> r = (Result (max (time_sub (CronNext L sched loc now) wall) Minute), None))"

definition schedule_run_effect :: "lib \<Rightarrow> cluster \<Rightarrow> backup_schedule \<Rightarrow> outcome \<Rightarrow> cluster \<Rightarrow> bool" where
  "schedule_run_effect L c bs r c' \<longleftrightarrow> (\<exists>walls now. schedule_run_at L walls now c bs r c')"

section \<open>Every stage refines its part\<close>

lemma drop_backups_simps [simp]:
  "drop_backups [] m = m" "drop_backups (b # bs) m = drop_backups bs (fmdrop (object_key (bMeta b)) m)"
  by (simp_all add: drop_backups_def)

lemma drop_backups_lookup:
  "fmlookup (drop_backups bs m) k = (if k \<in> (\<lambda>b. object_key (bMeta b)) ` set bs then None else fmlookup m k)"
  by (induction bs arbitrary: m) auto

lemma drop_backups_filter [simp]: "surplus k [] = []"
  by (simp add: surplus_def)

lemma same_schedule_children:
  "same_schedule a b \<Longrightarrow> children_of a m = children_of b m" "same_schedule a b \<Longrightarrow> effective_keep a = effective_keep b"
  by (simp_all add: children_of_def effective_keep_def)

text \<open>The injected clock of the tests leaves the cluster alone, as the wall clock does.\<close>

definition quiet_clock :: "('w \<Rightarrow> cluster) \<Rightarrow> ('w \<Rightarrow> gotime \<times> 'w) option \<Rightarrow> bool" where
  "quiet_clock view injected \<longleftrightarrow> (\<forall>f w. injected = Some f \<longrightarrow> view (snd (f w)) = view w)"

abbreviation keyed_backups :: "(key, backup) fmap \<Rightarrow> bool" where
  "keyed_backups m \<equiv> \<forall>k b. fmlookup m k = Some b \<longrightarrow> object_key (bMeta b) = k"

definition permutes :: "lib \<Rightarrow> bool" where
  "permutes L \<longleftrightarrow> (\<forall>xs. mset (SortNewestFirst L xs) = mset xs)"

lemma permutes_simps:
  assumes "permutes L"
  shows "set (SortNewestFirst L xs) = set xs" and "distinct (SortNewestFirst L xs) = distinct xs"
  using assms unfolding permutes_def by (metis set_mset_mset) (metis assms distinct_count_atmost_1 permutes_def set_mset_mset)

context api_server
begin

lemma retention_loop_effect:
  assumes "distinct (map (\<lambda>b. object_key (bMeta b)) bs)"
    and "\<And>b. b \<in> set bs \<Longrightarrow> fmlookup (clBackups c) (object_key (bMeta b)) = Some b"
    and "Q None (c\<lparr>clBackups := drop_backups (surplus (keep - kept) bs) (clBackups c)\<rparr>)"
  shows "ensures view c (retention_loop C keep kept bs) Q"
  using assms
proof (induction bs arbitrary: c kept)
  case Nil
  then show ?case by (simp add: ensures_return)
next
  case (Cons b bs)
  consider (retained) "bRetainForever (bSpec b)" | (kept) "\<not> bRetainForever (bSpec b)" "kept < keep"
    | (surplus) "\<not> bRetainForever (bSpec b)" "\<not> kept < keep" by blast
  then show ?case
  proof cases
    case retained
    then have "surplus (keep - kept) (b # bs) = surplus (keep - kept) bs" by (simp add: surplus_def)
    with retained Cons show ?thesis by simp
  next
    case kept
    then have "nat (keep - kept) = Suc (nat (keep - (kept + 1)))" by simp
    with kept have "surplus (keep - kept) (b # bs) = surplus (keep - (kept + 1)) bs" by (simp add: surplus_def)
    with kept Cons show ?thesis by simp
  next
    case surplus
    then have s: "surplus (keep - kept) (b # bs) = b # surplus (keep - kept) bs" by (simp add: surplus_def)
    let ?c = "c\<lparr>clBackups := fmdrop (object_key (bMeta b)) (clBackups c)\<rparr>"
    have "ensures view ?c (retention_loop C keep kept bs) Q"
      using Cons.prems s by (intro Cons.IH) (auto simp: image_iff)
    with surplus Cons.prems(2) [of b] show ?thesis
      by simp (rule ensures_bind, rule backups.ensures_Delete, simp, simp add: cluster_put)
  qed
qed

lemma list_children_effect:
  assumes "\<And>items. distinct items \<Longrightarrow> set items = children_of bs (clBackups c) \<Longrightarrow> Q (Inr items) c"
  shows "ensures view c (list_children C bs) Q"
  unfolding list_children_def by (rule backups.ensures_List) (use assms in \<open>simp add: children_of_def\<close>)

lemma applyRetention_effect:
  assumes perm: "permutes L"
    and keyed: "\<And>k b. fmlookup (clBackups c) k = Some b \<Longrightarrow> object_key (bMeta b) = k"
    and Q: "\<And>m'. retention_effect L bs (clBackups c) m' \<Longrightarrow> Q None (c\<lparr>clBackups := m'\<rparr>)"
  shows "ensures view c (applyRetention L C bs) Q"
  unfolding applyRetention_def
proof (rule ensures_bind, rule list_children_effect, unfold sum.case)
  fix items assume items: "distinct items" "set items = children_of bs (clBackups c)"
  let ?xs = "SortNewestFirst L items"
  have stored: "fmlookup (clBackups c) (object_key (bMeta b)) = Some b" if "b \<in> set ?xs" for b
    using that keyed unfolding permutes_simps(1) [OF perm] items(2) by (auto simp: children_of_def fmran'_def)
  have "distinct (map (\<lambda>b. object_key (bMeta b)) ?xs)"
    using items(1) stored by (auto simp: distinct_map permutes_simps [OF perm] inj_on_def) (metis option.inject)
  moreover have "Q None (c\<lparr>clBackups := drop_backups (surplus (effective_keep bs - 0) ?xs) (clBackups c)\<rparr>)"
    using items by (intro Q) (auto simp: retention_effect_def)
  ultimately show "ensures view c (retention_loop C (effective_keep bs) 0 ?xs) Q"
    using stored by (intro retention_loop_effect)
qed

lemma spawnBackup_effect:
  assumes law: "owner_law L"
    and Q: "\<And>m'. spawn_effect bs fire (clBackups c) m' \<Longrightarrow> Q None (c\<lparr>clBackups := m'\<rparr>)"
  shows "ensures view c (spawnBackup L C bs fire) Q"
proof -
  let ?d = "scheduled_backup bs fire"
  obtain m where m: "SetControllerReference L (BackupScheduleKind, bsMeta bs) (bMeta ?d) = Inr m"
    "object_key m = object_key (bMeta ?d)" "mLabels m = mLabels (bMeta ?d)"
    using law unfolding owner_law_def
    by (elim allE [where x = BackupScheduleKind] allE [where x = "bsMeta bs"] allE [where x = "bMeta ?d"])
      (auto simp: scheduled_backup_def)
  let ?k = "object_key (bMeta ?d)"
  show ?thesis
    unfolding spawnBackup_def Let_def m(1) sum.case
  proof (cases "fmlookup (clBackups c) ?k")
    case None
    have "Q None (c\<lparr>clBackups := fmupd ?k y (clBackups c)\<rparr>)"
      if "backup_stored None (?d\<lparr>bMeta := m\<rparr>) y" "object_key (bMeta y) = ?k" for y
      using that None by (intro Q) (auto simp: spawn_effect_def Let_def backup_stored_def meta_stored_def m)
    with None show "ensures view c (do { r \<leftarrow> Create OBackup (Backups C) (?d\<lparr>bMeta := m\<rparr>);
        case r of Inl err \<Rightarrow> if \<not> IsAlreadyExists err then return (Some err) else return None
        | Inr _ \<Rightarrow> return None }) Q"
      by (intro ensures_bind backups.ensures_Create) (simp_all add: m cluster_put ensures_return)
  next
    case (Some z)
    then have "Q None (c\<lparr>clBackups := clBackups c\<rparr>)" by (intro Q) (simp add: spawn_effect_def Let_def)
    with Some show "ensures view c (do { r \<leftarrow> Create OBackup (Backups C) (?d\<lparr>bMeta := m\<rparr>);
        case r of Inl err \<Rightarrow> if \<not> IsAlreadyExists err then return (Some err) else return None
        | Inr _ \<Rightarrow> return None }) Q"
      by (intro ensures_bind backups.ensures_Create_existing [where z = z]) (simp_all add: m ensures_return)
  qed
qed

lemma put_schedule_effect:
  assumes "fmlookup (clBackupSchedules c) (object_key (bsMeta bs)) = Some bs" and "same_schedule g bs"
    and "Q (Inr g) (put_schedule bs g c)"
  shows "ensures view c (StatusUpdate OBackupSchedule (BackupSchedules C) g) Q"
proof -
  have g: "bs\<lparr>bsStatus := bsStatus g\<rparr> = g" using assms(2) by (cases bs, cases g) simp
  show ?thesis
    by (rule schedules.ensures_StatusUpdate [where z = bs], simp add: assms(1,2), unfold g)
      (use assms(2,3) in \<open>simp add: cluster_put\<close>)
qed

lemma finish_schedule_effect:
  assumes perm: "permutes L"
    and keyed: "\<And>k b. fmlookup (clBackups c) k = Some b \<Longrightarrow> object_key (bMeta b) = k"
    and stored: "fmlookup (clBackupSchedules c) (object_key (bsMeta bs)) = Some bs" and same: "same_schedule bs' bs"
    and Q: "\<And>m' g w wait. retention_effect L bs (clBackups c) m' \<Longrightarrow> same_schedule g bs \<Longrightarrow> last_run g = last_run bs' \<Longrightarrow>
      wait = max (time_sub (CronNext L sched loc now) (fst (Clock C w))) Minute \<Longrightarrow> Q (Result wait, None) (put_run bs g m' c)"
  shows "ensures view c (finish_schedule L C now sched loc bs') Q"
proof -
  have ret: "retention_effect L bs' = retention_effect L bs"
    using same_schedule_children [OF same] by (simp add: retention_effect_def fun_eq_iff)
  show ?thesis
    unfolding finish_schedule_def Let_def
  proof (rule ensures_bind, rule applyRetention_effect [OF perm keyed], assumption, unfold ret, rule ensures_bind)
    fix m' assume m': "retention_effect L bs (clBackups c) m'"
    let ?c = "c\<lparr>clBackups := m'\<rparr>"
    have "ensures view ?c (refreshChildStatus C bs') (\<lambda>r c'. c' = ?c \<and> same_schedule (snd r) bs \<and> last_run (snd r) = last_run bs')"
      unfolding refreshChildStatus_def
      by (rule ensures_bind, rule list_children_effect)
        (use child_status_frame same in \<open>auto intro!: ensures_return\<close>)
    then show "ensures view ?c (refreshChildStatus C bs') (\<lambda>a c'. ensures view c' (case a of (x, bs) \<Rightarrow> do {
         r \<leftarrow> StatusUpdate OBackupSchedule (BackupSchedules C)
           (bs\<lparr>bsStatus := (bsStatus bs)\<lparr>bssObservedGeneration := mGeneration (bsMeta bs)\<rparr>\<rparr>);
         case r of Inl err \<Rightarrow> return (Result 0, Some err)
         | Inr _ \<Rightarrow> do { wall \<leftarrow> Now (Clock C);
             return (Result (max (time_sub (CronNext L sched loc now) wall) Minute), None) } }) Q)"
    proof (rule ensures_mono, goal_cases)
      case (1 r c')
      then show ?case
        unfolding prod.case_eq_if
        by (elim conjE, hypsubst, intro ensures_bind put_schedule_effect)
          (use m' stored in \<open>auto intro!: ensures_bind ensures_Now_reading ensures_return Q\<close>)
    qed
  qed
qed

lemma schedule_now_effect:
  assumes "quiet_clock view injected" and "\<And>t. Q t c"
  shows "ensures view c (schedule_now injected C) Q"
proof (cases injected)
  case None
  then show ?thesis using assms(2) by (simp add: schedule_now_def ensures_Now)
next
  case (Some f)
  show ?thesis
    unfolding schedule_now_def Some option.case
  proof (rule ensuresI)
    fix s :: "'w sys" assume "view (world s) = c"
    moreover have "view (snd (f (world s))) = view (world s)"
      using assms(1) Some by (simp add: quiet_clock_def)
    ultimately
    show "Q (fst (run_state (Now f) s)) (view (world (snd (run_state (Now f) s))))"
      using assms(2) by (auto simp: Now_def emit_def split: prod.splits)
  qed
qed

lemma schedule_now_fixed:
  "Q now c \<Longrightarrow> ensures view c (schedule_now (Some (\<lambda>w. (now, w))) C) Q"
  by (rule ensuresI) (simp add: schedule_now_def Now_def emit_def)

abbreviation clock_readings :: "gotime set" where
  "clock_readings \<equiv> range (\<lambda>w. fst (Clock C w))"

lemma schedule_effect_from:
  assumes law: "owner_law L" and perm: "permutes L" and all_keyed: "keyed_backups (clBackups c)"
    and stored: "fmlookup (clBackupSchedules c) (object_key (bsMeta bs)) = Some bs"
    and clock: "\<And>Q. (\<And>now. now \<in> nows \<Longrightarrow> Q now c) \<Longrightarrow> ensures view c (schedule_now injected C) Q"
  shows "ensures view c (BackupSchedule_Reconcile L injected C (object_key (bsMeta bs)))
    (\<lambda>r c'. \<exists>now \<in> nows. schedule_run_at L clock_readings now c bs r c')"
  unfolding BackupSchedule_Reconcile_def
proof (rule ensures_bind, rule clock, rule ensures_bind, rule schedules.ensures_Get, goal_cases)
  case (1 now x)
  with stored have x: "x = bs" by simp
  let ?Q = "schedule_run_at L clock_readings now c bs"
  note keyed = all_keyed [rule_format]
  have invalid: "ensures view c (invalid_schedule C bs reason msg) ?Q"
    if "schedule_parsed L bs = None" for reason msg
    unfolding invalid_schedule_def set_schedule_condition_now_def
  proof (rule ensures_bind, rule ensures_bind, rule ensures_Now, rule ensures_return, rule ensures_bind)
    fix t
    let ?g = "setScheduleCondition t bs ScheduleValid ConditionFalse reason msg"
    have same: "same_schedule ?g bs" by simp
    show "ensures view c (StatusUpdate OBackupSchedule (BackupSchedules C) ?g)
        (\<lambda>r c'. ensures view c' (return (Result (5 * Minute), err_of r)) ?Q)"
      by (rule put_schedule_effect [OF stored same], rule ensures_return)
        (auto simp: schedule_run_at_def that intro!: exI [of _ ?g])
  qed
  have run: "ensures view c (run_schedule L C now sched loc bs') ?Q"
    if parsed: "schedule_parsed L bs = Some (loc, sched)" and same: "same_schedule bs' bs" "last_run bs' = last_run bs"
    for loc sched bs'
  proof -
    have due: "(\<not> bssSuspend (bsSpec bs') \<and> \<not> now < CronNext L sched loc (reference_time now bs')) = due L now sched loc bs"
      and fire: "CronNext L sched loc (reference_time now bs') = next_fire L now sched loc bs"
      using same by (auto simp: due_def next_fire_def reference_time_def)
    have spawn: "spawn_effect bs' = spawn_effect bs"
      using same(1) by (simp add: spawn_effect_def fun_eq_iff scheduled_backup_def)
    show ?thesis
      unfolding run_schedule_def Let_def due
    proof (rule ensures_if)
      assume d: "due L now sched loc bs"
      show "ensures view c (do { r \<leftarrow> spawnBackup L C bs' (CronNext L sched loc (reference_time now bs'));
          case r of Some err \<Rightarrow> return (Result (30 * Second), None)
          | None \<Rightarrow> finish_schedule L C now sched loc (bs'\<lparr>bsStatus := (bsStatus bs')
              \<lparr>bssLastScheduleTime := Some (CronNext L sched loc (reference_time now bs'))\<rparr>\<rparr>) }) ?Q"
        unfolding fire
      proof (rule ensures_bind, rule spawnBackup_effect [OF law], unfold spawn option.case)
        fix m1 assume m1: "spawn_effect bs (next_fire L now sched loc bs) (clBackups c) m1"
        let ?c = "c\<lparr>clBackups := m1\<rparr>"
        have keyed1: "object_key (bMeta b) = k" if "fmlookup (clBackups ?c) k = Some b" for k b
          using m1 that keyed [of k b] by (auto simp: spawn_effect_def Let_def split: if_splits)
        show "ensures view ?c (finish_schedule L C now sched loc (bs'\<lparr>bsStatus := (bsStatus bs')
              \<lparr>bssLastScheduleTime := Some (next_fire L now sched loc bs)\<rparr>\<rparr>)) ?Q"
          by (rule finish_schedule_effect [OF perm keyed1, where bs = bs])
            (use stored same d m1 parsed in \<open>auto simp: schedule_run_at_def\<close>)
      qed
    next
      assume "\<not> due L now sched loc bs"
      then show "ensures view c (finish_schedule L C now sched loc bs') ?Q"
        by (intro finish_schedule_effect [OF perm keyed, where bs = bs])
          (use stored same parsed in \<open>auto simp: schedule_run_at_def\<close>)
    qed
  qed
  show ?case
    unfolding x sum.case set_schedule_condition_now_def
    by (rule ensures_mono [where Q = ?Q], intro ensures_sum ensures_bind ensures_Now ensures_return)
      (use 1(1) in \<open>auto simp: schedule_parsed_def intro!: invalid run\<close>)
qed (use stored in simp)

lemma schedule_effect_at:
  assumes "owner_law L" and "permutes L" and "keyed_backups (clBackups c)"
    and "fmlookup (clBackupSchedules c) (object_key (bsMeta bs)) = Some bs"
  shows "ensures view c (BackupSchedule_Reconcile L (Some (\<lambda>w. (now, w))) C (object_key (bsMeta bs)))
    (schedule_run_at L clock_readings now c bs)"
  by (rule ensures_mono [OF schedule_effect_from [OF assms, where nows = "{now}"]]) (simp_all add: schedule_now_fixed)

lemma schedule_effect:
  assumes "owner_law L" and "permutes L" and clock: "quiet_clock view injected" and "keyed_backups (clBackups c)"
    and "fmlookup (clBackupSchedules c) (object_key (bsMeta bs)) = Some bs"
  shows "ensures view c (BackupSchedule_Reconcile L injected C (object_key (bsMeta bs))) (schedule_run_effect L c bs)"
  by (rule ensures_mono [OF schedule_effect_from [OF assms(1,2,4,5), where nows = UNIV]])
    (auto simp: schedule_run_effect_def intro: schedule_now_effect [OF clock])

end

end
