(* ===== verification/Operator.thy ===== *)
theory Operator
  imports ScheduleEffects
begin

text \<open>
  The operator as a whole: its four reconcilers take turns on one cluster, with the users, the scheduler and
  the storage between them. \<open>operator_ok\<close> says what a turn may change, for every branch of every reconciler;
  \<open>history\<close> is the reflexive and transitive closure of the turns of all, and its invariants are proved by
  induction on it.
\<close>

declare ConditionTrue_def [simp del] ConditionFalse_def [simp del] ConditionReady_def [simp del]
  ConditionTemplateResolved_def [simp del] ConditionConfigValid_def [simp del]
  ConditionRestoreSourceResolved_def [simp del] PhasePending_def [simp del] PhaseProvisioning_def [simp del]
  PhaseReady_def [simp del] PhaseDegraded_def [simp del] PhaseStopped_def [simp del]
  SecurityProfileAnyUID_def [simp del] Second_def [simp del] Minute_def [simp del] Hour_def [simp del]
  BackupScheduleKind_def [simp del] ScheduleValid_def [simp del] BackupKind_def [simp del]
  GameServerKind_def [simp del]

section \<open>What a turn may change\<close>

text \<open>Every object that was there is there, in the relation \<open>R\<close> to what it was.\<close>

definition grown :: "('o \<Rightarrow> 'o \<Rightarrow> bool) \<Rightarrow> (key, 'o) fmap \<Rightarrow> (key, 'o) fmap \<Rightarrow> bool" where
  "grown R m m' \<longleftrightarrow> (\<forall>k z. fmlookup m k = Some z \<longrightarrow> (\<exists>y. fmlookup m' k = Some y \<and> R z y))"

abbreviation same_claim :: "persistent_volume_claim \<Rightarrow> persistent_volume_claim \<Rightarrow> bool" where
  "same_claim z y \<equiv> pvcSpec y = pvcSpec z"

abbreviation same_template :: "game_template \<Rightarrow> game_template \<Rightarrow> bool" where
  "same_template a b \<equiv> tplMeta a = tplMeta b \<and> tplSpec a = tplSpec b"

abbreviation same_backup_object :: "backup \<Rightarrow> backup \<Rightarrow> bool" where
  "same_backup_object a b \<equiv> bMeta a = bMeta b \<and> bSpec a = bSpec b"

definition hardened :: "deployment \<Rightarrow> bool" where
  "hardened d \<longleftrightarrow> restricted_pod (dsTemplateSpec (depSpec d)) \<or> anyuid_pod (dsTemplateSpec (depSpec d))"

text \<open>The Backups that retention may delete.\<close>

definition expendable :: "backup \<Rightarrow> bool" where
  "expendable b \<longleftrightarrow> \<not> bRetainForever (bSpec b) \<and> fmlookup (mLabels (bMeta b)) labelSchedule \<noteq> None"

definition backups_kept :: "(key, backup) fmap \<Rightarrow> (key, backup) fmap \<Rightarrow> bool" where
  "backups_kept m m' \<longleftrightarrow> (\<forall>k b. fmlookup m k = Some b \<longrightarrow>
     (case fmlookup m' k of None \<Rightarrow> expendable b | Some b' \<Rightarrow> same_backup_object b b'))"

definition deployments_safe :: "(key, deployment) fmap \<Rightarrow> (key, deployment) fmap \<Rightarrow> bool" where
  "deployments_safe m m' \<longleftrightarrow> (\<forall>k d. fmlookup m' k = Some d \<longrightarrow> fmlookup m k = Some d \<or> hardened d)"

text \<open>The users' objects keep their specification; the children grow; a world stays; a Backup goes only by
  retention; a Deployment is hardened.\<close>

definition operator_ok :: "cluster \<Rightarrow> cluster \<Rightarrow> bool" where
  "operator_ok c c' \<longleftrightarrow>
     fmrel same_object (clGameServers c) (clGameServers c')
     \<and> fmrel same_template (clGameTemplates c) (clGameTemplates c')
     \<and> fmrel same_schedule (clBackupSchedules c) (clBackupSchedules c')
     \<and> backups_kept (clBackups c) (clBackups c')
     \<and> grown (=) (clVolumeSnapshots c) (clVolumeSnapshots c')
     \<and> grown same_claim (clPVCs c) (clPVCs c')
     \<and> grown (\<lambda>_ _. True) (clDeployments c) (clDeployments c')
     \<and> grown (\<lambda>_ _. True) (clServices c) (clServices c')
     \<and> grown (=) (clServiceAccounts c) (clServiceAccounts c')
     \<and> deployments_safe (clDeployments c) (clDeployments c')"

lemma grown_refl [simp]: "(\<And>z. R z z) \<Longrightarrow> grown R m m"
  by (simp add: grown_def)

lemma grown_trans: "(\<And>a b c. R a b \<Longrightarrow> R b c \<Longrightarrow> R a c) \<Longrightarrow> grown R m m' \<Longrightarrow> grown R m' m'' \<Longrightarrow> grown R m m''"
  unfolding grown_def by meson

lemma grown_put: "(\<And>z. R z z) \<Longrightarrow> (\<And>z. fmlookup m k = Some z \<Longrightarrow> R z y) \<Longrightarrow> grown R m (fmupd k y m)"
  by (simp add: grown_def)

lemma same_refl [simp]: "fmrel same_object m m" "fmrel same_template m' m'" "fmrel same_schedule m'' m''"
  by (simp_all add: fmap.rel_refl)

lemma same_put:
  assumes "fmlookup m k = Some z" and "R z y" and "\<And>x. R x x"
  shows "fmrel R m (fmupd k y m)"
  using assms by (auto simp: fmrel_iff option.rel_refl)

lemma backups_kept_refl [simp]: "backups_kept m m"
  by (simp add: backups_kept_def split: option.split)

lemma deployments_safe_refl [simp]: "deployments_safe m m"
  by (simp add: deployments_safe_def)

lemma operator_ok_refl [simp]: "operator_ok c c"
  by (simp add: operator_ok_def)

text \<open>Only objects at the keys of \<open>K\<close> may differ.\<close>

definition only_at :: "key set \<Rightarrow> (key, 'o) fmap \<Rightarrow> (key, 'o) fmap \<Rightarrow> bool" where
  "only_at K m m' \<longleftrightarrow> (\<forall>j. j \<notin> K \<longrightarrow> fmlookup m' j = fmlookup m j)"

lemma only_at_refl [simp]: "only_at K m m"
  by (simp add: only_at_def)

lemma only_at_trans: "only_at K m m' \<Longrightarrow> only_at K m' m'' \<Longrightarrow> only_at K m m''"
  unfolding only_at_def by metis

lemma only_at_put [simp]: "k \<in> K \<Longrightarrow> only_at K m (fmupd k y m)"
  by (auto simp: only_at_def)

lemma only_atD: "only_at K m m' \<Longrightarrow> j \<notin> K \<Longrightarrow> fmlookup m' j = fmlookup m j"
  unfolding only_at_def by blast

text \<open>What a turn of the GameServer of key \<open>k\<close> whose Services have the keys \<open>S\<close> may change; it is transitive.
  A Deployment has the key of its server.\<close>

definition claim_key :: "key \<Rightarrow> key" where
  "claim_key k = (fst k, snd k @ ''-data'')"

definition server_turn :: "key \<Rightarrow> key set \<Rightarrow> cluster \<Rightarrow> cluster \<Rightarrow> bool" where
  "server_turn k S c c' \<longleftrightarrow>
     (\<exists>m1 m2 m3 m4 m5. c' = c\<lparr>clGameServers := m1, clPVCs := m2, clDeployments := m3, clServices := m4,
          clServiceAccounts := m5\<rparr>
        \<and> fmrel same_object (clGameServers c) m1 \<and> grown same_claim (clPVCs c) m2
        \<and> grown (\<lambda>_ _. True) (clDeployments c) m3 \<and> deployments_safe (clDeployments c) m3
        \<and> grown (\<lambda>_ _. True) (clServices c) m4 \<and> grown (=) (clServiceAccounts c) m5
        \<and> only_at {k} (clGameServers c) m1 \<and> only_at {claim_key k} (clPVCs c) m2
        \<and> only_at {k} (clDeployments c) m3 \<and> only_at S (clServices c) m4
        \<and> only_at {(fst k, DefaultServiceAccountName)} (clServiceAccounts c) m5)"

lemma server_turn_ok: "server_turn k S c c' \<Longrightarrow> operator_ok c c'"
  by (auto simp: server_turn_def operator_ok_def)

lemma server_turnI:
  "fmrel same_object (clGameServers c) m1 \<Longrightarrow> only_at {k} (clGameServers c) m1 \<Longrightarrow>
     server_turn k S c (c\<lparr>clGameServers := m1\<rparr>)"
  "grown same_claim (clPVCs c) m2 \<Longrightarrow> only_at {claim_key k} (clPVCs c) m2 \<Longrightarrow> server_turn k S c (c\<lparr>clPVCs := m2\<rparr>)"
  "grown (\<lambda>_ _. True) (clDeployments c) m3 \<Longrightarrow> deployments_safe (clDeployments c) m3 \<Longrightarrow>
     only_at {k} (clDeployments c) m3 \<Longrightarrow> server_turn k S c (c\<lparr>clDeployments := m3\<rparr>)"
  "grown (\<lambda>_ _. True) (clServices c) m4 \<Longrightarrow> only_at S (clServices c) m4 \<Longrightarrow> server_turn k S c (c\<lparr>clServices := m4\<rparr>)"
  "grown (=) (clServiceAccounts c) m5 \<Longrightarrow> only_at {(fst k, DefaultServiceAccountName)} (clServiceAccounts c) m5 \<Longrightarrow>
     server_turn k S c (c\<lparr>clServiceAccounts := m5\<rparr>)"
  unfolding server_turn_def by (cases c; force)+

lemma server_turn_refl [simp]: "server_turn k S c c"
  using server_turnI(2) [of c "clPVCs c"] by simp

lemma deployments_safe_trans: "deployments_safe m m' \<Longrightarrow> deployments_safe m' m'' \<Longrightarrow> deployments_safe m m''"
  unfolding deployments_safe_def by blast

lemma same_objects_trans:
  assumes "fmrel same_object m m'" and "fmrel same_object m' m''"
  shows "fmrel same_object m m''"
proof -
  have "rel_option same_object (fmlookup m k) (fmlookup m'' k)" for k
    using assms [THEN fmrelD, of k] by (auto elim!: option.rel_cases)
  then show ?thesis by blast
qed

lemma server_turn_trans:
  assumes "server_turn k S c c'" and "server_turn k S c' c''"
  shows "server_turn k S c c''"
proof -
  from assms(1) obtain m1 m2 m3 m4 m5 where c': "c' = c\<lparr>clGameServers := m1, clPVCs := m2, clDeployments := m3,
      clServices := m4, clServiceAccounts := m5\<rparr>"
    and m: "fmrel same_object (clGameServers c) m1" "grown same_claim (clPVCs c) m2"
      "grown (\<lambda>_ _. True) (clDeployments c) m3" "deployments_safe (clDeployments c) m3"
      "grown (\<lambda>_ _. True) (clServices c) m4" "grown (=) (clServiceAccounts c) m5"
    and mk: "only_at {k} (clGameServers c) m1" "only_at {claim_key k} (clPVCs c) m2"
      "only_at {k} (clDeployments c) m3" "only_at S (clServices c) m4"
      "only_at {(fst k, DefaultServiceAccountName)} (clServiceAccounts c) m5"
    unfolding server_turn_def by blast
  from assms(2) obtain n1 n2 n3 n4 n5 where c'': "c'' = c'\<lparr>clGameServers := n1, clPVCs := n2, clDeployments := n3,
      clServices := n4, clServiceAccounts := n5\<rparr>"
    and n: "fmrel same_object m1 n1" "grown same_claim m2 n2" "grown (\<lambda>_ _. True) m3 n3" "deployments_safe m3 n3"
      "grown (\<lambda>_ _. True) m4 n4" "grown (=) m5 n5"
    and nk: "only_at {k} m1 n1" "only_at {claim_key k} m2 n2" "only_at {k} m3 n3" "only_at S m4 n4"
      "only_at {(fst k, DefaultServiceAccountName)} m5 n5"
    unfolding server_turn_def by (auto simp: c')
  have "c'' = c\<lparr>clGameServers := n1, clPVCs := n2, clDeployments := n3, clServices := n4, clServiceAccounts := n5\<rparr>"
    by (simp add: c'' c')
  moreover have "fmrel same_object (clGameServers c) n1" using m(1) n(1) by (rule same_objects_trans)
  moreover have "grown same_claim (clPVCs c) n2" by (rule grown_trans [OF _ m(2) n(2)]) simp
  moreover have "grown (\<lambda>_ _. True) (clDeployments c) n3" by (rule grown_trans [OF _ m(3) n(3)]) simp
  moreover have "deployments_safe (clDeployments c) n3" using m(4) n(4) by (rule deployments_safe_trans)
  moreover have "grown (\<lambda>_ _. True) (clServices c) n4" by (rule grown_trans [OF _ m(5) n(5)]) simp
  moreover have "grown (=) (clServiceAccounts c) n5" by (rule grown_trans [OF _ m(6) n(6)]) simp
  moreover have "only_at {k} (clGameServers c) n1" "only_at {claim_key k} (clPVCs c) n2"
    "only_at {k} (clDeployments c) n3" "only_at S (clServices c) n4"
    "only_at {(fst k, DefaultServiceAccountName)} (clServiceAccounts c) n5"
    using mk nk by (blast intro: only_at_trans)+
  ultimately show ?thesis unfolding server_turn_def by blast
qed

section \<open>A turn of a GameServer, on every branch\<close>

text \<open>The keys of the Services that a server has by its template.\<close>

definition own_services :: "game_server \<Rightarrow> game_template \<Rightarrow> key set" where
  "own_services gs tpl = (\<lambda>b. object_key (svcMeta b)) ` set (BuildServices gs tpl)"

definition service_scope :: "cluster \<Rightarrow> key \<Rightarrow> key set" where
  "service_scope c k =
     (case fmlookup (clGameServers c) k of
        None \<Rightarrow> {}
      | Some gs \<Rightarrow> (case fmlookup (clGameTemplates c) ('''', gsTemplateRefName (gsSpec gs)) of
          None \<Rightarrow> {} | Some tpl \<Rightarrow> own_services gs tpl))"

lemma own_services_same:
  assumes "same_object a b"
  shows "own_services a tpl = own_services b tpl"
  unfolding own_services_def same_object_exposure(3) [OF assms] ..

lemma server_keys:
  "(mNamespace (gsMeta gs), PVCName gs) = claim_key (object_key (gsMeta gs))"
  "(mNamespace (gsMeta gs), DeploymentName gs) = object_key (gsMeta gs)"
  by (simp_all add: claim_key_def PVCName_def DeploymentName_def object_key_def)

lemma child_key:
  fixes gs :: game_server and m :: object_meta
  assumes "owner_law L" and "SetControllerReference L (GameServerKind, gsMeta gs) m = Inr m'"
    and "mOwnerReferences m = []" and "mNamespace m = mNamespace (gsMeta gs)"
  shows "object_key m' = object_key m"
  using owned_law(1,2) [OF assms(1,3,4)] assms(2) by simp

lemma built_hardened: "depSpec d = depSpec (BuildDeployment L gs tpl) \<Longrightarrow> hardened d"
  using deployment_posture [of tpl L gs] by (auto simp: hardened_def split: if_splits)

text \<open>The server that a turn is about is stored and has been changed in its status at most.\<close>

definition on_turn :: "key \<Rightarrow> key set \<Rightarrow> cluster \<Rightarrow> game_server \<Rightarrow> cluster \<Rightarrow> bool" where
  "on_turn k S c0 g c \<longleftrightarrow> server_turn k S c0 c \<and> object_key (gsMeta g) = k
     \<and> (\<exists>z. fmlookup (clGameServers c) k = Some z \<and> same_object g z)"

lemma on_turn_step:
  assumes "on_turn k S c0 g c" and "server_turn k S c c'" and "clGameServers c' = clGameServers c"
  shows "on_turn k S c0 g c'"
  using assms server_turn_trans [of _ _ c0 c c'] by (simp add: on_turn_def)

lemma on_turn_same: "on_turn k S c0 g c \<Longrightarrow> same_object g' g \<Longrightarrow> on_turn k S c0 g' c"
  by (auto simp: on_turn_def)

context api_server
begin

lemma status_turn:
  assumes "on_turn k S c0 g c"
  shows "ensures view c (updateStatus C g) (\<lambda>_ c'. server_turn k S c0 c')"
proof -
  from assms obtain z where z: "fmlookup (clGameServers c) k = Some z" "same_object g z"
    and turn: "server_turn k S c0 c" and k: "object_key (gsMeta g) = k"
    unfolding on_turn_def by blast
  have "server_turn k S c (c\<lparr>clGameServers := fmupd k (z\<lparr>gsStatus := gsStatus g\<rparr>) (clGameServers c)\<rparr>)"
    by (rule server_turnI(1), rule same_put [OF z(1)]) simp_all
  with turn show ?thesis
    unfolding updateStatus_def
    by (intro servers.ensures_StatusUpdate [where z = z]) (auto simp: z(1) k cluster_put intro: server_turn_trans)
qed

lemma status_then_return:
  assumes "on_turn k S c0 g c"
  shows "ensures view c (do { r \<leftarrow> updateStatus C g; return (f r) }) (\<lambda>_ c'. server_turn k S c0 c')"
  by (rule ensures_bind, rule ensures_mono [OF status_turn [OF assms]], rule ensures_return)

lemma condition_turn:
  assumes "on_turn k S c0 g c" and "\<And>g'. same_object g' g \<Longrightarrow> on_turn k S c0 g' c \<Longrightarrow> ensures view c (f g') Q"
  shows "ensures view c (State_Monad.bind (set_condition_now C g t st r m) f) Q"
  by (rule ensures_bind, rule set_condition_effect, rule assms(2)) (use assms(1) on_turn_same in auto)

lemma failure_turn:
  assumes "on_turn k S c0 g c"
  shows "ensures view c (report_failure C g t r m ph) (\<lambda>_ c'. server_turn k S c0 c')"
  unfolding report_failure_def
  by (rule condition_turn [OF assms], rule status_then_return) (erule on_turn_same, simp)

lemma turn_return: "on_turn k S c0 g c \<Longrightarrow> ensures view c (return r) (\<lambda>_ c'. server_turn k S c0 c')"
  by (simp add: on_turn_def ensures_return)

lemma report_turn:
  assumes g: "on_turn k S c0 g c"
  shows "ensures view c (report_status C g tpl svcs) (\<lambda>_ c'. server_turn k S c0 c')"
proof -
  have finish: "ensures view c (do { ru \<leftarrow> updateStatus C g';
        case ru of Inl err \<Rightarrow> return (Result 0, Some err)
        | Inr gs \<Rightarrow> if gsPhase (gsStatus gs) \<noteq> PhaseReady then return (Result (10 * Second), None)
            else return (Result 0, None) }) (\<lambda>_ c'. server_turn k S c0 c')" if "on_turn k S c0 g' c" for g'
    by (rule ensures_bind, rule ensures_mono [OF status_turn [OF that]])
      (intro ensures_sum ensures_if ensures_return)
  have now: "on_turn k S c0 (set_phase ph (status_of g tpl d svcs)) c" for ph d
    using g by (rule on_turn_same) simp
  show ?thesis
    unfolding report_status_def Let_def
    by (intro ensures_bind [of _ _ "Get _ _ _"] deployments.ensures_Get)
      (auto simp: if_distrib [of "\<lambda>m. State_Monad.bind m _"] intro!: turn_return [OF g] condition_turn [OF now] finish
        cong: sum.case_cong split: if_splits)
qed

lemma service_turn:
  assumes "on_turn k S c0 g c" and "object_key (svcMeta d) \<in> S"
    and "\<And>y c'. on_turn k S c0 g c' \<Longrightarrow> ensures view c' (f (Inr y)) Q"
  shows "ensures view c (State_Monad.bind (applyService C d) f) Q"
  by (rule ensures_bind, rule applyService_effect, rule assms(3), rule on_turn_step [OF assms(1)])
    (auto intro!: server_turnI grown_put simp: assms(2))

lemma services_turn:
  assumes law: "owner_law L" and "on_turn k S c0 g c" and "set bs \<subseteq> set (BuildServices g tpl)" and "own_services g tpl \<subseteq> S"
    and "\<And>r c'. on_turn k S c0 g c' \<Longrightarrow> ensures view c' (f r) Q"
  shows "ensures view c (State_Monad.bind (apply_services L C g bs acc) f) Q"
proof (rule ensures_bind)
  have "ensures view c (apply_services L C g bs acc) (\<lambda>r c'. on_turn k S c0 g c')" using assms(2,3)
  proof (induction bs arbitrary: acc c)
    case Nil
    then show ?case by (simp add: ensures_return)
  next
    case (Cons b bs)
    from Cons.prems(2) have b: "b \<in> set (BuildServices g tpl)" by simp
    have key: "object_key m \<in> S" if "SetControllerReference L (GameServerKind, gsMeta g) (svcMeta b) = Inr m" for m
      using child_key [OF law that] built_service_metas [OF b] assms(4) b by (auto simp: own_services_def)
    show ?case
      unfolding apply_services.simps
      by (rule ensures_sum, rule ensures_return, rule Cons.prems, rule service_turn [OF Cons.prems(1)])
        (use Cons key in simp_all)
  qed
  then show "ensures view c (apply_services L C g bs acc) (\<lambda>r c'. ensures view c' (f r) Q)"
    by (rule ensures_mono) (rule assms(5))
qed

lemma workload_turn:
  assumes law: "owner_law L" and g: "on_turn k S c0 g c" and S: "own_services g tpl \<subseteq> S"
  shows "ensures view c (reconcile_workload L C g tpl) (\<lambda>_ c'. server_turn k S c0 c')"
  unfolding reconcile_workload_def Let_def
proof (rule ensures_sum, rule turn_return [OF g], rule ensures_bind, rule applyDeployment_effect, unfold option.case)
  fix m y
  let ?d = "BuildDeployment L g tpl\<lparr>depMeta := m\<rparr>"
  assume "SetControllerReference L (GameServerKind, gsMeta g) (depMeta (BuildDeployment L g tpl)) = Inr m"
  from child_key [OF law this] g have key: "object_key m = k"
    by (simp add: built_metas server_keys on_turn_def)
  assume "deployment_applied (fmlookup (clDeployments c) (object_key (depMeta ?d))) ?d y"
  then have "hardened y" by (intro built_hardened [of _ L g tpl]) (simp add: deployment_applied_def)
  then have "on_turn k S c0 g (c\<lparr>clDeployments := fmupd (object_key (depMeta ?d)) y (clDeployments c)\<rparr>)"
    by (intro on_turn_step [OF g] server_turnI grown_put) (auto simp: deployments_safe_def key)
  then show "ensures view (c\<lparr>clDeployments := fmupd (object_key (depMeta ?d)) y (clDeployments c)\<rparr>)
      (do { rs \<leftarrow> apply_services L C g (BuildServices g tpl) [];
            case rs of Inl err \<Rightarrow> return (Result 0, Some err)
            | Inr appliedSvcs \<Rightarrow> report_status C g tpl appliedSvcs }) (\<lambda>_ c'. server_turn k S c0 c')"
    by (rule services_turn [OF law _ subset_refl S]) (intro ensures_sum turn_return report_turn)
qed

lemma pvc_turn:
  assumes law: "owner_law L" and g: "on_turn k S c0 g c" and S: "own_services g tpl \<subseteq> S"
  shows "ensures view c (reconcile_pvc L C g tpl snap) (\<lambda>_ c'. server_turn k S c0 c')"
  unfolding reconcile_pvc_def
proof (intro ensures_sum condition_turn [OF g] status_then_return turn_return [OF g], assumption,
    rule ensures_bind, rule applyPVC_effect, unfold option.case)
  fix p :: persistent_volume_claim and m y
  let ?d = "p\<lparr>pvcMeta := m\<rparr>"
  assume "BuildPVC L g tpl snap = Inr p" and m: "SetControllerReference L (GameServerKind, gsMeta g) (pvcMeta p) = Inr m"
  then obtain qty where "p = pvc_of g qty snap" by (auto simp: BuildPVC_eq split: sum.splits)
  with child_key [OF law m] g have key: "object_key m = claim_key k"
    by (simp add: built_metas server_keys on_turn_def)
  assume "pvc_applied (fmlookup (clPVCs c) (object_key (pvcMeta ?d))) ?d y"
  then have "on_turn k S c0 g (c\<lparr>clPVCs := fmupd (object_key (pvcMeta ?d)) y (clPVCs c)\<rparr>)"
    by (intro on_turn_step [OF g] server_turnI grown_put) (auto simp: pvc_applied_def key)
  then show "ensures view (c\<lparr>clPVCs := fmupd (object_key (pvcMeta ?d)) y (clPVCs c)\<rparr>) (reconcile_workload L C g tpl)
      (\<lambda>_ c'. server_turn k S c0 c')"
    by (rule workload_turn [OF law _ S])
qed

lemma restore_turn:
  assumes "on_turn k S c0 g c" and "\<And>r. ensures view c (f r) Q"
  shows "ensures view c (State_Monad.bind (resolveRestoreSource C g) f) Q"
  unfolding resolveRestoreSource_def
  by (intro ensures_bind ensures_option ensures_sum ensures_if ensures_return claims.ensures_Get backups.ensures_Get assms(2))

lemma storage_turn:
  assumes law: "owner_law L" and g: "on_turn k S c0 g c" and S: "own_services g tpl \<subseteq> S"
  shows "ensures view c (reconcile_storage L C g tpl) (\<lambda>_ c'. server_turn k S c0 c')"
  unfolding reconcile_storage_def
proof (rule restore_turn [OF g], rule ensures_sum, rule failure_turn [OF g])
  fix snap
  show "ensures view c (do { gs \<leftarrow> (if gsRestoreFrom (gsSpec g) \<noteq> None then
            set_condition_now C g ConditionRestoreSourceResolved ConditionTrue ''SnapshotBound''
              ''restoreFrom Backup snapshot ready'' else return g);
         reconcile_pvc L C gs tpl snap }) (\<lambda>_ c'. server_turn k S c0 c')"
  proof (cases "gsRestoreFrom (gsSpec g) = None")
    case True
    then show ?thesis by (simp add: pvc_turn [OF law g S] ensures_bind [of _ _ "return g"] ensures_return)
  next
    case False
    have "own_services g' tpl \<subseteq> S" if "same_object g' g" for g'
      using S own_services_same [OF that] by simp
    with False show ?thesis by (simp add: condition_turn [OF g] pvc_turn [OF law])
  qed
qed

lemma resolved_turn:
  assumes law: "owner_law L" and g: "on_turn k S c0 g c" and S: "own_services g tpl \<subseteq> S"
  shows "ensures view c (reconcile_resolved L C g tpl) (\<lambda>_ c'. server_turn k S c0 c')"
  unfolding reconcile_resolved_def
proof (rule ensures_option, rule condition_turn [OF g])
  fix g' assume "same_object g' g" and g': "on_turn k S c0 g' c"
  from own_services_same [OF this(1)] S have S': "own_services g' tpl \<subseteq> S" by simp
  have rest: "ensures view c' (case r of Some err \<Rightarrow> return (Result 0, Some err) | None \<Rightarrow> reconcile_storage L C g' tpl)
      (\<lambda>_ c'. server_turn k S c0 c')" if "on_turn k S c0 g' c'" for r c'
    by (intro ensures_option storage_turn [OF law _ S'] turn_return [OF that] that)
  have account: "on_turn k S c0 g' (c\<lparr>clServiceAccounts := m\<rparr>)"
    if "grown (=) (clServiceAccounts c) m" and "only_at {(fst k, DefaultServiceAccountName)} (clServiceAccounts c) m" for m
    by (rule on_turn_step [OF g']) (simp_all add: server_turnI that del: DefaultServiceAccountName_def)
  have ns: "mNamespace (gsMeta g') = fst k" using g' by (auto simp: on_turn_def object_key_def)
  show "ensures view c (do { r \<leftarrow> (if tplSecurityProfile (tplSpec tpl) \<noteq> SecurityProfileAnyUID
          then ensureServiceAccount C g' else return None);
        case r of Some err \<Rightarrow> return (Result 0, Some err) | None \<Rightarrow> reconcile_storage L C g' tpl }) (\<lambda>_ c'. server_turn k S c0 c')"
    by (rule ensures_bind, rule ensures_if, rule ensureServiceAccount_effect, rule rest, rule account)
      (auto intro!: ensures_return rest [OF g'] grown_put simp: ns simp del: DefaultServiceAccountName_def split: if_splits)
qed (rule failure_turn [OF g])

lemma server_run_turn:
  assumes law: "owner_law L"
  shows "ensures view c (GameServer_Reconcile L C k) (\<lambda>_ c'. server_turn k (service_scope c k) c c')"
  unfolding GameServer_Reconcile_def
proof (rule ensures_bind, rule servers.ensures_Get, goal_cases)
  case (1 gs)
  then have g: "on_turn k (service_scope c k) c gs c" by (simp add: on_turn_def)
  have S: "own_services g' tpl \<subseteq> service_scope c k"
    if "same_object g' gs" and "fmlookup (clGameTemplates c) ('''', gsTemplateRefName (gsSpec gs)) = Some tpl" for g' tpl
    using that 1 own_services_same [OF that(1)] by (simp add: service_scope_def)
  show ?case
    unfolding sum.case
    by (rule ensures_bind, rule templates.ensures_Get, unfold sum.case, rule condition_turn [OF g])
      (auto intro!: resolved_turn [OF law _ S] ensures_if failure_turn [OF g] turn_return [OF g])
qed (simp add: ensures_return)

end

section \<open>The turns of the other reconcilers\<close>

lemma put_backup_ok:
  assumes "fmlookup (clBackups c) (object_key (bMeta b)) = Some b" and "same_backup_object b b'"
  shows "operator_ok c (put_backup b b' c)"
  using assms by (auto simp: operator_ok_def backups_kept_def split: option.split)

lemma backup_effect_ok:
  assumes stored: "fmlookup (clBackups c) (object_key (bMeta b)) = Some b" and eff: "backup_run_effect c b r c'"
  shows "operator_ok c c'"
proof -
  have fresh: "operator_ok c (c\<lparr>clVolumeSnapshots := fmupd k vs (clVolumeSnapshots c),
      clBackups := fmupd (object_key (bMeta b)) b' (clBackups c)\<rparr>)"
    if "fmlookup (clVolumeSnapshots c) k = None" "same_backup_object b b'" for k vs b'
    using put_backup_ok [OF stored that(2)] that(1) by (auto simp: operator_ok_def grown_def)
  show ?thesis
    using eff unfolding backup_run_effect_def Let_def
    by (auto simp: waits_for_server_def snapshot_requested_def mirror_ok_def intro!: put_backup_ok [OF stored] fresh
        split: option.splits)
qed

lemma retention_kept:
  assumes "permutes L" and keyed: "keyed_backups m" and eff: "retention_effect L bs m m'"
  shows "backups_kept m m'"
  unfolding backups_kept_def
proof (intro allI impI)
  fix k b assume b: "fmlookup m k = Some b"
  from eff obtain items where items: "set items = children_of bs m"
    and m': "m' = drop_backups (surplus (effective_keep bs) (SortNewestFirst L items)) m"
    unfolding retention_effect_def by blast
  have "expendable g" if "g \<in> set (surplus (effective_keep bs) (SortNewestFirst L items))" for g
  proof -
    from that have g: "g \<in> set (filter (\<lambda>b. \<not> bRetainForever (bSpec b)) (SortNewestFirst L items))"
      unfolding surplus_def by (rule in_set_dropD)
    then have "g \<in> children_of bs m" using items by (simp add: permutes_simps [OF assms(1)])
    then show ?thesis
      using g by (auto simp: expendable_def children_of_def selects_def fmpred_iff)
  qed
  moreover have "object_key (bMeta g) = k \<Longrightarrow> g = b" if "g \<in> set (surplus (effective_keep bs) (SortNewestFirst L items))" for g
  proof -
    from that have "g \<in> set (SortNewestFirst L items)" unfolding surplus_def by (auto dest: in_set_dropD)
    then have "g \<in> fmran' m" using items by (simp add: permutes_simps [OF assms(1)] children_of_def)
    then have "fmlookup m (object_key (bMeta g)) = Some g" using keyed by (auto simp: fmran'_def)
    then show "object_key (bMeta g) = k \<Longrightarrow> g = b" using b by simp
  qed
  ultimately show "case fmlookup m' k of None \<Rightarrow> expendable b | Some b' \<Rightarrow> same_backup_object b b'"
    using b by (auto simp: m' drop_backups_lookup)
qed

lemma schedule_effect_ok:
  assumes "permutes L" and keyed: "keyed_backups (clBackups c)"
    and stored: "fmlookup (clBackupSchedules c) (object_key (bsMeta bs)) = Some bs" and eff: "schedule_run_effect L c bs r c'"
  shows "operator_ok c c'"
proof -
  have put: "fmrel same_schedule (clBackupSchedules c) (fmupd (object_key (bsMeta bs)) g (clBackupSchedules c))"
    if "same_schedule g bs" for g
    by (rule same_put [OF stored]) (use that in simp_all)
  have kept: "backups_kept (clBackups c) m2"
    if spawn: "m1 = clBackups c \<or> spawn_effect bs fire (clBackups c) m1" and ret: "retention_effect L bs m1 m2" for fire m1 m2
  proof -
    have sub: "fmlookup m1 k = Some b" if "fmlookup (clBackups c) k = Some b" for k b
      using spawn that by (auto simp: spawn_effect_def Let_def split: if_splits)
    have "object_key (bMeta b) = k" if "fmlookup m1 k = Some b" for k b
      using spawn that keyed [rule_format, of k b] by (auto simp: spawn_effect_def Let_def split: if_splits)
    then have "keyed_backups m1" by blast
    from retention_kept [OF assms(1) this ret] sub show ?thesis by (auto simp: backups_kept_def)
  qed
  show ?thesis
  proof (cases "schedule_parsed L bs")
    case None
    with eff put show ?thesis by (auto simp: schedule_run_effect_def schedule_run_at_def operator_ok_def)
  next
    case (Some p)
    obtain loc sched where p: "p = (loc, sched)" by (cases p)
    from eff obtain now m1 m2 g where spawn: "if due L now sched loc bs
        then spawn_effect bs (next_fire L now sched loc bs) (clBackups c) m1 \<and> last_run g = Some (next_fire L now sched loc bs)
        else m1 = clBackups c \<and> last_run g = last_run bs"
      and g: "same_schedule g bs" and ret: "retention_effect L bs m1 m2" and c': "c' = put_run bs g m2 c"
      unfolding schedule_run_effect_def schedule_run_at_def Some p option.case prod.case by blast
    have "m1 = clBackups c \<or> spawn_effect bs (next_fire L now sched loc bs) (clBackups c) m1"
      using spawn by (cases "due L now sched loc bs") simp_all
    from kept [OF this ret] put [OF g] show ?thesis unfolding c' by (simp add: operator_ok_def)
  qed
qed

context api_server
begin

lemma backup_run_ok:
  assumes "owner_law L"
  shows "ensures view c (Backup_Reconcile L C k) (\<lambda>_ c'. operator_ok c c')"
proof (cases "fmlookup (clBackups c) k")
  case None
  then show ?thesis
    unfolding Backup_Reconcile_def by (intro ensures_bind [of _ _ "Get _ _ _"] backups.ensures_Get) (auto intro: ensures_return)
next
  case (Some b)
  show ?thesis
  proof (rule ensuresI)
    fix s :: "'w sys" assume c: "view (world s) = c"
    then have k: "object_key (bMeta b) = k" using backups_keyed [of "world s" k b] Some by simp
    then have stored: "fmlookup (clBackups c) (object_key (bMeta b)) = Some b" using Some by simp
    from ensures_resultD [OF backup_effect [OF assms stored, folded c]] backup_effect_ok [OF stored]
    show "operator_ok c (view (world (snd (run_state (Backup_Reconcile L C k) s))))"
      unfolding k c by blast
  qed
qed

lemma schedule_run_ok:
  assumes "owner_law L" and "permutes L" and "quiet_clock view injected"
  shows "ensures view c (BackupSchedule_Reconcile L injected C k) (\<lambda>_ c'. operator_ok c c')"
proof (cases "fmlookup (clBackupSchedules c) k")
  case None
  then show ?thesis
    unfolding BackupSchedule_Reconcile_def
    by (intro ensures_bind schedule_now_effect [OF assms(3)] schedules.ensures_Get) (auto intro: ensures_return)
next
  case (Some bs)
  show ?thesis
  proof (rule ensuresI)
    fix s :: "'w sys" assume c: "view (world s) = c"
    then have k: "object_key (bsMeta bs) = k" using schedules.keyed [of "world s" k bs] Some by simp
    then have stored: "fmlookup (clBackupSchedules c) (object_key (bsMeta bs)) = Some bs" using Some by simp
    have keyed: "keyed_backups (clBackups c)" unfolding c [symmetric] using backups_keyed by blast
    from ensures_resultD [OF schedule_effect [OF assms keyed stored, folded c]] schedule_effect_ok [OF assms(2) keyed stored]
    show "operator_ok c (view (world (snd (run_state (BackupSchedule_Reconcile L injected C k) s))))"
      unfolding k c by blast
  qed
qed

lemma template_run_ok: "ensures view c (GameTemplate_Reconcile C k) (\<lambda>_ c'. operator_ok c c')"
  unfolding GameTemplate_Reconcile_def
proof (rule ensures_bind, rule templates.ensures_Get, goal_cases)
  case (1 tpl)
  have put: "operator_ok c (c\<lparr>clGameTemplates := fmupd k (tpl\<lparr>tplStatus := st\<rparr>) (clGameTemplates c)\<rparr>)" for st
    using same_put [OF 1(1), of same_template "tpl\<lparr>tplStatus := st\<rparr>"] by (simp add: operator_ok_def)
  show ?case
    unfolding sum.case Let_def
    by (intro ensures_bind [of _ _ "List_objs _ _ _ _"] servers.ensures_List, unfold sum.case)
      (auto simp: 1 cluster_put put intro!: ensures_bind [of _ _ "Now _"] ensures_bind [of _ _ "StatusUpdate _ _ _"]
        ensures_Now ensures_return templates.ensures_StatusUpdate [where z = tpl])
qed (simp add: ensures_return)

end

end
