(* ===== verification/ScheduleProperties.thy ===== *)
theory ScheduleProperties
  imports ScheduleFacts
begin

text \<open>
  Properties of a reconcile of a BackupSchedule: which runs fire, that no run fires twice or under two names,
  what retention deletes and keeps, what the status says about the children, and that a schedule always
  wakes up again. The hypotheses on the library are the documented contracts of \<open>slices.SortFunc\<close> and of the
  cron package's \<open>Next\<close>.
\<close>

section \<open>Contracts and demo runs\<close>

definition newest_first :: "(backup list \<Rightarrow> backup list) \<Rightarrow> bool" where
  "newest_first f \<longleftrightarrow> (\<forall>xs. mset (f xs) = mset xs
     \<and> sorted_wrt (\<lambda>a b. mCreationTimestamp (bMeta a) \<ge> mCreationTimestamp (bMeta b)) (f xs))"

text \<open>\<open>Next\<close> answers a later instant, or the zero time when the schedule never fires again.\<close>

definition cron_contract :: "lib \<Rightarrow> bool" where
  "cron_contract L \<longleftrightarrow> (\<forall>sched loc t. CronNext L sched loc t > t \<or> CronNext L sched loc t = zero_time)"

lemma demo_newest_first: "newest_first (SortNewestFirst demo_lib)"
proof -
  have "sorted_wrt (\<lambda>a b. mCreationTimestamp (bMeta a) \<ge> mCreationTimestamp (bMeta b))
      (sort_key (\<lambda>b. - mCreationTimestamp (bMeta b)) xs)" for xs :: "backup list"
    using sorted_sort_key [of "\<lambda>b. - mCreationTimestamp (bMeta b)" xs]
    by (simp only: sorted_map neg_le_iff_le)
  then show ?thesis by (simp add: newest_first_def)
qed

lemma demo_cron: "cron_contract demo_lib"
proof -
  have "t mod Hour < Hour" for t by (simp add: Hour_def Minute_def Second_def)
  then show ?thesis by (simp add: cron_contract_def)
qed

abbreviation bs_run :: "lib \<Rightarrow> ('w \<Rightarrow> gotime \<times> 'w) option \<Rightarrow> 'w client \<Rightarrow> key \<Rightarrow> 'w sys \<Rightarrow> event list" where
  "bs_run L injected C req s \<equiv> events (BackupSchedule_Reconcile L injected C req) s"

text \<open>A schedule that keeps one Backup, with three children of which one is retained forever.\<close>

definition demo_children :: "backup list" where
  "demo_children = [demo_backup ''nightly-a'' 100 False, demo_backup ''nightly-b'' 300 False,
     demo_backup ''nightly-c'' 200 True]"

definition schedule_cluster :: "int client" where
  "schedule_cluster = demo_client None None None demo_children (Some (demo_schedule 1 None)) None None None None"

lemma demo_surplus:
  "surplus (effective_keep (demo_schedule 1 None)) (SortNewestFirst demo_lib demo_children) =
     [demo_backup ''nightly-a'' 100 False]"
  by (simp add: surplus_def effective_keep_def demo_children_def demo_defs insort_key_def)

lemma demo_facts_schedule [simp]:
  "bssTimeZone (bsSpec (demo_schedule 1 None)) = ''''" "bssLastScheduleTime (bsStatus (demo_schedule 1 None)) = None"
  "\<not> bssSuspend (bsSpec (demo_schedule 1 None))" "effective_keep (demo_schedule 1 None) = 1"
  by (simp_all add: demo_defs effective_keep_def)

lemma demo_keep_condition [simp]:
  "effective_keep (setScheduleCondition now bs t st r m) = effective_keep bs"
  "effective_keep (bs\<lparr>bsStatus := st'\<rparr>) = effective_keep bs"
  by (simp_all add: effective_keep_def)

lemma demo_run_retention:
  "effective_keep bs = 1 \<Longrightarrow> run_state (applyRetention demo_lib schedule_cluster bs) s =
     (None, s\<lparr>trace := trace s @ map (EvRead \<circ> OBackup) demo_children
        @ [EvDelete (OBackup (demo_backup ''nightly-a'' 100 False))]\<rparr>)"
  by (simp add: applyRetention_def list_children_def schedule_cluster_def demo_children_def demo_defs)

lemma demo_run_refresh:
  "run_state (refreshChildStatus schedule_cluster bs) s =
     ((None, child_status demo_children bs), s\<lparr>trace := trace s @ map (EvRead \<circ> OBackup) demo_children\<rparr>)"
  by (simp add: refreshChildStatus_def list_children_def schedule_cluster_def)

lemma demo_fire: "24 * Hour + 5 - 24 * Hour - (24 * Hour + 5 - 24 * Hour) mod Hour + Hour = Hour"
  by (simp add: Hour_def Minute_def Second_def)

lemma schedule_cluster_simps [simp]:
  "BackupSchedules schedule_cluster = static_ops (Some (demo_schedule 1 None)) []"
  "Backups schedule_cluster = static_ops None demo_children"
  "Clock schedule_cluster = (\<lambda>t. (t, t + Second))"
  by (simp_all add: schedule_cluster_def)

lemma demo_reconcile:
  "\<exists>bs' es es' m. events (BackupSchedule_Reconcile demo_lib None schedule_cluster req) (at_time (24 * Hour + 5)) =
     EvRead (OBackupSchedule (demo_schedule 1 None))
     # EvCreate (OBackup (scheduled_backup (demo_schedule 1 None) Hour\<lparr>bMeta := m\<rparr>))
     # es @ [EvDelete (OBackup (demo_backup ''nightly-a'' 100 False))] @ es' @ [EvUpdateStatus (OBackupSchedule bs')]"
proof -
  have sb: "scheduled_backup (setScheduleCondition now bs t st r m) f = scheduled_backup bs f" for now bs t st r m f
    by (simp add: scheduled_backup_def)
  have hour: "5 mod Hour = 5" "\<not> 23 * Hour < - 5" by (simp_all add: Hour_def Minute_def Second_def)
  have "\<exists>es es'. map (EvRead \<circ> OBackup) demo_children @ d # map (EvRead \<circ> OBackup) demo_children =
      es @ d # es'" for d
    by blast
  moreover have "\<exists>m. b\<lparr>bMeta := m'\<rparr> = b\<lparr>bMeta := m\<rparr>" for b :: backup and m' by blast
  ultimately show ?thesis
    by (simp add: events_def BackupSchedule_Reconcile_def schedule_now_def loadLocation_def
        set_schedule_condition_now_def run_schedule_def reference_time_def spawnBackup_def finish_schedule_def
        Let_def demo_run_retention demo_run_refresh sb hour)
qed

lemma demo_members:
  "\<exists>m. EvCreate (OBackup (scheduled_backup (demo_schedule 1 None) Hour\<lparr>bMeta := m\<rparr>))
     \<in> set (bs_run demo_lib None schedule_cluster req (at_time (24 * Hour + 5)))"
  "EvDelete (OBackup (demo_backup ''nightly-a'' 100 False))
     \<in> set (bs_run demo_lib None schedule_cluster req (at_time (24 * Hour + 5)))"
  "\<exists>bs'. EvUpdateStatus (OBackupSchedule bs')
     \<in> set (bs_run demo_lib None schedule_cluster req (at_time (24 * Hour + 5)))"
proof -
  obtain bs' es es' m where run: "bs_run demo_lib None schedule_cluster req (at_time (24 * Hour + 5)) =
     EvRead (OBackupSchedule (demo_schedule 1 None))
     # EvCreate (OBackup (scheduled_backup (demo_schedule 1 None) Hour\<lparr>bMeta := m\<rparr>))
     # es @ [EvDelete (OBackup (demo_backup ''nightly-a'' 100 False))] @ es' @ [EvUpdateStatus (OBackupSchedule bs')]"
    using demo_reconcile [of req] by blast
  show "\<exists>m. EvCreate (OBackup (scheduled_backup (demo_schedule 1 None) Hour\<lparr>bMeta := m\<rparr>))
     \<in> set (bs_run demo_lib None schedule_cluster req (at_time (24 * Hour + 5)))"
    unfolding run by (intro exI [of _ m]) simp
  show "EvDelete (OBackup (demo_backup ''nightly-a'' 100 False))
     \<in> set (bs_run demo_lib None schedule_cluster req (at_time (24 * Hour + 5)))"
    unfolding run by simp
  show "\<exists>bs'. EvUpdateStatus (OBackupSchedule bs')
     \<in> set (bs_run demo_lib None schedule_cluster req (at_time (24 * Hour + 5)))"
    unfolding run by (intro exI [of _ bs']) simp
qed

section \<open>Firing\<close>

text \<open>C23. A reconcile creates nothing but the Backup of a run that is due. Let \<open>now\<close> be what the clock says when the
  reconcile starts. If it creates anything, then this is its second call and its only creation, right after the
  read of the schedule; time zone and cron expression of that schedule parse, and it is not suspended. The
  object is the Backup, owned by the schedule, of the first time after the last recorded run (or after the
  same time yesterday, whichever is later) at which the cron expression fires, and that time is not in the
  future. By the contract of the cron package it is later than the last recorded run and less than 24 hours old
  (unless the cron expression never fires, for which \<open>Next\<close> answers the zero time).\<close>
theorem schedule_creates_due_run:
  assumes "cron_contract L" and "EvCreate obj \<in> set (events (BackupSchedule_Reconcile L injected C req) s)"
  shows "\<exists>bs loc sched m rest.
    events (BackupSchedule_Reconcile L injected C req) s = EvRead (OBackupSchedule bs) # EvCreate obj # rest
    \<and> filter is_create rest = [] \<and> \<not> bssSuspend (bsSpec bs)
    \<and> loadLocation L (bssTimeZone (bsSpec bs)) = Inr loc \<and> ParseCron L (bssSchedule (bsSpec bs)) = Inr sched
    \<and> (let now = (case injected of None \<Rightarrow> fst (Clock C (world s)) | Some f \<Rightarrow> fst (f (world s)));
           last = bssLastScheduleTime (bsStatus bs);
           fire = CronNext L sched loc (case last of None \<Rightarrow> now - 24 * Hour | Some t \<Rightarrow> max t (now - 24 * Hour))
       in obj = OBackup (scheduled_backup bs fire\<lparr>bMeta := m\<rparr>)
        \<and> SetControllerReference L (BackupScheduleKind, bsMeta bs) (bMeta (scheduled_backup bs fire)) = Inr m
        \<and> fire \<le> now
        \<and> (fire = zero_time \<or> (now - 24 * Hour < fire \<and> (\<forall>t. last = Some t \<longrightarrow> t < fire))))"
proof -
  let ?now = "case injected of None \<Rightarrow> fst (Clock C (world s)) | Some f \<Rightarrow> fst (f (world s))"
  have now: "result (schedule_now injected C) s = ?now"
    by (simp add: schedule_now_def Now_def result_def split: option.split prod.split)
  obtain bs sched loc m rest where es: "bs_run L injected C req s = EvRead (OBackupSchedule bs) # EvCreate obj # rest"
    and parsed: "schedule_parsed L bs = Some (loc, sched)" and due: "due L ?now sched loc bs"
    and obj: "obj = OBackup (scheduled_backup bs (next_fire L ?now sched loc bs)\<lparr>bMeta := m\<rparr>)"
    and scr: "SetControllerReference L (BackupScheduleKind, bsMeta bs)
        (bMeta (scheduled_backup bs (next_fire L ?now sched loc bs))) = Inr m"
    and rest: "filter is_create rest = []"
    using create_form [OF schedule_shape_events assms(2)] unfolding now by blast
  have fire: "next_fire L ?now sched loc bs =
      CronNext L sched loc (case last_run bs of None \<Rightarrow> ?now - 24 * Hour | Some t \<Rightarrow> max t (?now - 24 * Hour))"
    by (auto simp: next_fire_def reference_time_def Let_def max_def split: option.split)
  have "next_fire L ?now sched loc bs = zero_time
      \<or> (?now - 24 * Hour < next_fire L ?now sched loc bs
         \<and> (\<forall>t. last_run bs = Some t \<longrightarrow> t < next_fire L ?now sched loc bs))"
    using assms(1) reference_bounds(1) [of ?now bs] reference_bounds(2) [of bs _ ?now]
    unfolding cron_contract_def next_fire_def by (meson le_less_trans)
  moreover have "loadLocation L (bssTimeZone (bsSpec bs)) = Inr loc" "ParseCron L (bssSchedule (bsSpec bs)) = Inr sched"
    using parsed by (auto simp: schedule_parsed_def split: sum.splits)
  ultimately show ?thesis using es rest due obj scr unfolding due_def Let_def fire by blast
qed

theorem schedule_creates_due_run_witness:
  "\<exists>rest. bs_run demo_lib None schedule_cluster (''games'', ''nightly'') (at_time (24 * Hour + 5)) =
      EvRead (OBackupSchedule (demo_schedule 1 None)) # rest \<and> length (filter is_create rest) = 1"
proof -
  obtain m where "EvCreate (OBackup (scheduled_backup (demo_schedule 1 None) Hour\<lparr>bMeta := m\<rparr>)) \<in>
      set (bs_run demo_lib None schedule_cluster (''games'', ''nightly'') (at_time (24 * Hour + 5)))"
    using demo_members(1) by blast
  from schedule_creates_due_run [OF demo_cron this] demo_reconcile [of "(''games'', ''nightly'')"]
  show ?thesis by (auto simp: is_create_def)
qed

text \<open>The status records a run only if this reconcile sent the creation of the Backup of that run, so no
  due run is skipped without a Backup; otherwise the last recorded run stays as it was read.\<close>
theorem schedule_records_created_runs:
  assumes "EvUpdateStatus (OBackupSchedule bs') \<in> set (events (BackupSchedule_Reconcile L injected C req) s)"
  shows "\<exists>bs. reads (OBackupSchedule bs) (events (BackupSchedule_Reconcile L injected C req) s)
    \<and> (bssLastScheduleTime (bsStatus bs') = bssLastScheduleTime (bsStatus bs)
       \<or> (\<exists>fire m. bssLastScheduleTime (bsStatus bs') = Some fire
            \<and> EvCreate (OBackup (scheduled_backup bs fire\<lparr>bMeta := m\<rparr>))
                \<in> set (events (BackupSchedule_Reconcile L injected C req) s)))"
proof -
  obtain bs where bs: "EvRead (OBackupSchedule bs) \<in> set (bs_run L injected C req s)"
    and run: "last_run bs' = last_run bs
       \<or> (\<exists>now sched loc sp. last_run bs' = Some (next_fire L now sched loc bs)
            \<and> spawned L bs (next_fire L now sched loc bs) sp \<and> set sp \<subseteq> set (bs_run L injected C req s))"
    using status_form [OF schedule_shape_events assms] by blast
  have "\<exists>m. EvCreate (OBackup (scheduled_backup bs fire\<lparr>bMeta := m\<rparr>)) \<in> set (bs_run L injected C req s)"
    if "spawned L bs fire sp" "set sp \<subseteq> set (bs_run L injected C req s)" for fire sp
    using that unfolding spawned_def by auto
  with bs run show ?thesis unfolding reads_def by blast
qed

theorem schedule_records_created_runs_witness:
  "\<exists>bs. reads (OBackupSchedule bs) (bs_run demo_lib None schedule_cluster (''games'', ''nightly'') (at_time (24 * Hour + 5)))"
proof -
  obtain bs' where "EvUpdateStatus (OBackupSchedule bs') \<in>
      set (bs_run demo_lib None schedule_cluster (''games'', ''nightly'') (at_time (24 * Hour + 5)))"
    using demo_members(3) by blast
  from schedule_records_created_runs [OF this] show ?thesis by blast
qed

text \<open>C29. Two runs of a schedule have different Backup names: the stamp \<open>YYYYMMDD-HHMM\<close> determines a fire time
  on a full minute (cron schedules have no seconds) in a year of four digits. So a run that is tried twice
  is created once (the second creation is answered AlreadyExists) and two runs never collide.\<close>
theorem backup_names_identify_runs:
  assumes "full_minute t" and "full_minute t'" and "four_digit_year t" and "four_digit_year t'"
  shows "mName (bMeta (scheduled_backup bs t)) = mName (bMeta (scheduled_backup bs t')) \<longleftrightarrow> t = t'"
  using FormatStamp_inject [OF _ assms(3,4,1,2)] by (auto simp: scheduled_backup_def zero_meta_def)

theorem backup_names_identify_runs_witness:
  "mName (bMeta (scheduled_backup (demo_schedule 1 None) 0)) \<noteq>
   mName (bMeta (scheduled_backup (demo_schedule 1 None) (60 * Minute)))"
proof -
  have "four_digit_year 0" "four_digit_year (60 * Minute)"
    unfolding four_digit_year_def civil_days_def zero_time_def Hour_def Minute_def Second_def
    by code_simp+
  moreover have "full_minute 0" "full_minute (60 * Minute)" by (simp_all add: full_minute_def)
  ultimately show ?thesis
    using backup_names_identify_runs [of 0 "60 * Minute" "demo_schedule 1 None"]
    by (simp add: Minute_def Second_def)
qed

section \<open>Retention\<close>

text \<open>C20. Retention never deletes what must be kept: every object a reconcile deletes is a Backup of the
  schedule that it listed, is not retained forever, and \<open>keep\<close> other Backups that count (7 when the spec says
  0 or less) were created no earlier.\<close>
theorem retention_is_safe:
  assumes "newest_first (SortNewestFirst L)"
    and "EvDelete obj \<in> set (events (BackupSchedule_Reconcile L injected C req) s)"
  shows "\<exists>bs items b kept. reads (OBackupSchedule bs) (events (BackupSchedule_Reconcile L injected C req) s)
    \<and> list_all (\<lambda>x. reads (OBackup x) (events (BackupSchedule_Reconcile L injected C req) s)) items
    \<and> obj = OBackup b \<and> \<not> bRetainForever (bSpec b)
    \<and> add_mset b (mset kept) \<subseteq># mset (filter (\<lambda>x. \<not> bRetainForever (bSpec x)) items)
    \<and> int (length kept) = effective_keep bs
    \<and> list_all (\<lambda>x. mCreationTimestamp (bMeta b) \<le> mCreationTimestamp (bMeta x)) kept"
proof -
  obtain bs items b where bs: "EvRead (OBackupSchedule bs) \<in> set (bs_run L injected C req s)" and obj: "obj = OBackup b"
    and items: "(EvRead \<circ> OBackup) ` set items \<subseteq> set (bs_run L injected C req s)"
    and b: "b \<in> set (surplus (effective_keep bs) (SortNewestFirst L items))"
    using delete_form [OF schedule_shape_events assms(2)] by blast
  let ?n = "nat (effective_keep bs)"
  let ?xs = "filter (\<lambda>x. \<not> bRetainForever (bSpec x)) (SortNewestFirst L items)"
  let ?kept = "take ?n ?xs"
  have keep: "effective_keep bs > 0" by (simp add: effective_keep_def Let_def)
  have split: "?xs = ?kept @ drop ?n ?xs" by simp
  have b': "b \<in> set (drop ?n ?xs)" using b by (simp add: surplus_def)
  then have "length ?kept = ?n" by (cases "?n < length ?xs") auto
  moreover have "sorted_wrt (\<lambda>a b. mCreationTimestamp (bMeta b) \<le> mCreationTimestamp (bMeta a)) (?kept @ drop ?n ?xs)"
    unfolding append_take_drop_id using assms(1) by (intro sorted_wrt_filter) (simp add: newest_first_def)
  then have "list_all (\<lambda>x. mCreationTimestamp (bMeta b) \<le> mCreationTimestamp (bMeta x)) ?kept"
    using b' unfolding sorted_wrt_append by (simp add: list_all_iff)
  moreover have "add_mset b (mset ?kept) \<subseteq># mset ?xs"
  proof -
    have "{#b#} \<subseteq># mset (drop ?n ?xs)" using b' by simp
    then have "mset ?kept + {#b#} \<subseteq># mset ?kept + mset (drop ?n ?xs)" by (rule subset_mset.add_left_mono)
    then show ?thesis by (simp flip: mset_append)
  qed
  moreover have "mset ?xs = mset (filter (\<lambda>x. \<not> bRetainForever (bSpec x)) items)"
    using assms(1) by (simp add: newest_first_def)
  moreover have "\<not> bRetainForever (bSpec b)" using in_set_dropD [OF b'] by simp
  ultimately show ?thesis
    using bs obj items keep
    by (intro exI [of _ bs] exI [of _ items] exI [of _ b] exI [of _ ?kept])
      (auto simp: reads_def list_all_iff)
qed

theorem retention_is_safe_witness:
  "\<exists>bs. reads (OBackupSchedule bs) (bs_run demo_lib None schedule_cluster (''games'', ''nightly'') (at_time (24 * Hour + 5)))
     \<and> (\<exists>kept :: backup list. int (length kept) = effective_keep bs)"
proof -
  have "EvDelete (OBackup (demo_backup ''nightly-a'' 100 False)) \<in>
      set (bs_run demo_lib None schedule_cluster (''games'', ''nightly'') (at_time (24 * Hour + 5)))"
    by (rule demo_members(2))
  from retention_is_safe [OF demo_newest_first this] show ?thesis by blast
qed

section \<open>The children and the next wake-up\<close>

text \<open>The status lists exactly the children that are Pending or InProgress, in order, and the last success is
  the latest creation time of a Ready child; without one it stays as it was.\<close>
theorem child_status_correct:
  "bssActiveBackups (bsStatus (child_status items bs)) =
     map (\<lambda>b. mName (bMeta b)) (filter (\<lambda>b. bPhase (bStatus b) = BackupPhasePending
        \<or> bPhase (bStatus b) = BackupPhaseInProgress) items)
   \<and> bssLastSuccessfulTime (bsStatus (child_status items bs)) =
     (let done = List.map_filter (\<lambda>b. if bPhase (bStatus b) = BackupPhaseReady then bCreationTime (bStatus b) else None) items
      in if done = [] then bssLastSuccessfulTime (bsStatus bs) else Some (Max (set done)))"
proof -
  let ?done = "\<lambda>items. List.map_filter (\<lambda>b. if bPhase (bStatus b) = BackupPhaseReady then bCreationTime (bStatus b) else None) items"
  have fold: "foldl child_step ([], None) items =
      (map (\<lambda>b. mName (bMeta b)) (filter (\<lambda>b. bPhase (bStatus b) = BackupPhasePending
        \<or> bPhase (bStatus b) = BackupPhaseInProgress) items),
       if ?done items = [] then None else Some (Max (set (?done items))))" for items
  proof (induction items rule: rev_induct)
    case Nil
    show ?case by simp
  next
    case (snoc b items)
    have app: "?done (items @ [b]) = ?done items @ ?done [b]" unfolding List.map_filter_def by simp
    show ?case
      unfolding foldl_append snoc.IH app
      by (cases "bCreationTime (bStatus b)")
        (auto simp: child_step_def map_filter_def max_def simp del: Max_less_iff)
  qed
  show ?thesis by (simp add: child_status_def fold Let_def)
qed

text \<open>A schedule is never forgotten: a reconcile that finds it and does not return an error asks to run again,
  after at least 30 seconds, and after a completed pass after at least a minute.\<close>
theorem schedule_always_wakes:
  assumes "result (BackupSchedule_Reconcile L injected C req) s = (Result wait, None)"
    and "events (BackupSchedule_Reconcile L injected C req) s \<noteq> []"
  shows "30 * Second \<le> wait"
  using schedule_shape_events [where L = L and injected = injected and C = C and req = req and s = s, unfolded schedule_shape_def finished_def] assms
  by (elim disjE exE conjE) (auto simp: Minute_def Second_def)

theorem schedule_always_wakes_witness:
  "\<exists>wait. 30 * Second \<le> wait
     \<and> result (BackupSchedule_Reconcile (demo_lib\<lparr>ParseCron := \<lambda>s. Inl ''bad''\<rparr>) None schedule_cluster (''games'', ''nightly''))
         (at_time 0) = (Result wait, None)"
proof -
  let ?run = "BackupSchedule_Reconcile (demo_lib\<lparr>ParseCron := \<lambda>s. Inl ''bad''\<rparr>) None schedule_cluster (''games'', ''nightly'')"
  have "result ?run (at_time 0) = (Result (5 * Minute), None)" "events ?run (at_time 0) \<noteq> []"
    by (simp_all add: BackupSchedule_Reconcile_def schedule_now_def loadLocation_def invalid_schedule_def
        set_schedule_condition_now_def events_def result_def)
  with schedule_always_wakes [OF this] show ?thesis by blast
qed

end
