(* ===== verification/Store.thy ===== *)
theory Store
  imports Cluster "HOL-Library.Product_Lexorder"
begin

text \<open>
  An API server that satisfies the contract of theory \<open>Cluster\<close>: a store of objects under their keys that
  answers every call at once, assigns a cluster address to each new Service, and keeps the status of an
  object apart from the rest. It shows that the contract can be met, and the runs of the examples use it.
\<close>

section \<open>One kind of the store\<close>

definition keyed_view :: "('o \<Rightarrow> object_meta) \<Rightarrow> (key, 'o) fmap \<Rightarrow> (key, 'o) fmap" where
  "keyed_view meta m =
     fmfilter (\<lambda>k. case fmlookup m k of Some x \<Rightarrow> object_key (meta x) = k | None \<Rightarrow> False) m"

lemma keyed_view_lookup:
  "fmlookup (keyed_view meta m) k =
     (case fmlookup m k of Some x \<Rightarrow> if object_key (meta x) = k then Some x else None | None \<Rightarrow> None)"
  by (auto simp: keyed_view_def split: option.splits)

lemma keyed_view_upd: "object_key (meta y) = k \<Longrightarrow> keyed_view meta (fmupd k y m) = fmupd k y (keyed_view meta m)"
  by (rule fmap_ext) (simp add: keyed_view_lookup)

lemma keyed_view_drop: "keyed_view meta (fmdrop k m) = fmdrop k (keyed_view meta m)"
  by (rule fmap_ext) (simp add: keyed_view_lookup)

lemma keyed_view_keyed: "fmlookup (keyed_view meta m) k = Some x \<Longrightarrow> object_key (meta x) = k"
  by (auto simp: keyed_view_lookup split: option.splits if_splits)

definition values_of :: "(key, 'o) fmap \<Rightarrow> 'o list" where
  "values_of m = List.map_filter (fmlookup m) (sorted_list_of_fset (fmdom m))"

definition store_ops :: "('v \<Rightarrow> (key, 'o) fmap) \<Rightarrow> (((key, 'o) fmap \<Rightarrow> (key, 'o) fmap) \<Rightarrow> 'v \<Rightarrow> 'v)
    \<Rightarrow> ('o \<Rightarrow> object_meta) \<Rightarrow> ('o option \<Rightarrow> 'o \<Rightarrow> 'o) \<Rightarrow> ('o \<Rightarrow> 'o \<Rightarrow> 'o) \<Rightarrow> ('v \<times> gotime, 'o) ops" where
  "store_ops sel upd meta fill put_status =
     (let look = (\<lambda>w. keyed_view meta (sel (fst w)));
          put = (\<lambda>y w. (upd (fmupd (object_key (meta y)) y) (fst w), snd w));
          missing = GoError NotFound ''not found'' in
      \<lparr>opGet = (\<lambda>k w. (case fmlookup (look w) k of Some x \<Rightarrow> (Inr x, w) | None \<Rightarrow> (Inl missing, w))),
       opList = (\<lambda>ns labels w. (Inr (filter (\<lambda>x. selects ns labels (meta x)) (values_of (look w))), w)),
       opCreate = (\<lambda>x w. (case fmlookup (look w) (object_key (meta x)) of
          Some z \<Rightarrow> (Inl (GoError AlreadyExists ''already exists''), w)
        | None \<Rightarrow> (Inr (fill None x), put (fill None x) w))),
       opUpdate = (\<lambda>x w. (case fmlookup (look w) (object_key (meta x)) of
          None \<Rightarrow> (Inl missing, w)
        | Some z \<Rightarrow> (let y = (if x = z then z else fill (Some z) x) in (Inr y, put y w)))),
       opStatusUpdate = (\<lambda>x w. (case fmlookup (look w) (object_key (meta x)) of
          None \<Rightarrow> (Inl missing, w)
        | Some z \<Rightarrow> (Inr (put_status x z), put (put_status x z) w))),
       opDelete = (\<lambda>x w. (case fmlookup (look w) (object_key (meta x)) of
          None \<Rightarrow> (Some missing, w)
        | Some z \<Rightarrow> (None, (upd (fmdrop (object_key (meta x))) (fst w), snd w))))\<rparr>)"

lemma values_of_keyed:
  assumes "\<And>k x. fmlookup m k = Some x \<Longrightarrow> object_key (meta x) = k"
  shows "set (values_of m) = fmran' m" and "distinct (values_of m)"
proof -
  have sub: "set (List.map_filter (fmlookup m) ks) = {x. \<exists>k \<in> set ks. fmlookup m k = Some x}" for ks
    by (induction ks) (auto split: option.splits)
  show "set (values_of m) = fmran' m"
    by (auto simp: values_of_def sub fmran'_def fmlookup_dom_iff sorted_list_of_fset.rep_eq)
  have "distinct ks \<Longrightarrow> distinct (List.map_filter (fmlookup m) ks)" for ks
  proof (induction ks)
    case (Cons k ks)
    have "a = b" if "fmlookup m a = Some x" "fmlookup m b = Some x" for a b x
      using assms [OF that(1)] assms [OF that(2)] by simp
    with Cons show ?case by (cases "fmlookup m k") (simp_all add: sub, metis)
  qed simp
  then show "distinct (values_of m)" by (simp add: values_of_def sorted_list_of_fset.rep_eq)
qed

lemma values_of_view [simp]:
  "set (values_of (keyed_view meta m)) = fmran' (keyed_view meta m)" "distinct (values_of (keyed_view meta m))"
  by (rule values_of_keyed [where meta = meta], erule keyed_view_keyed)+

lemma store_kind:
  fixes view :: "'v \<Rightarrow> 'v" and sel :: "'v \<Rightarrow> (key, 'o) fmap"
  assumes sel: "\<And>c. sel (view c) = keyed_view meta (sel c)"
    and upd: "\<And>f g c. keyed_view meta (f (sel c)) = g (keyed_view meta (sel c)) \<Longrightarrow> view (upd f c) = upd g (view c)"
    and fill: "\<And>old x. stored old x (fill old x)" "\<And>old x. object_key (meta (fill old x)) = object_key (meta x)"
    and refl: "\<And>x. stored (Some x) x x"
    and status: "\<And>x z. meta (put_status x z) = meta z"
  shows "api_kind (store_ops sel upd meta fill put_status) (view \<circ> fst) sel upd meta stored put_status"
proof
  have put: "object_key (meta y) = k \<Longrightarrow> view (upd (fmupd k y) c) = upd (fmupd k y) (view c)" for k y c
    by (rule upd) (rule keyed_view_upd)
  have drop: "view (upd (fmdrop k) c) = upd (fmdrop k) (view c)" for k c
    by (rule upd) (rule keyed_view_drop)
  fix w :: "'v \<times> gotime" and k x ns labels z
  show "fmlookup (sel ((view \<circ> fst) w)) k = Some x \<Longrightarrow> object_key (meta x) = k"
    by (simp add: sel keyed_view_keyed)
  show "fmlookup (sel ((view \<circ> fst) w)) k = Some x \<Longrightarrow>
      \<exists>w'. opGet (store_ops sel upd meta fill put_status) k w = (Inr x, w') \<and> (view \<circ> fst) w' = (view \<circ> fst) w"
    by (simp add: store_ops_def sel Let_def)
  show "fmlookup (sel ((view \<circ> fst) w)) k = None \<Longrightarrow>
      \<exists>e w'. opGet (store_ops sel upd meta fill put_status) k w = (Inl e, w') \<and> IsNotFound e
        \<and> (view \<circ> fst) w' = (view \<circ> fst) w"
    by (simp add: store_ops_def sel Let_def IsNotFound_def)
  show "\<exists>xs w'. opList (store_ops sel upd meta fill put_status) ns labels w = (Inr xs, w')
      \<and> (view \<circ> fst) w' = (view \<circ> fst) w \<and> distinct xs
      \<and> set xs = {x \<in> fmran' (sel ((view \<circ> fst) w)). selects ns labels (meta x)}"
    by (auto simp: store_ops_def Let_def sel)
  show "fmlookup (sel ((view \<circ> fst) w)) (object_key (meta x)) = None \<Longrightarrow>
      \<exists>y w'. opCreate (store_ops sel upd meta fill put_status) x w = (Inr y, w') \<and> stored None x y
        \<and> object_key (meta y) = object_key (meta x)
        \<and> (view \<circ> fst) w' = upd (fmupd (object_key (meta x)) y) ((view \<circ> fst) w)"
    by (simp add: store_ops_def sel Let_def fill put)
  show "fmlookup (sel ((view \<circ> fst) w)) (object_key (meta x)) = Some z \<Longrightarrow>
      \<exists>e w'. opCreate (store_ops sel upd meta fill put_status) x w = (Inl e, w') \<and> IsAlreadyExists e
        \<and> (view \<circ> fst) w' = (view \<circ> fst) w"
    by (simp add: store_ops_def sel Let_def IsAlreadyExists_def)
  show "fmlookup (sel ((view \<circ> fst) w)) (object_key (meta x)) = Some z \<Longrightarrow>
      \<exists>y w'. opUpdate (store_ops sel upd meta fill put_status) x w = (Inr y, w') \<and> stored (Some z) x y
        \<and> object_key (meta y) = object_key (meta x) \<and> (x = z \<longrightarrow> y = z)
        \<and> (view \<circ> fst) w' = upd (fmupd (object_key (meta x)) y) ((view \<circ> fst) w)"
  proof -
    assume look: "fmlookup (sel ((view \<circ> fst) w)) (object_key (meta x)) = Some z"
    then have key: "object_key (meta z) = object_key (meta x)" by (simp add: sel keyed_view_keyed)
    let ?y = "if x = z then z else fill (Some z) x"
    have y: "stored (Some z) x ?y" "object_key (meta ?y) = object_key (meta x)"
      using refl [of z] fill by simp_all
    have "opUpdate (store_ops sel upd meta fill put_status) x w =
        (Inr ?y, (upd (fmupd (object_key (meta ?y)) ?y) (fst w), snd w))"
      using look by (simp only: store_ops_def sel Let_def ops.simps option.case comp_apply)
    moreover have "(view \<circ> fst) (upd (fmupd (object_key (meta ?y)) ?y) (fst w), snd w) =
        upd (fmupd (object_key (meta x)) ?y) ((view \<circ> fst) w)"
      unfolding comp_apply fst_conv y(2) by (rule put) (rule y(2))
    ultimately show ?thesis using y by (intro exI conjI) (assumption | simp)+
  qed
  show "fmlookup (sel ((view \<circ> fst) w)) (object_key (meta x)) = Some z \<Longrightarrow>
      \<exists>w'. opStatusUpdate (store_ops sel upd meta fill put_status) x w = (Inr (put_status x z), w')
        \<and> (view \<circ> fst) w' = upd (fmupd (object_key (meta x)) (put_status x z)) ((view \<circ> fst) w)"
  proof -
    assume look: "fmlookup (sel ((view \<circ> fst) w)) (object_key (meta x)) = Some z"
    then have key: "object_key (meta z) = object_key (meta x)" by (simp add: sel keyed_view_keyed)
    show ?thesis
      using look key by (simp add: store_ops_def sel Let_def put status)
  qed
  show "fmlookup (sel ((view \<circ> fst) w)) (object_key (meta x)) = Some z \<Longrightarrow>
      \<exists>w'. opDelete (store_ops sel upd meta fill put_status) x w = (None, w')
        \<and> (view \<circ> fst) w' = upd (fmdrop (object_key (meta x))) ((view \<circ> fst) w)"
    by (simp add: store_ops_def sel Let_def drop)
qed

section \<open>The store of a cluster\<close>

definition fill_service :: "service option \<Rightarrow> service \<Rightarrow> service" where
  "fill_service old s =
     (if ssClusterIP (svcSpec s) = '''' then s\<lparr>svcSpec := (svcSpec s)\<lparr>ssClusterIP := ''10.96.0.1''\<rparr>\<rparr> else s)"

definition fill_deployment :: "deployment option \<Rightarrow> deployment \<Rightarrow> deployment" where
  "fill_deployment old d = d\<lparr>depReadyReplicas := (case old of None \<Rightarrow> 0 | Some z \<Rightarrow> depReadyReplicas z)\<rparr>"

definition fill_snapshot :: "volume_snapshot option \<Rightarrow> volume_snapshot \<Rightarrow> volume_snapshot" where
  "fill_snapshot old vs = (case old of None \<Rightarrow> vs\<lparr>vsStatus := None\<rparr> | Some z \<Rightarrow> vs\<lparr>vsStatus := vsStatus z\<rparr>)"

definition fill_backup :: "backup option \<Rightarrow> backup \<Rightarrow> backup" where
  "fill_backup old b = (case old of None \<Rightarrow> b\<lparr>bStatus := zero_backup_status\<rparr> | Some z \<Rightarrow> b\<lparr>bStatus := bStatus z\<rparr>)"

definition store_client :: "(cluster \<times> gotime) client" where
  "store_client =
     \<lparr>GameServers = store_ops clGameServers clGameServers_update gsMeta (\<lambda>old x. x) (\<lambda>x z. z\<lparr>gsStatus := gsStatus x\<rparr>),
      GameTemplates = store_ops clGameTemplates clGameTemplates_update tplMeta (\<lambda>old x. x)
        (\<lambda>x z. z\<lparr>tplStatus := tplStatus x\<rparr>),
      Backups = store_ops clBackups clBackups_update bMeta fill_backup (\<lambda>x z. z\<lparr>bStatus := bStatus x\<rparr>),
      BackupSchedules = store_ops clBackupSchedules clBackupSchedules_update bsMeta (\<lambda>old x. x)
        (\<lambda>x z. z\<lparr>bsStatus := bsStatus x\<rparr>),
      VolumeSnapshots = store_ops clVolumeSnapshots clVolumeSnapshots_update vsMeta fill_snapshot no_status,
      PVCs = store_ops clPVCs clPVCs_update pvcMeta (\<lambda>old x. x) no_status,
      Deployments = store_ops clDeployments clDeployments_update depMeta fill_deployment no_status,
      Services = store_ops clServices clServices_update svcMeta fill_service no_status,
      ServiceAccounts = store_ops clServiceAccounts clServiceAccounts_update saMeta (\<lambda>old x. x) no_status,
      Clock = (\<lambda>(c, t). (t, (c, t + Second)))\<rparr>"

definition keyed_cluster :: "cluster \<Rightarrow> cluster" where
  "keyed_cluster c =
     \<lparr>clGameServers = keyed_view gsMeta (clGameServers c), clGameTemplates = keyed_view tplMeta (clGameTemplates c),
      clBackups = keyed_view bMeta (clBackups c), clBackupSchedules = keyed_view bsMeta (clBackupSchedules c),
      clVolumeSnapshots = keyed_view vsMeta (clVolumeSnapshots c), clPVCs = keyed_view pvcMeta (clPVCs c),
      clDeployments = keyed_view depMeta (clDeployments c), clServices = keyed_view svcMeta (clServices c),
      clServiceAccounts = keyed_view saMeta (clServiceAccounts c)\<rparr>"

definition store_view :: "cluster \<times> gotime \<Rightarrow> cluster" where
  "store_view = keyed_cluster \<circ> fst"

lemma meta_stored_refl [simp]: "meta_stored m m"
  by (simp add: meta_stored_def)

lemma port_stored_refl [simp]: "port_stored p p"
  by (simp add: port_stored_def)

lemmas stored_defs = pvc_stored_def deployment_stored_def service_stored_def account_stored_def
  snapshot_stored_def backup_stored_def fill_service_def fill_deployment_def fill_snapshot_def fill_backup_def

interpretation store: api_server store_client store_view
  unfolding api_server_def api_server_axioms_def store_view_def store_client_def client.simps
  by (intro conjI allI store_kind)
    (auto simp: keyed_cluster_def stored_defs list_all2_refl split: option.splits)

end
