(* ===== verification/ClusterProperties.thy ===== *)
theory ClusterProperties
  imports Convergence Store GameServerDemo
begin

text \<open>
  What a reconcile promises of the cluster, for every API server that keeps the contract of theory
  \<open>Cluster\<close>: the abstract specification of a running game server, that a run establishes it, and that a
  second run changes nothing. The examples run on the store of theory \<open>Store\<close>.
\<close>

declare ConditionTrue_def [simp del] ConditionFalse_def [simp del] ConditionReady_def [simp del]
  ConditionTemplateResolved_def [simp del] ConditionConfigValid_def [simp del]
  ConditionRestoreSourceResolved_def [simp del] PhasePending_def [simp del] PhaseProvisioning_def [simp del]
  PhaseReady_def [simp del] PhaseDegraded_def [simp del] PhaseStopped_def [simp del]
  SecurityProfileAnyUID_def [simp del] Second_def [simp del]

section \<open>The desired state\<close>

text \<open>What the documents promise of a GameServer whose template and configuration are good: its claim, its
  Deployment and its Services are there as the template has them, and its status says what was observed.\<close>

definition claim_present :: "game_server \<Rightarrow> cluster \<Rightarrow> bool" where
  "claim_present gs c \<longleftrightarrow> (\<exists>p. fmlookup (clPVCs c) (mNamespace (gsMeta gs), PVCName gs) = Some p
     \<and> mLabels (pvcMeta p) = baseLabels gs)"

definition services_present :: "game_server \<Rightarrow> game_template \<Rightarrow> service list \<Rightarrow> cluster \<Rightarrow> bool" where
  "services_present gs tpl ys c \<longleftrightarrow> list_all2 (\<lambda>b y. fmlookup (clServices c) (object_key (svcMeta b)) = Some y
     \<and> service_as_desired b y) (BuildServices gs tpl) ys"

definition account_present :: "game_server \<Rightarrow> game_template \<Rightarrow> cluster \<Rightarrow> bool" where
  "account_present gs tpl c \<longleftrightarrow> tplSecurityProfile (tplSpec tpl) = SecurityProfileAnyUID
     \<or> fmlookup (clServiceAccounts c) (mNamespace (gsMeta gs), DefaultServiceAccountName) \<noteq> None"

definition status_reported :: "game_server \<Rightarrow> game_template \<Rightarrow> deployment \<Rightarrow> service list \<Rightarrow> cluster \<Rightarrow> bool" where
  "status_reported gs tpl d ys c \<longleftrightarrow> (\<exists>g. fmlookup (clGameServers c) (object_key (gsMeta gs)) = Some g
     \<and> same_object g gs \<and> gsPhase (gsStatus g) = observed_phase gs d
     \<and> gsReadyReplicas (gsStatus g) = depReadyReplicas d
     \<and> gsObservedGeneration (gsStatus g) = mGeneration (gsMeta gs)
     \<and> gsTemplateGeneration (gsStatus g) = mGeneration (tplMeta tpl)
     \<and> gsAddress (gsStatus g) = PrimaryAddress gs tpl ys)"

definition deployment_present :: "lib \<Rightarrow> game_server \<Rightarrow> game_template \<Rightarrow> deployment \<Rightarrow> cluster \<Rightarrow> bool" where
  "deployment_present L gs tpl d c \<longleftrightarrow>
     fmlookup (clDeployments c) (mNamespace (gsMeta gs), DeploymentName gs) = Some d
     \<and> depSpec d = depSpec (BuildDeployment L gs tpl) \<and> mLabels (depMeta d) = baseLabels gs"

definition server_converged :: "lib \<Rightarrow> game_server \<Rightarrow> game_template \<Rightarrow> cluster \<Rightarrow> bool" where
  "server_converged L gs tpl c \<longleftrightarrow> claim_present gs c \<and> account_present gs tpl c
     \<and> (\<exists>d ys. deployment_present L gs tpl d c \<and> services_present gs tpl ys c \<and> status_reported gs tpl d ys c)"

text \<open>What a run leaves alone: the world of a claim, and everything that is not the server's own.\<close>

definition rest_kept :: "game_server \<Rightarrow> game_template \<Rightarrow> cluster \<Rightarrow> cluster \<Rightarrow> bool" where
  "rest_kept gs tpl c c' \<longleftrightarrow>
     clGameTemplates c' = clGameTemplates c \<and> clBackups c' = clBackups c
     \<and> clBackupSchedules c' = clBackupSchedules c \<and> clVolumeSnapshots c' = clVolumeSnapshots c
     \<and> (\<forall>k z. fmlookup (clPVCs c) k = Some z \<longrightarrow> (\<exists>p. fmlookup (clPVCs c') k = Some p \<and> pvcSpec p = pvcSpec z))
     \<and> (\<forall>k. k \<noteq> (mNamespace (gsMeta gs), PVCName gs) \<longrightarrow> fmlookup (clPVCs c') k = fmlookup (clPVCs c) k)
     \<and> (\<forall>k. k \<noteq> (mNamespace (gsMeta gs), DeploymentName gs) \<longrightarrow>
          fmlookup (clDeployments c') k = fmlookup (clDeployments c) k)
     \<and> (\<forall>k. k \<notin> (\<lambda>b. object_key (svcMeta b)) ` set (BuildServices gs tpl) \<longrightarrow>
          fmlookup (clServices c') k = fmlookup (clServices c) k)
     \<and> (\<forall>k. k \<noteq> object_key (gsMeta gs) \<longrightarrow> fmlookup (clGameServers c') k = fmlookup (clGameServers c) k)
     \<and> (\<forall>k z. fmlookup (clServiceAccounts c) k = Some z \<longrightarrow> fmlookup (clServiceAccounts c') k = Some z)"

section \<open>What the effect of a run says\<close>

lemma put_services_other:
  "k \<notin> (\<lambda>y. object_key (svcMeta y)) ` set ys \<Longrightarrow> fmlookup (put_services ys m) k = fmlookup m k"
  by (induction ys arbitrary: m) auto

lemma applied_keys:
  assumes law: "owner_law L"
    and ys: "list_all2 (\<lambda>b y. service_applied (look b) (own_service L gs b) y) (BuildServices gs tpl) ys"
  shows "map (\<lambda>y. object_key (svcMeta y)) ys = map (\<lambda>b. object_key (svcMeta b)) (BuildServices gs tpl)"
proof (rule nth_equalityI)
  show len: "length (map (\<lambda>y. object_key (svcMeta y)) ys) = length (map (\<lambda>b. object_key (svcMeta b)) (BuildServices gs tpl))"
    using list_all2_lengthD [OF ys] by simp
  fix i assume "i < length (map (\<lambda>y. object_key (svcMeta y)) ys)"
  then have i: "i < length ys" "i < length (BuildServices gs tpl)" using len by simp_all
  have "BuildServices gs tpl ! i \<in> set (BuildServices gs tpl)" using i by simp
  note built = built_service_metas [OF this]
  show "map (\<lambda>y. object_key (svcMeta y)) ys ! i = map (\<lambda>b. object_key (svcMeta b)) (BuildServices gs tpl) ! i"
    using list_all2_nthD2 [OF ys i(1)] owned_law(2) [OF law, of "svcMeta (BuildServices gs tpl ! i)" gs] built i
    by (simp add: service_applied_def service_as_desired_def)
qed

lemma applied_services_present:
  assumes law: "owner_law L" and run: "runnable L c gs tpl"
    and ys: "list_all2 (\<lambda>b y. service_applied (look b) (own_service L gs b) y) (BuildServices gs tpl) ys"
    and c': "clServices c' = put_services ys m"
  shows "services_present gs tpl ys c'"
  unfolding services_present_def list_all2_conv_all_nth
proof (intro conjI allI impI)
  show "length (BuildServices gs tpl) = length ys" using list_all2_lengthD [OF ys] .
  fix i assume i: "i < length (BuildServices gs tpl)"
  let ?b = "BuildServices gs tpl ! i"
  have b: "?b \<in> set (BuildServices gs tpl)" using i by simp
  have enum: "list_all (\<lambda>p. fst (resolveExposure gs p) \<in> exposure_types) (tplPorts (tplSpec tpl))"
    using run by (simp add: runnable_def)
  have y: "service_applied (look ?b) (own_service L gs ?b) (ys ! i)" using list_all2_nthD [OF ys i] .
  have "distinct (map (\<lambda>y. object_key (svcMeta y)) ys)"
    unfolding applied_keys [OF law ys] by (rule service_keys_distinct [OF enum])
  then have at: "fmlookup (clServices c') (object_key (svcMeta (ys ! i))) = Some (ys ! i)"
    unfolding c' by (rule put_services_lookup) (use i list_all2_lengthD [OF ys] in simp)
  show desired: "service_as_desired ?b (ys ! i)"
    using y owned_law [OF law, of "svcMeta ?b" gs] built_service_metas [OF b]
    by (simp add: service_applied_def service_as_desired_def)
  with at show "fmlookup (clServices c') (object_key (svcMeta ?b)) = Some (ys ! i)"
    by (simp add: service_as_desired_def)
qed

lemma final_status_reports:
  assumes "same_object g0 gs" and "g = final_status t g0 tpl d ys"
  shows "gsPhase (gsStatus g) = observed_phase gs d" and "gsReadyReplicas (gsStatus g) = depReadyReplicas d"
    and "gsObservedGeneration (gsStatus g) = mGeneration (gsMeta gs)"
    and "gsTemplateGeneration (gsStatus g) = mGeneration (tplMeta tpl)"
    and "gsAddress (gsStatus g) = PrimaryAddress gs tpl ys"
  using assms address_same [OF assms(1)]
  by (auto simp: final_status_def Let_def observed_phase_def set_phase_def status_of_def setCondition_def)

lemma run_effect_converges:
  assumes law: "owner_law L" and run: "runnable L c gs tpl" and eff: "run_effect L c gs tpl r c'"
  shows "server_converged L gs tpl c'" and "rest_kept gs tpl c c'" and "snd r = None"
    and "\<exists>d. deployment_present L gs tpl d c' \<and> fst r = Result (if observed_phase gs d = PhaseReady then 0 else 10 * Second)"
proof -
  let ?kp = "(mNamespace (gsMeta gs), PVCName gs)" and ?kd = "(mNamespace (gsMeta gs), DeploymentName gs)"
  from eff obtain m qty p d ys t1 t2 t3 t4 g where m: "accounts_after c gs tpl m"
    and p: "pvc_applied (fmlookup (clPVCs c) ?kp) (own_pvc L gs (pvc_of gs qty (restore_snapshot c gs))) p"
    and d: "deployment_applied (fmlookup (clDeployments c) ?kd) (own_deployment L gs (BuildDeployment L gs tpl)) d"
    and ys: "list_all2 (\<lambda>b y. service_applied (fmlookup (clServices c) (object_key (svcMeta b))) (own_service L gs b) y)
        (BuildServices gs tpl) ys"
    and g: "g = final_status t4 (prepared t1 t2 t3 gs) tpl d ys"
    and c': "c' = c\<lparr>clServiceAccounts := m, clPVCs := fmupd ?kp p (clPVCs c),
                  clDeployments := fmupd ?kd d (clDeployments c),
                  clServices := put_services ys (clServices c),
                  clGameServers := fmupd (object_key (gsMeta gs)) (gs\<lparr>gsStatus := gsStatus g\<rparr>) (clGameServers c)\<rparr>"
    and r: "r = (Result (if observed_phase gs d = PhaseReady then 0 else 10 * Second), None)"
    unfolding run_effect_def by blast
  have "claim_present gs c'"
    using p owned_law(3) [OF law built_metas(4,5)] by (simp add: claim_present_def c' pvc_applied_def pvc_of_simps)
  moreover have "account_present gs tpl c'"
    using m by (auto simp: account_present_def accounts_after_def c' simp del: DefaultServiceAccountName_def split: if_splits)
  moreover have dep: "deployment_present L gs tpl d c'"
    using d owned_law(3) [OF law built_metas(1,2)] by (simp add: deployment_present_def c' deployment_applied_def builder_simps)
  moreover have "services_present gs tpl ys c'"
    by (rule applied_services_present [OF law run ys, where m = "clServices c"]) (simp add: c')
  moreover have "status_reported gs tpl d ys c'"
    using final_status_reports [OF prepared_same g] by (simp add: status_reported_def c')
  ultimately show "server_converged L gs tpl c'" unfolding server_converged_def by blast
  show "snd r = None" "\<exists>d. deployment_present L gs tpl d c' \<and> fst r = Result (if observed_phase gs d = PhaseReady then 0 else 10 * Second)"
    using dep by (auto simp: r)
  have accounts: "fmlookup m k = Some z" if "fmlookup (clServiceAccounts c) k = Some z" for k z
    using m that by (auto simp: accounts_after_def simp del: DefaultServiceAccountName_def split: if_splits)
  have claims: "\<exists>q. fmlookup (fmupd ?kp p (clPVCs c)) k = Some q \<and> pvcSpec q = pvcSpec z"
    if "fmlookup (clPVCs c) k = Some z" for k z
    using p that by (cases "k = ?kp") (auto simp: pvc_applied_def)
  have services: "fmlookup (put_services ys (clServices c)) k = fmlookup (clServices c) k"
    if "k \<notin> (\<lambda>b. object_key (svcMeta b)) ` set (BuildServices gs tpl)" for k
    using that put_services_other [of k ys] applied_keys [OF law ys] by (metis image_set)
  show "rest_kept gs tpl c c'"
    unfolding rest_kept_def using accounts claims services by (simp add: c')
qed

section \<open>A run reaches the desired state, and stays there\<close>

text \<open>C3. For every API server that keeps its documented contract, a reconcile of a GameServer with a
  resolvable template, a valid configuration and a ready restore source ends without an error in the
  desired state: the claim, the Deployment, one Service per exposure type and the ServiceAccount are there
  as the template has them, the status reports what was observed, and the run asks to be repeated in 10
  seconds until the server is Ready. It never changes the specification of an existing claim (the world),
  nor any object that is not the server's own.\<close>

theorem reconcile_reaches_desired_state:
  assumes "api_server C view" and "owner_law L" and "runnable L (view (world s)) gs tpl"
  shows "let run = GameServer_Reconcile L C (object_key (gsMeta gs)); c' = cluster_after view run s in
    server_converged L gs tpl c' \<and> rest_kept gs tpl (view (world s)) c'
    \<and> (\<exists>d. deployment_present L gs tpl d c'
         \<and> result run s = (Result (if observed_phase gs d = PhaseReady then 0 else 10 * Second), None))"
proof -
  note eff = ensures_after [OF api_server.reconcile_effect [OF assms]]
  show ?thesis
    unfolding Let_def using run_effect_converges [OF assms(2,3) eff] by (auto simp: prod_eq_iff)
qed

text \<open>A store that holds the demo server and its template.\<close>

definition demo_cluster :: cluster where
  "demo_cluster = \<lparr>clGameServers = fmupd (''games'', ''midgard'') demo_server fmempty,
     clGameTemplates = fmupd ('''', ''valheim'') demo_template fmempty,
     clBackups = fmempty, clBackupSchedules = fmempty, clVolumeSnapshots = fmempty, clPVCs = fmempty,
     clDeployments = fmempty, clServices = fmempty, clServiceAccounts = fmempty\<rparr>"

definition demo_start :: "(cluster \<times> gotime) sys" where
  "demo_start = \<lparr>world = (demo_cluster, 0), trace = []\<rparr>"

lemma keyed_view_empty [simp]: "keyed_view meta fmempty = fmempty"
  by (rule fmap_ext) (simp add: keyed_view_lookup)

lemma demo_start_view [simp]: "store_view (world demo_start) = demo_cluster"
  by (simp add: demo_start_def store_view_def keyed_cluster_def demo_cluster_def keyed_view_upd object_key_def demo_defs)

lemma demo_owner_law: "owner_law demo_lib"
  by (auto simp: owner_law_def object_key_def)

lemma demo_runnable: "runnable demo_lib demo_cluster demo_server demo_template"
  by (simp add: runnable_def demo_cluster_def restore_ready_def object_key_def storage_size_def
      resolveExposure_def exposure_types_def) (simp add: demo_defs)

theorem reconcile_reaches_desired_state_witness:
  "server_converged demo_lib demo_server demo_template
     (cluster_after store_view (GameServer_Reconcile demo_lib store_client (''games'', ''midgard'')) demo_start)"
  using reconcile_reaches_desired_state [OF store.api_server_axioms demo_owner_law, of demo_start demo_server demo_template]
    demo_runnable
  by (simp add: Let_def object_key_def)

text \<open>C11. A reconcile is idempotent: in the cluster that a run left, whatever the times, the next run returns
  the same result and leaves the whole cluster as it is, every condition with its transition time
  included.\<close>

theorem reconcile_is_idempotent:
  assumes "api_server C view" and "owner_law L" and "runnable L (view (world s)) gs tpl"
    and "view (world s') = cluster_after view (GameServer_Reconcile L C (object_key (gsMeta gs))) s"
  shows "cluster_after view (GameServer_Reconcile L C (object_key (gsMeta gs))) s' = view (world s')
    \<and> result (GameServer_Reconcile L C (object_key (gsMeta gs))) s' = result (GameServer_Reconcile L C (object_key (gsMeta gs))) s"
proof -
  let ?run = "GameServer_Reconcile L C (object_key (gsMeta gs))"
  note eff = ensures_after [OF api_server.reconcile_effect [OF assms(1-3)]]
  from run_effect_settles [OF assms(2,3) eff] obtain g where same: "same_object g gs"
    and run: "runnable L (view (world s')) g tpl"
    and fixed: "\<And>r' c2. run_effect L (view (world s')) g tpl r' c2 \<Longrightarrow> c2 = view (world s') \<and> r' = result ?run s"
    unfolding assms(4) by metis
  from fixed [OF ensures_after [OF api_server.reconcile_effect [OF assms(1,2) run]]] same show ?thesis
    by simp
qed

theorem reconcile_is_idempotent_witness:
  "let run = GameServer_Reconcile demo_lib store_client (''games'', ''midgard''); s1 = snd (run_state run demo_start) in
     cluster_after store_view run s1 = cluster_after store_view run demo_start"
  using reconcile_is_idempotent [OF store.api_server_axioms demo_owner_law, of demo_start demo_server demo_template
      "snd (run_state (GameServer_Reconcile demo_lib store_client (''games'', ''midgard'')) demo_start)"] demo_runnable
  by (simp add: Let_def object_key_def cluster_after_def)

end
