(* ===== verification/RestoreProperties.thy ===== *)
theory RestoreProperties
  imports BackupEffects ClusterProperties
begin

text \<open>
  The life of a Backup over a cluster, and the chain from a Backup to a restored world: two reconcilers and
  the snapshot controller work on the same objects, one after the other.
\<close>

declare ConditionTrue_def [simp del] ConditionFalse_def [simp del] Second_def [simp del]
  BackupPhasePending_def [simp del] BackupPhaseInProgress_def [simp del] BackupPhaseReady_def [simp del]
  BackupPhaseFailed_def [simp del] ConditionBackupReady_def [simp del] ConditionSnapshotBound_def [simp del]
  BackupKind_def [simp del] PhaseReady_def [simp del] SecurityProfileAnyUID_def [simp del]

section \<open>The life of a Backup\<close>

text \<open>The specification: the phase is a function of what the cluster holds, and so is the time after which
  the Backup is looked at again.\<close>

definition snapshot_key :: "backup \<Rightarrow> key" where
  "snapshot_key b = (mNamespace (bMeta b), VolumeSnapshotName b)"

definition backup_phase :: "cluster \<Rightarrow> backup \<Rightarrow> string" where
  "backup_phase c b =
     (if fmlookup (clGameServers c) (mNamespace (bMeta b), bGameServerRefName (bSpec b)) = None then BackupPhasePending
      else (case fmlookup (clVolumeSnapshots c) (snapshot_key b) of
              None \<Rightarrow> BackupPhaseInProgress | Some vs \<Rightarrow> mirrored_phase vs))"

definition backup_delay :: "cluster \<Rightarrow> backup \<Rightarrow> duration" where
  "backup_delay c b =
     (if backup_phase c b = BackupPhasePending then 30 * Second
      else if backup_phase c b = BackupPhaseInProgress then
        (if fmlookup (clVolumeSnapshots c) (snapshot_key b) = None then 5 * Second else 10 * Second)
      else 0)"

text \<open>A run leaves a snapshot of the server's claim, if there was none and the server exists.\<close>

definition snapshot_present :: "cluster \<Rightarrow> backup \<Rightarrow> cluster \<Rightarrow> bool" where
  "snapshot_present c b c' \<longleftrightarrow>
     (case fmlookup (clGameServers c) (mNamespace (bMeta b), bGameServerRefName (bSpec b)) of
        None \<Rightarrow> clVolumeSnapshots c' = clVolumeSnapshots c
      | Some gs \<Rightarrow>
          (if fmlookup (clVolumeSnapshots c) (snapshot_key b) \<noteq> None then clVolumeSnapshots c' = clVolumeSnapshots c
           else \<exists>vs. vssPVCName (vsSpec vs) = Some (PVCName gs) \<and> vsStatus vs = None
             \<and> object_key (vsMeta vs) = snapshot_key b
             \<and> clVolumeSnapshots c' = fmupd (snapshot_key b) vs (clVolumeSnapshots c)))"

definition backup_reported :: "cluster \<Rightarrow> backup \<Rightarrow> backup \<Rightarrow> bool" where
  "backup_reported c b b' \<longleftrightarrow> bMeta b' = bMeta b \<and> bSpec b' = bSpec b \<and> bPhase (bStatus b') = backup_phase c b
     \<and> bVolumeSnapshotName (bStatus b') =
         (if backup_phase c b = BackupPhasePending then bVolumeSnapshotName (bStatus b) else VolumeSnapshotName b)"

lemma phases_pending [simp]: "mirrored_phase vs \<noteq> BackupPhasePending" "BackupPhaseInProgress \<noteq> BackupPhasePending"
  by (auto simp: mirrored_phase_def BackupPhasePending_def BackupPhaseInProgress_def BackupPhaseReady_def
      BackupPhaseFailed_def split: option.splits)

lemma backup_effect_life:
  assumes "backup_run_effect c b r c'"
    and keyed: "\<And>k vs. fmlookup (clVolumeSnapshots c) k = Some vs \<Longrightarrow> object_key (vsMeta vs) = k"
  shows "r = (Result (backup_delay c b), None)" and "snapshot_present c b c'"
    and "\<exists>b'. backup_reported c b b'
      \<and> c' = c\<lparr>clVolumeSnapshots := clVolumeSnapshots c', clBackups := fmupd (object_key (bMeta b)) b' (clBackups c)\<rparr>"
proof -
  have name: "mName (vsMeta vs) = VolumeSnapshotName b" if "object_key (vsMeta vs) = snapshot_key b" for vs
    using that by (simp add: object_key_def snapshot_key_def)
  consider (pending) b' where "fmlookup (clGameServers c) (mNamespace (bMeta b), bGameServerRefName (bSpec b)) = None"
      "waits_for_server b b'" "c' = put_backup b b' c" "r = (Result (30 * Second), None)"
    | (fresh) gs vs b' where "fmlookup (clGameServers c) (mNamespace (bMeta b), bGameServerRefName (bSpec b)) = Some gs"
      "fmlookup (clVolumeSnapshots c) (snapshot_key b) = None" "object_key (vsMeta vs) = snapshot_key b"
      "vssPVCName (vsSpec vs) = Some (PVCName gs)" "vsStatus vs = None" "snapshot_requested b vs b'"
      "c' = put_backup b b' (c\<lparr>clVolumeSnapshots := fmupd (snapshot_key b) vs (clVolumeSnapshots c)\<rparr>)"
      "r = (Result (5 * Second), None)"
    | (mirror) gs vs b' where "fmlookup (clGameServers c) (mNamespace (bMeta b), bGameServerRefName (bSpec b)) = Some gs"
      "fmlookup (clVolumeSnapshots c) (snapshot_key b) = Some vs" "mirror_ok b vs b'" "c' = put_backup b b' c"
      "r = mirror_outcome vs None"
    using assms(1) unfolding backup_run_effect_def
    by (auto simp: Let_def snapshot_key_def split: option.splits)
  note cases = this
  show "r = (Result (backup_delay c b), None)"
    using cases by cases (auto simp: backup_delay_def backup_phase_def mirror_outcome_def)
  show "snapshot_present c b c'"
    using cases by cases (auto simp: snapshot_present_def)
  show "\<exists>b'. backup_reported c b b'
      \<and> c' = c\<lparr>clVolumeSnapshots := clVolumeSnapshots c', clBackups := fmupd (object_key (bMeta b)) b' (clBackups c)\<rparr>"
    using cases
  proof cases
    case (pending b')
    then show ?thesis
      by (intro exI [of _ b']) (simp add: backup_reported_def backup_phase_def waits_for_server_def)
  next
    case (fresh gs vs b')
    then show ?thesis
      by (intro exI [of _ b']) (simp add: backup_reported_def backup_phase_def snapshot_requested_def name)
  next
    case (mirror gs vs b')
    then show ?thesis using keyed [of "snapshot_key b" vs]
      by (intro exI [of _ b']) (simp add: backup_reported_def backup_phase_def mirror_ok_def name)
  qed
qed

text \<open>C12. A reconcile of a Backup refines its life cycle: after it, the stored Backup is the same object with
  the phase that the cluster calls for (Pending without its server, InProgress until the snapshot is ready or
  failed, then Ready or Failed) and names its snapshot; a snapshot of the server's claim is there; nothing
  else has changed; and the Backup is looked at again after 30, 5 or 10 seconds, or not at all once its
  snapshot has settled.\<close>

theorem backup_refines_life_cycle:
  assumes "api_server C view" and "owner_law L"
    and "fmlookup (clBackups (view (world s))) (object_key (bMeta b)) = Some b"
  shows "let run = Backup_Reconcile L C (object_key (bMeta b)); c = view (world s); c' = cluster_after view run s in
    result run s = (Result (backup_delay c b), None) \<and> snapshot_present c b c'
    \<and> (\<exists>b'. backup_reported c b b'
         \<and> c' = c\<lparr>clVolumeSnapshots := clVolumeSnapshots c', clBackups := fmupd (object_key (bMeta b)) b' (clBackups c)\<rparr>)"
proof -
  note eff = ensures_after [OF api_server.backup_effect [OF assms]]
  show ?thesis
    unfolding Let_def
    using backup_effect_life [OF eff] api_server.snapshots_keyed [OF assms(1)] by blast
qed

section \<open>From a Backup to a restored world\<close>

text \<open>What the snapshot controller and the user do between the runs.\<close>

definition snapshot_progress :: "key \<Rightarrow> volume_snapshot_status \<Rightarrow> cluster \<Rightarrow> cluster" where
  "snapshot_progress k st c = (case fmlookup (clVolumeSnapshots c) k of
     None \<Rightarrow> c
   | Some vs \<Rightarrow> c\<lparr>clVolumeSnapshots := fmupd k (vs\<lparr>vsStatus := Some st\<rparr>) (clVolumeSnapshots c)\<rparr>)"

definition add_server :: "game_server \<Rightarrow> cluster \<Rightarrow> cluster" where
  "add_server gs c = c\<lparr>clGameServers := fmupd (object_key (gsMeta gs)) gs (clGameServers c)\<rparr>"

text \<open>A server that can be deployed once its restore source is ready.\<close>

definition deployable :: "lib \<Rightarrow> cluster \<Rightarrow> game_server \<Rightarrow> game_template \<Rightarrow> bool" where
  "deployable L c gs tpl \<longleftrightarrow>
     fmlookup (clGameTemplates c) ('''', gsTemplateRefName (gsSpec gs)) = Some tpl
     \<and> ValidateConfig L gs tpl = None \<and> (\<exists>qty. ParseQuantity L (storage_size gs tpl) = Inr qty)
     \<and> distinct (map tpName (tplPorts (tplSpec tpl)))
     \<and> list_all (\<lambda>p. fst (resolveExposure gs p) \<in> exposure_types) (tplPorts (tplSpec tpl))"

lemma runnable_deployable:
  "runnable L (add_server gs c) gs tpl \<longleftrightarrow> deployable L c gs tpl \<and> restore_ready (add_server gs c) gs"
  by (auto simp: runnable_def deployable_def add_server_def)

text \<open>The claim of a server whose data comes from a snapshot of another claim.\<close>

definition restored_from :: "game_server \<Rightarrow> game_server \<Rightarrow> cluster \<Rightarrow> bool" where
  "restored_from gs' gs c \<longleftrightarrow> (\<exists>p r vs. fmlookup (clPVCs c) (mNamespace (gsMeta gs'), PVCName gs') = Some p
     \<and> pvcDataSourceRef (pvcSpec p) = Some r \<and> torKind r = ''VolumeSnapshot'' \<and> torAPIGroup r = Some snapshotAPIGroup
     \<and> fmlookup (clVolumeSnapshots c) (mNamespace (gsMeta gs'), torName r) = Some vs
     \<and> vssPVCName (vsSpec vs) = Some (PVCName gs))"

lemma ready_phase: "vssReadyToUse st = Some True \<Longrightarrow> vsStatus vs = Some st \<Longrightarrow> mirrored_phase vs = BackupPhaseReady"
  by (simp add: mirrored_phase_def)

lemma run_effect_restores:
  assumes eff: "run_effect L c gs tpl r c'" and "gsRestoreFrom (gsSpec gs) = Some n"
    and "fmlookup (clPVCs c) (mNamespace (gsMeta gs), PVCName gs) = None"
    and "fmlookup (clBackups c) (mNamespace (gsMeta gs), n) = Some b"
    and snap: "bVolumeSnapshotName (bStatus b) = snap" "snap \<noteq> ''''"
  shows "\<exists>p. fmlookup (clPVCs c') (mNamespace (gsMeta gs), PVCName gs) = Some p \<and> pvcDataSourceRef (pvcSpec p) =
      Some \<lparr>torAPIGroup = Some snapshotAPIGroup, torKind = ''VolumeSnapshot'', torName = snap\<rparr>"
    and "clVolumeSnapshots c' = clVolumeSnapshots c"
proof -
  have "restore_snapshot c gs = Some snap" using assms by (simp add: restore_snapshot_def)
  then have src: "pvcDataSourceRef (pvcSpec (pvc_of gs qty (restore_snapshot c gs))) =
      Some \<lparr>torAPIGroup = Some snapshotAPIGroup, torKind = ''VolumeSnapshot'', torName = snap\<rparr>" for qty
    using snap by (simp add: pvc_of_def)
  show "\<exists>p. fmlookup (clPVCs c') (mNamespace (gsMeta gs), PVCName gs) = Some p \<and> pvcDataSourceRef (pvcSpec p) =
      Some \<lparr>torAPIGroup = Some snapshotAPIGroup, torKind = ''VolumeSnapshot'', torName = snap\<rparr>"
    using eff assms(3) src by (auto simp: run_effect_def pvc_applied_def pvc_stored_def)
  show "clVolumeSnapshots c' = clVolumeSnapshots c" using eff by (auto simp: run_effect_def)
qed

lemma backup_effect_requests:
  assumes "backup_run_effect c b r c'" and "fmlookup (clGameServers c) (mNamespace (bMeta b), bGameServerRefName (bSpec b)) = Some gs"
    and "fmlookup (clVolumeSnapshots c) (snapshot_key b) = None"
  obtains vs b' where "snapshot_requested b vs b'" and "object_key (vsMeta vs) = snapshot_key b"
    and "vssPVCName (vsSpec vs) = Some (PVCName gs)"
    and "c' = put_backup b b' (c\<lparr>clVolumeSnapshots := fmupd (snapshot_key b) vs (clVolumeSnapshots c)\<rparr>)"
  using assms unfolding backup_run_effect_def by (auto simp: Let_def snapshot_key_def)

lemma backup_effect_ready:
  assumes "backup_run_effect c b r c'" and "fmlookup (clGameServers c) (mNamespace (bMeta b), bGameServerRefName (bSpec b)) = Some gs"
    and "fmlookup (clVolumeSnapshots c) (snapshot_key b) = Some vs" and "vsStatus vs = Some st" and "vssReadyToUse st = Some True"
  obtains b' where "bMeta b' = bMeta b" and "bSpec b' = bSpec b" and "bPhase (bStatus b') = BackupPhaseReady"
    and "bVolumeSnapshotName (bStatus b') = mName (vsMeta vs)" and "c' = put_backup b b' c"
  using assms ready_phase [OF assms(5,4)] unfolding backup_run_effect_def
  by (auto simp: Let_def snapshot_key_def mirror_ok_def)

text \<open>From a Backup to a restored world: when the Backup of a server is reconciled, the snapshot controller
  makes the snapshot ready, the Backup is reconciled again and a new server is created that restores from it,
  then the next reconcile of the new server ends with a claim whose data source is a VolumeSnapshot of the
  claim of the server that was backed up.\<close>

theorem restored_world_is_the_backed_up_one:
  assumes "api_server C view" and "owner_law L"
    and "fmlookup (clBackups (view (world s))) (object_key (bMeta b)) = Some b" and "mName (bMeta b) \<noteq> ''''"
    and "fmlookup (clGameServers (view (world s))) (mNamespace (bMeta b), bGameServerRefName (bSpec b)) = Some gs"
    and "fmlookup (clVolumeSnapshots (view (world s))) (snapshot_key b) = None"
    and "vssReadyToUse st = Some True"
    and "view (world s1) = snapshot_progress (snapshot_key b) st
      (cluster_after view (Backup_Reconcile L C (object_key (bMeta b))) s)"
    and "view (world s2) = add_server gs' (cluster_after view (Backup_Reconcile L C (object_key (bMeta b))) s1)"
    and "mNamespace (gsMeta gs') = mNamespace (bMeta b)" and "gsRestoreFrom (gsSpec gs') = Some (mName (bMeta b))"
    and "fmlookup (clPVCs (view (world s))) (mNamespace (gsMeta gs'), PVCName gs') = None"
    and "deployable L (view (world s)) gs' tpl"
  shows "restored_from gs' gs (cluster_after view (GameServer_Reconcile L C (object_key (gsMeta gs'))) s2)"
proof -
  let ?k = "object_key (bMeta b)" and ?c = "view (world s)"
  have k: "?k = (mNamespace (bMeta b), mName (bMeta b))" by (simp add: object_key_def)
  note eff = ensures_after [OF api_server.backup_effect [OF assms(1,2,3)]]
  from backup_effect_requests [OF eff assms(5,6)] obtain vs b1 where b1: "snapshot_requested b vs b1"
    and vs: "object_key (vsMeta vs) = snapshot_key b" "vssPVCName (vsSpec vs) = Some (PVCName gs)"
    and c1: "cluster_after view (Backup_Reconcile L C ?k) s =
      put_backup b b1 (?c\<lparr>clVolumeSnapshots := fmupd (snapshot_key b) vs (clVolumeSnapshots ?c)\<rparr>)" .
  let ?vs = "vs\<lparr>vsStatus := Some st\<rparr>"
  have same: "bMeta b1 = bMeta b" "bSpec b1 = bSpec b" using b1 by (simp_all add: snapshot_requested_def)
  have s1: "view (world s1) = put_backup b b1 (?c\<lparr>clVolumeSnapshots := fmupd (snapshot_key b) ?vs (clVolumeSnapshots ?c)\<rparr>)"
    unfolding assms(8) c1 snapshot_progress_def by simp
  have "fmlookup (clBackups (view (world s1))) (object_key (bMeta b1)) = Some b1" by (simp add: s1 same)
  note eff1 = ensures_after [OF api_server.backup_effect [OF assms(1,2) this]]
  have gs1: "fmlookup (clGameServers (view (world s1))) (mNamespace (bMeta b1), bGameServerRefName (bSpec b1)) = Some gs"
    using assms(5) by (simp add: s1 same)
  have "snapshot_key b1 = snapshot_key b" by (simp add: snapshot_key_def same VolumeSnapshotName_def)
  then have vs1: "fmlookup (clVolumeSnapshots (view (world s1))) (snapshot_key b1) = Some ?vs" by (simp add: s1)
  from backup_effect_ready [OF eff1 gs1 vs1 _ assms(7)] obtain b2 where b2: "bPhase (bStatus b2) = BackupPhaseReady"
    "bVolumeSnapshotName (bStatus b2) = mName (vsMeta vs)"
    and c2: "cluster_after view (Backup_Reconcile L C ?k) s1 = put_backup b b2 (view (world s1))"
    by (auto simp: same)
  have name: "mName (vsMeta vs) = mName (bMeta b)"
    using vs(1) by (simp add: snapshot_key_def object_key_def VolumeSnapshotName_def)
  have s2: "view (world s2) = add_server gs' (put_backup b b2 (view (world s1)))" using assms(9) c2 by simp
  have stored: "fmlookup (clBackups (view (world s2))) (mNamespace (gsMeta gs'), mName (bMeta b)) = Some b2"
    by (simp add: s2 add_server_def assms(10) k)
  have none: "fmlookup (clPVCs (view (world s2))) (mNamespace (gsMeta gs'), PVCName gs') = None"
    using assms(12) by (simp add: s2 s1 add_server_def)
  have "restore_ready (view (world s2)) gs'"
    using stored b2 assms(4) by (simp add: restore_ready_def assms(11) name)
  moreover have "deployable L (put_backup b b2 (view (world s1))) gs' tpl"
    using assms(13) by (simp add: s1 deployable_def)
  ultimately have "runnable L (view (world s2)) gs' tpl" by (simp add: s2 runnable_deployable)
  note eff2 = ensures_after [OF api_server.reconcile_effect [OF assms(1,2) this]]
  note res = run_effect_restores [OF eff2 assms(11) none stored b2(2)]
  have "fmlookup (clVolumeSnapshots (view (world s2))) (mNamespace (gsMeta gs'), mName (vsMeta vs)) = Some ?vs"
    by (simp add: s2 s1 add_server_def assms(10) name snapshot_key_def VolumeSnapshotName_def)
  with res assms(4) vs(2) show ?thesis
    unfolding restored_from_def by (fastforce simp: name)
qed

section \<open>Witnesses\<close>

definition saved_cluster :: cluster where
  "saved_cluster = demo_cluster\<lparr>clBackups := fmupd (''games'', ''nightly-1'') (demo_backup ''nightly-1'' 0 False) fmempty\<rparr>"

definition in_store :: "cluster \<Rightarrow> (cluster \<times> gotime) sys" where
  "in_store c = \<lparr>world = (c, 0), trace = []\<rparr>"

lemma keyed_view_again [simp]: "keyed_view meta (keyed_view meta m) = keyed_view meta m"
  by (rule fmap_ext) (simp add: keyed_view_lookup split: option.split)

lemma store_keyed: "keyed_cluster (store_view w) = store_view w"
  by (simp add: store_view_def keyed_cluster_def)

lemma keyed_parts [simp]:
  "keyed_view gsMeta (clGameServers (store_view w)) = clGameServers (store_view w)"
  "keyed_view tplMeta (clGameTemplates (store_view w)) = clGameTemplates (store_view w)"
  "keyed_view bMeta (clBackups (store_view w)) = clBackups (store_view w)"
  "keyed_view bsMeta (clBackupSchedules (store_view w)) = clBackupSchedules (store_view w)"
  "keyed_view vsMeta (clVolumeSnapshots (store_view w)) = clVolumeSnapshots (store_view w)"
  "keyed_view pvcMeta (clPVCs (store_view w)) = clPVCs (store_view w)"
  "keyed_view depMeta (clDeployments (store_view w)) = clDeployments (store_view w)"
  "keyed_view svcMeta (clServices (store_view w)) = clServices (store_view w)"
  "keyed_view saMeta (clServiceAccounts (store_view w)) = clServiceAccounts (store_view w)"
  by (simp_all add: store_view_def keyed_cluster_def)

lemma in_store_view: "store_view (world (in_store c)) = keyed_cluster c"
  by (simp add: in_store_def store_view_def)

lemma in_store_progress [simp]:
  "store_view (world (in_store (snapshot_progress k st (store_view w)))) = snapshot_progress k st (store_view w)"
proof (cases "fmlookup (clVolumeSnapshots (store_view w)) k")
  case None
  then show ?thesis by (simp add: snapshot_progress_def in_store_view store_keyed)
next
  case (Some vs)
  then have "object_key (vsMeta vs) = k" by (rule api_server.snapshots_keyed [OF store.api_server_axioms])
  with Some show ?thesis
    by (intro cluster.equality) (simp_all add: snapshot_progress_def in_store_view keyed_cluster_def keyed_view_upd)
qed

lemma in_store_add [simp]: "store_view (world (in_store (add_server gs (store_view w)))) = add_server gs (store_view w)"
  by (intro cluster.equality) (simp_all add: add_server_def in_store_view keyed_cluster_def keyed_view_upd)

lemma saved_view [simp]: "store_view (world (in_store saved_cluster)) = saved_cluster"
  by (simp add: in_store_view keyed_cluster_def saved_cluster_def demo_cluster_def keyed_view_upd object_key_def demo_defs)

lemma saved_facts [simp]:
  "fmlookup (clBackups saved_cluster) (''games'', ''nightly-1'') = Some (demo_backup ''nightly-1'' 0 False)"
  "fmlookup (clGameServers saved_cluster) (''games'', ''midgard'') = Some demo_server"
  "clVolumeSnapshots saved_cluster = fmempty" "clPVCs saved_cluster = fmempty"
  by (simp_all add: saved_cluster_def demo_cluster_def)

lemma demo_backup_facts [simp]:
  "object_key (bMeta (demo_backup n t r)) = (''games'', n)" "bGameServerRefName (bSpec (demo_backup n t r)) = ''midgard''"
  "mNamespace (bMeta (demo_backup n t r)) = ''games''" "mName (bMeta (demo_backup n t r)) = n"
  by (simp_all add: demo_defs object_key_def)

theorem backup_refines_life_cycle_witness:
  "result (Backup_Reconcile demo_lib store_client (''games'', ''nightly-1'')) (in_store saved_cluster) =
     (Result (5 * Second), None)"
  using backup_refines_life_cycle [OF store.api_server_axioms demo_owner_law,
      of "in_store saved_cluster" "demo_backup ''nightly-1'' 0 False"]
  by (simp add: Let_def backup_delay_def backup_phase_def)

text \<open>The new server: the demo server under another name.\<close>

definition asgard :: game_server where
  "asgard = restoring_server\<lparr>gsMeta := demo_meta ''asgard'' ''games''\<rparr>"

definition ready_status :: volume_snapshot_status where
  "ready_status = \<lparr>vssBoundContentName = Some ''content-1'', vssReadyToUse = Some True,
     vssCreationTime = Some 5, vssRestoreSize = Some ''20Gi'', vssError = None\<rparr>"

lemma asgard_deployable: "deployable demo_lib saved_cluster asgard demo_template"
proof -
  have "config_ok asgard demo_template"
    using demo_config_ok by (simp add: config_ok_def asgard_def restoring_server_def demo_server_def)
  then have "ValidateConfig demo_lib asgard demo_template = None" using ValidateConfig_None [of demo_lib] by simp
  then show ?thesis
    by (simp add: deployable_def saved_cluster_def demo_cluster_def asgard_def restoring_server_def storage_size_def
        resolveExposure_def exposure_types_def) (simp add: demo_defs)
qed

lemma asgard_facts [simp]:
  "object_key (gsMeta asgard) = (''games'', ''asgard'')" "mNamespace (gsMeta asgard) = ''games''"
  "gsRestoreFrom (gsSpec asgard) = Some ''nightly-1''"
  by (simp_all add: asgard_def restoring_server_def demo_meta_def object_key_def zero_meta_def)

theorem restored_world_is_the_backed_up_one_witness:
  "let run = Backup_Reconcile demo_lib store_client (''games'', ''nightly-1'');
       s1 = in_store (snapshot_progress (''games'', ''nightly-1'') ready_status
              (cluster_after store_view run (in_store saved_cluster)));
       s2 = in_store (add_server asgard (cluster_after store_view run s1))
   in restored_from asgard demo_server
        (cluster_after store_view (GameServer_Reconcile demo_lib store_client (''games'', ''asgard'')) s2)"
proof -
  let ?b = "demo_backup ''nightly-1'' 0 False"
  have k: "snapshot_key ?b = (''games'', ''nightly-1'')" by (simp add: snapshot_key_def VolumeSnapshotName_def)
  note chain = restored_world_is_the_backed_up_one [OF store.api_server_axioms demo_owner_law,
      where b = ?b and s = "in_store saved_cluster" and gs = demo_server and gs' = asgard and tpl = demo_template
        and st = ready_status, unfolded k demo_backup_facts saved_view saved_facts asgard_facts]
  show ?thesis
    unfolding Let_def
    by (rule chain) (use asgard_deployable in \<open>simp_all add: ready_status_def cluster_after_def\<close>)
qed

end
