(* ===== verification/RetentionProperties.thy ===== *)
theory RetentionProperties
  imports ScheduleEffects ScheduleProperties RestoreProperties
begin

text \<open>
  Retention over a cluster: which Backups are there after a reconcile of a BackupSchedule. Where
  theory \<open>ScheduleProperties\<close> speaks of the calls of a run, this one speaks of what is left.
\<close>

declare ConditionTrue_def [simp del] ConditionFalse_def [simp del] Second_def [simp del] Minute_def [simp del]
  Hour_def [simp del] BackupScheduleKind_def [simp del] ScheduleValid_def [simp del]

text \<open>The Backups of a schedule that count for retention.\<close>

definition live_children :: "backup_schedule \<Rightarrow> (key, backup) fmap \<Rightarrow> backup set" where
  "live_children bs m = {b \<in> children_of bs m. \<not> bRetainForever (bSpec b)}"

abbreviation created :: "backup \<Rightarrow> gotime" where
  "created b \<equiv> mCreationTimestamp (bMeta b)"

lemma newest_permutes: "newest_first (SortNewestFirst L) \<Longrightarrow> permutes L"
  by (simp add: newest_first_def permutes_def)

lemma retention_splits:
  assumes newest: "newest_first (SortNewestFirst L)" and keyed: "keyed_backups m" and eff: "retention_effect L bs m m'"
  obtains kept gone where "m' = drop_backups gone m" and "set kept \<union> set gone = live_children bs m"
    and "set kept \<inter> set gone = {}" and "distinct kept" and "length kept \<le> nat (effective_keep bs)"
    and "gone \<noteq> [] \<Longrightarrow> length kept = nat (effective_keep bs)"
    and "\<And>b x. b \<in> set gone \<Longrightarrow> x \<in> set kept \<Longrightarrow> created b \<le> created x"
proof -
  from eff obtain items where items: "distinct items" "set items = children_of bs m"
    and m': "m' = drop_backups (surplus (effective_keep bs) (SortNewestFirst L items)) m"
    unfolding retention_effect_def by blast
  note perm = permutes_simps [OF newest_permutes [OF newest]]
  let ?xs = "filter (\<lambda>b. \<not> bRetainForever (bSpec b)) (SortNewestFirst L items)"
  let ?n = "nat (effective_keep bs)"
  have xs: "set (take ?n ?xs) \<union> set (drop ?n ?xs) = set ?xs" by (metis append_take_drop_id set_append)
  have dist: "distinct ?xs" using items(1) by (simp add: perm)
  have sorted: "sorted_wrt (\<lambda>a b. created a \<ge> created b) (take ?n ?xs @ drop ?n ?xs)"
    using newest unfolding append_take_drop_id by (simp add: newest_first_def sorted_wrt_filter)
  show thesis
  proof (rule that [of "drop ?n ?xs" "take ?n ?xs"])
    show "m' = drop_backups (drop ?n ?xs) m" by (simp add: m' surplus_def)
    show "set (take ?n ?xs) \<union> set (drop ?n ?xs) = live_children bs m"
      unfolding xs by (auto simp: live_children_def perm items(2))
    show "set (take ?n ?xs) \<inter> set (drop ?n ?xs) = {}" using dist by (simp add: set_take_disj_set_drop_if_distinct)
    show "distinct (take ?n ?xs)" using dist by simp
    show "created b \<le> created x" if "b \<in> set (drop ?n ?xs)" "x \<in> set (take ?n ?xs)" for b x
      using sorted that unfolding sorted_wrt_append by blast
  qed auto
qed

lemma children_dropped:
  assumes "keyed_backups m" and "set gone \<subseteq> fmran' m"
  shows "children_of bs (drop_backups gone m) = children_of bs m - set gone"
proof -
  have at: "fmlookup m (object_key (bMeta b)) = Some b" if "b \<in> fmran' m" for b
    using assms(1) that by (auto simp: fmran'_def)
  have "fmran' (drop_backups gone m) = fmran' m - set gone"
  proof (intro set_eqI iffI)
    fix b assume "b \<in> fmran' (drop_backups gone m)"
    then obtain k where k: "k \<notin> (\<lambda>b. object_key (bMeta b)) ` set gone" "fmlookup m k = Some b"
      by (auto simp: fmran'_def drop_backups_lookup simp del: split_paired_Ex split_paired_All split: if_splits)
    with assms(1) have "object_key (bMeta b) = k" by blast
    with k show "b \<in> fmran' m - set gone" by (auto intro: fmran'I)
  next
    fix b assume b: "b \<in> fmran' m - set gone"
    have "object_key (bMeta b) \<notin> (\<lambda>b. object_key (bMeta b)) ` set gone"
    proof
      assume "object_key (bMeta b) \<in> (\<lambda>b. object_key (bMeta b)) ` set gone"
      then obtain g where g: "g \<in> set gone" "object_key (bMeta b) = object_key (bMeta g)" by blast
      with at [of b] at [of g] assms(2) b show False by auto
    qed
    with at [of b] b have "fmlookup (drop_backups gone m) (object_key (bMeta b)) = Some b"
      by (simp add: drop_backups_lookup)
    then show "b \<in> fmran' (drop_backups gone m)" by (rule fmran'I)
  qed
  then show ?thesis by (auto simp: children_of_def)
qed

lemma retention_life:
  assumes newest: "newest_first (SortNewestFirst L)" and keyed: "keyed_backups m" and eff: "retention_effect L bs m m'"
  shows "card (live_children bs m') \<le> nat (effective_keep bs)"
    and "fmlookup m' k = Some b \<Longrightarrow> fmlookup m k = Some b"
    and "fmlookup m k = Some b \<Longrightarrow> fmlookup m' k = None \<Longrightarrow> b \<in> live_children bs m
      \<and> card (live_children bs m') = nat (effective_keep bs) \<and> (\<forall>x \<in> live_children bs m'. created b \<le> created x)"
proof -
  obtain kept gone where m': "m' = drop_backups gone m"
    and split: "set kept \<union> set gone = live_children bs m" "set kept \<inter> set gone = {}" "distinct kept"
    and len: "length kept \<le> nat (effective_keep bs)" "gone \<noteq> [] \<Longrightarrow> length kept = nat (effective_keep bs)"
    and old: "\<And>b x. b \<in> set gone \<Longrightarrow> x \<in> set kept \<Longrightarrow> created b \<le> created x"
    by (rule retention_splits [OF assms(1-3)]) blast
  have "set gone \<subseteq> fmran' m" using split(1) by (auto simp: live_children_def children_of_def)
  note left = children_dropped [OF keyed this, of bs]
  have live: "live_children bs m' = set kept"
    using split(1,2) unfolding m' live_children_def left by blast
  then have card: "card (live_children bs m') = length kept" using split(3) by (simp add: distinct_card)
  show "card (live_children bs m') \<le> nat (effective_keep bs)" using card len by simp
  show "fmlookup m' k = Some b \<Longrightarrow> fmlookup m k = Some b"
    by (simp add: m' drop_backups_lookup split: if_splits)
  assume k: "fmlookup m k = Some b" and "fmlookup m' k = None"
  then have "k \<in> (\<lambda>b. object_key (bMeta b)) ` set gone" by (simp add: m' drop_backups_lookup split: if_splits)
  then obtain g where g: "g \<in> set gone" "k = object_key (bMeta g)" by blast
  then have "fmlookup m k = Some g" using keyed \<open>set gone \<subseteq> fmran' m\<close> by (auto simp: fmran'_def)
  with k g have gone: "b \<in> set gone" by simp
  then have "gone \<noteq> []" by auto
  from len(2) [OF this] gone split(1) card old live show "b \<in> live_children bs m
      \<and> card (live_children bs m') = nat (effective_keep bs) \<and> (\<forall>x \<in> live_children bs m'. created b \<le> created x)"
    by auto
qed

lemma schedule_effect_backups:
  assumes "schedule_run_effect L c bs r c'" and "schedule_parsed L bs = Some (loc, sched)"
  shows "\<exists>now m1. (m1 = clBackups c \<or> (due L now sched loc bs \<and> spawn_effect bs (next_fire L now sched loc bs) (clBackups c) m1))
    \<and> retention_effect L bs m1 (clBackups c')"
proof -
  from assms obtain now m1 m2 g where *: "if due L now sched loc bs
      then spawn_effect bs (next_fire L now sched loc bs) (clBackups c) m1 \<and> last_run g = Some (next_fire L now sched loc bs)
      else m1 = clBackups c \<and> last_run g = last_run bs"
    and "retention_effect L bs m1 m2" and "c' = put_run bs g m2 c"
    unfolding schedule_run_effect_def schedule_run_at_def assms(2) option.case prod.case by blast
  then have "retention_effect L bs m1 (clBackups c')" by simp
  with * show ?thesis by (cases "due L now sched loc bs") auto
qed

text \<open>C10. Retention over the cluster: after a reconcile of a schedule that parses, at most \<open>keep\<close> of its own
  Backups that are not retained forever are left; every Backup that is there was there before, or is the one
  Backup of the due run; and a Backup that is gone was one of the schedule's that are not retained forever,
  while exactly \<open>keep\<close> of them are left and none of those is older.\<close>

theorem schedule_keeps_the_newest:
  assumes "api_server C view" and "owner_law L" and "newest_first (SortNewestFirst L)"
    and "quiet_clock view injected"
    and "fmlookup (clBackupSchedules (view (world s))) (object_key (bsMeta bs)) = Some bs"
    and "schedule_parsed L bs = Some (loc, sched)"
    and "c' = cluster_after view (BackupSchedule_Reconcile L injected C (object_key (bsMeta bs))) s"
  shows "card (live_children bs (clBackups c')) \<le> nat (effective_keep bs)
    \<and> (\<exists>now. \<forall>k b. fmlookup (clBackups c') k = Some b \<longrightarrow> fmlookup (clBackups (view (world s))) k = Some b
         \<or> (due L now sched loc bs \<and> k = object_key (bMeta (scheduled_backup bs (next_fire L now sched loc bs)))))
    \<and> (\<forall>k b. fmlookup (clBackups (view (world s))) k = Some b \<and> fmlookup (clBackups c') k = None \<longrightarrow>
         b \<in> live_children bs (clBackups (view (world s)))
         \<and> card (live_children bs (clBackups c')) = nat (effective_keep bs)
         \<and> (\<forall>x \<in> live_children bs (clBackups c'). created b \<le> created x))"
proof -
  let ?m = "clBackups (view (world s))"
  have keyed: "keyed_backups ?m" using api_server.backups_keyed [OF assms(1)] by blast
  note eff = ensures_after [OF api_server.schedule_effect [OF assms(1,2) newest_permutes [OF assms(3)] assms(4) keyed assms(5)]]
  obtain now m1 where spawn: "m1 = ?m \<or> (due L now sched loc bs \<and> spawn_effect bs (next_fire L now sched loc bs) ?m m1)"
    and ret: "retention_effect L bs m1 (clBackups c')"
    using schedule_effect_backups [OF eff assms(6)] unfolding assms(7) by blast
  have new: "fmlookup ?m k = Some b \<or> (due L now sched loc bs \<and> k = object_key (bMeta (scheduled_backup bs (next_fire L now sched loc bs))))"
    and keyed1: "object_key (bMeta b) = k" if "fmlookup m1 k = Some b" for k b
    using spawn keyed [THEN spec, THEN spec, of k b] that by (auto simp: spawn_effect_def Let_def split: if_splits)
  have old: "fmlookup m1 k = Some b" if "fmlookup ?m k = Some b" for k b
    using spawn that by (auto simp: spawn_effect_def Let_def split: if_splits)
  note life = retention_life [OF assms(3) _ ret]
  have keyed1': "keyed_backups m1" using keyed1 by blast
  note life = life [OF keyed1']
  have live: "b \<in> live_children bs ?m" if "b \<in> live_children bs m1" "fmlookup ?m k = Some b" for b k
    using that by (auto simp: live_children_def children_of_def intro: fmran'I)
  show ?thesis
  proof (intro conjI exI [of _ now] allI impI ballI)
    show "card (live_children bs (clBackups c')) \<le> nat (effective_keep bs)" by (rule life(1))
    fix k b
    show "fmlookup ?m k = Some b \<or> (due L now sched loc bs \<and> k = object_key (bMeta (scheduled_backup bs (next_fire L now sched loc bs))))"
      if "fmlookup (clBackups c') k = Some b"
      by (rule new) (rule life(2) [OF that])
    assume gone: "fmlookup ?m k = Some b \<and> fmlookup (clBackups c') k = None"
    note gone' = life(3) [OF old [OF gone [THEN conjunct1]] gone [THEN conjunct2]]
    show "b \<in> live_children bs ?m" using gone' gone live by blast
    show "card (live_children bs (clBackups c')) = nat (effective_keep bs)" using gone' by blast
    fix x assume "x \<in> live_children bs (clBackups c')"
    then show "created b \<le> created x" using gone' by blast
  qed
qed

definition kept_cluster :: cluster where
  "kept_cluster = saved_cluster\<lparr>clBackupSchedules := fmupd (''games'', ''nightly'') (demo_schedule 1 None) fmempty\<rparr>"

lemma kept_view [simp]: "store_view (world (in_store kept_cluster)) = kept_cluster"
  by (simp add: in_store_view keyed_cluster_def kept_cluster_def saved_cluster_def demo_cluster_def keyed_view_upd
      object_key_def demo_defs)

theorem schedule_keeps_the_newest_witness:
  "card (live_children (demo_schedule 1 None) (clBackups (cluster_after store_view
     (BackupSchedule_Reconcile demo_lib None store_client (''games'', ''nightly'')) (in_store kept_cluster)))) \<le> 1"
proof -
  have k: "object_key (bsMeta (demo_schedule 1 None)) = (''games'', ''nightly'')"
    and keep: "nat (effective_keep (demo_schedule 1 None)) = 1"
    by (simp_all add: demo_defs object_key_def effective_keep_def)
  have parsed: "schedule_parsed demo_lib (demo_schedule 1 None) = Some (UTC, ''0 * * * *'')"
    by (simp add: schedule_parsed_def loadLocation_def demo_defs)
  have "fmlookup (clBackupSchedules (store_view (world (in_store kept_cluster)))) (''games'', ''nightly'') =
      Some (demo_schedule 1 None)"
    by simp (simp add: kept_cluster_def)
  moreover have "quiet_clock store_view None" by (simp add: quiet_clock_def)
  ultimately show ?thesis
    using schedule_keeps_the_newest [OF store.api_server_axioms demo_owner_law demo_newest_first _ _ parsed refl,
        of None "in_store kept_cluster"] unfolding k keep by blast
qed

end
