(* ===== verification/Isolation.thy ===== *)
theory Isolation
  imports Operator RetentionProperties
begin

text \<open>
  The turns of the reconcilers with the request they serve, and the scope of a turn: which objects it may
  create, change or delete. Turns for different servers have disjoint scopes.
\<close>

declare DefaultServiceAccountName_def [simp del]

section \<open>Turns\<close>

datatype turn = ServerTurn key | TemplateTurn key | BackupTurn key | ScheduleTurn key

inductive turn_step :: "lib \<Rightarrow> 'w client \<Rightarrow> ('w \<Rightarrow> cluster) \<Rightarrow> turn \<Rightarrow> outcome \<Rightarrow> cluster \<Rightarrow> cluster \<Rightarrow> bool"
  for L C view where
  server: "run = GameServer_Reconcile L C k \<Longrightarrow>
    turn_step L C view (ServerTurn k) (result run s) (view (world s)) (cluster_after view run s)"
| gametemplate: "run = GameTemplate_Reconcile C k \<Longrightarrow>
    turn_step L C view (TemplateTurn k) (result run s) (view (world s)) (cluster_after view run s)"
| backup: "run = Backup_Reconcile L C k \<Longrightarrow>
    turn_step L C view (BackupTurn k) (result run s) (view (world s)) (cluster_after view run s)"
| schedule: "run = BackupSchedule_Reconcile L injected C k \<Longrightarrow> quiet_clock view injected \<Longrightarrow>
    turn_step L C view (ScheduleTurn k) (result run s) (view (world s)) (cluster_after view run s)"

inductive_cases server_turnE: "turn_step L C view (ServerTurn k) r c c'"
inductive_cases turn_stepE: "turn_step L C view t r c c'"

section \<open>The scope of a turn\<close>

definition child_backup :: "key \<Rightarrow> backup \<Rightarrow> bool" where
  "child_backup k b \<longleftrightarrow> mNamespace (bMeta b) = fst k \<and> fmlookup (mLabels (bMeta b)) labelSchedule = Some (snd k)"

text \<open>The Backups that a turn of a schedule may create or delete: what is or was there is its child.\<close>

definition children_only :: "key \<Rightarrow> (key, backup) fmap \<Rightarrow> (key, backup) fmap \<Rightarrow> bool" where
  "children_only k m m' \<longleftrightarrow> only_at {j. \<forall>b. fmlookup m j = Some b \<or> fmlookup m' j = Some b \<longrightarrow> child_backup k b} m m'"

lemma children_only_trans: "children_only k m m' \<Longrightarrow> children_only k m' m'' \<Longrightarrow> children_only k m m''"
  unfolding children_only_def only_at_def by (smt (verit) mem_Collect_eq)

fun in_scope :: "turn \<Rightarrow> cluster \<Rightarrow> cluster \<Rightarrow> bool" where
  "in_scope (ServerTurn k) c c' =
     (\<exists>m1 m2 m3 m4 m5. c' = c\<lparr>clGameServers := m1, clPVCs := m2, clDeployments := m3, clServices := m4,
          clServiceAccounts := m5\<rparr>
        \<and> only_at {k} (clGameServers c) m1 \<and> only_at {claim_key k} (clPVCs c) m2
        \<and> only_at {k} (clDeployments c) m3 \<and> only_at (service_scope c k) (clServices c) m4
        \<and> only_at {(fst k, DefaultServiceAccountName)} (clServiceAccounts c) m5)"
| "in_scope (TemplateTurn k) c c' =
     (\<exists>m. c' = c\<lparr>clGameTemplates := m\<rparr> \<and> only_at {k} (clGameTemplates c) m)"
| "in_scope (BackupTurn k) c c' =
     (\<exists>m1 m2. c' = c\<lparr>clBackups := m1, clVolumeSnapshots := m2\<rparr>
        \<and> only_at {k} (clBackups c) m1 \<and> only_at {k} (clVolumeSnapshots c) m2)"
| "in_scope (ScheduleTurn k) c c' =
     (\<exists>m1 m2. c' = c\<lparr>clBackups := m1, clBackupSchedules := m2\<rparr>
        \<and> children_only k (clBackups c) m1 \<and> only_at {k} (clBackupSchedules c) m2)"

lemma in_scope_refl [simp]: "in_scope t c c"
  by (cases t; cases c) (auto simp: children_only_def intro!: exI)

section \<open>Every turn stays in its scope\<close>

lemma server_in_scope: "server_turn k (service_scope c k) c c' \<Longrightarrow> in_scope (ServerTurn k) c c'"
  unfolding server_turn_def in_scope.simps by blast

lemma backup_in_scope:
  assumes "object_key (bMeta b) = k" and "backup_run_effect c b r c'"
  shows "in_scope (BackupTurn k) c c'"
proof -
  have vs: "(mNamespace (bMeta b), VolumeSnapshotName b) = k"
    using assms(1) by (simp add: VolumeSnapshotName_def object_key_def)
  have put: "in_scope (BackupTurn k) c (put_backup b b' c)" for b'
    by (cases c) (auto simp: assms(1) intro!: exI)
  have fresh: "in_scope (BackupTurn k) c
      (c\<lparr>clVolumeSnapshots := fmupd k v (clVolumeSnapshots c), clBackups := fmupd k b' (clBackups c)\<rparr>)" for v b'
    by (cases c) (auto intro!: exI)
  show ?thesis
    using assms(2) put fresh unfolding backup_run_effect_def Let_def vs
    by (auto simp: assms(1) simp del: in_scope.simps split: option.splits)
qed

lemma spawn_children:
  assumes "object_key (bsMeta bs) = k" and "spawn_effect bs fire m m'"
  shows "children_only k m m'"
proof -
  have "child_backup k y" if "mLabels (bMeta y) = mLabels (bMeta (scheduled_backup bs fire))"
    "object_key (bMeta y) = object_key (bMeta (scheduled_backup bs fire))" for y :: backup
    using that assms(1) by (auto simp: child_backup_def scheduled_backup_def object_key_def)
  with assms(2) show ?thesis
    by (auto simp: spawn_effect_def Let_def children_only_def only_at_def split: if_splits)
qed

lemma retention_children:
  assumes "permutes L" and key: "object_key (bsMeta bs) = k" and keyed: "keyed_backups m" and eff: "retention_effect L bs m m'"
  shows "children_only k m m'"
proof -
  from eff obtain items where items: "set items = children_of bs m"
    and m': "m' = drop_backups (surplus (effective_keep bs) (SortNewestFirst L items)) m"
    unfolding retention_effect_def by blast
  have "child_backup k b" if "j \<in> (\<lambda>b. object_key (bMeta b)) ` set (surplus (effective_keep bs) (SortNewestFirst L items))"
    and b: "fmlookup m j = Some b" for j b
  proof -
    from that(1) obtain g where "g \<in> set (surplus (effective_keep bs) (SortNewestFirst L items))"
      and j: "j = object_key (bMeta g)" by blast
    from this(1) have "g \<in> set (SortNewestFirst L items)" unfolding surplus_def by (auto dest: in_set_dropD)
    then have g: "g \<in> children_of bs m" using items by (simp add: permutes_simps [OF assms(1)])
    then have "fmlookup m j = Some g" using keyed by (auto simp: children_of_def fmran'_def j)
    with b g key show ?thesis
      by (auto simp: children_of_def selects_def fmpred_iff child_backup_def object_key_def)
  qed
  then show ?thesis
    by (auto simp: children_only_def only_at_def m' drop_backups_lookup)
qed

lemma spawn_keyed: "keyed_backups m \<Longrightarrow> spawn_effect bs fire m m' \<Longrightarrow> keyed_backups m'"
  by (auto simp: spawn_effect_def Let_def split: if_splits)

lemma schedule_in_scope:
  assumes "permutes L" and key: "object_key (bsMeta bs) = k" and keyed: "keyed_backups (clBackups c)"
    and eff: "schedule_run_effect L c bs r c'"
  shows "in_scope (ScheduleTurn k) c c'"
proof (cases "schedule_parsed L bs")
  case None
  with eff obtain g where "c' = put_schedule bs g c" by (auto simp: schedule_run_effect_def schedule_run_at_def)
  then show ?thesis by (cases c) (auto simp: key children_only_def intro!: exI)
next
  case (Some p)
  obtain loc sched where p: "p = (loc, sched)" by (cases p)
  from eff obtain now m1 m2 g where spawn: "if due L now sched loc bs
      then spawn_effect bs (next_fire L now sched loc bs) (clBackups c) m1 \<and> last_run g = Some (next_fire L now sched loc bs)
      else m1 = clBackups c \<and> last_run g = last_run bs"
    and ret: "retention_effect L bs m1 m2" and c': "c' = put_run bs g m2 c"
    unfolding schedule_run_effect_def schedule_run_at_def Some p option.case prod.case by blast
  have "m1 = clBackups c \<or> spawn_effect bs (next_fire L now sched loc bs) (clBackups c) m1"
    using spawn by (cases "due L now sched loc bs") simp_all
  then have "children_only k (clBackups c) m1" and "keyed_backups m1"
    using spawn_children [OF key] spawn_keyed [OF keyed] keyed by (auto simp: children_only_def)
  from children_only_trans [OF this(1) retention_children [OF assms(1) key this(2) ret]]
  have "children_only k (clBackups c) m2" .
  then show ?thesis by (auto simp: c' key intro!: exI [of _ m2] exI [of _ "fmupd k g (clBackupSchedules c)"])
qed


context api_server
begin

lemma template_run_scope: "ensures view c (GameTemplate_Reconcile C k) (\<lambda>_ c'. in_scope (TemplateTurn k) c c')"
  unfolding GameTemplate_Reconcile_def
proof (rule ensures_bind, rule templates.ensures_Get, goal_cases)
  case (1 tpl)
  have put: "in_scope (TemplateTurn k) c (c\<lparr>clGameTemplates := fmupd k t (clGameTemplates c)\<rparr>)" for t
    by (auto intro!: exI)
  show ?case
    unfolding sum.case Let_def
    by (intro ensures_bind [of _ _ "List_objs _ _ _ _"] servers.ensures_List, unfold sum.case)
      (auto simp: 1 cluster_put put simp del: in_scope.simps intro!: ensures_bind [of _ _ "Now _"]
        ensures_bind [of _ _ "StatusUpdate _ _ _"] ensures_Now ensures_return templates.ensures_StatusUpdate [where z = tpl])
qed (simp add: ensures_return del: in_scope.simps)

lemma backup_run_scope:
  assumes "owner_law L"
  shows "in_scope (BackupTurn k) (view (world s)) (cluster_after view (Backup_Reconcile L C k) s)"
proof (cases "fmlookup (clBackups (view (world s))) k")
  case None
  then have "ensures view (view (world s)) (Backup_Reconcile L C k) (\<lambda>_ c'. in_scope (BackupTurn k) (view (world s)) c')"
    unfolding Backup_Reconcile_def
    by (intro ensures_bind [of _ _ "Get _ _ _"] backups.ensures_Get) (auto intro: ensures_return simp del: in_scope.simps)
  then show ?thesis by (rule ensures_after)
next
  case (Some b)
  then have k: "object_key (bMeta b) = k" using backups_keyed [of "world s" k b] by simp
  with Some have "fmlookup (clBackups (view (world s))) (object_key (bMeta b)) = Some b" by simp
  from ensures_after [OF backup_effect [OF assms this]] backup_in_scope [OF k] show ?thesis unfolding k by blast
qed

lemma schedule_run_scope:
  assumes "owner_law L" and "permutes L" and "quiet_clock view injected"
  shows "in_scope (ScheduleTurn k) (view (world s)) (cluster_after view (BackupSchedule_Reconcile L injected C k) s)"
proof (cases "fmlookup (clBackupSchedules (view (world s))) k")
  case None
  then have "ensures view (view (world s)) (BackupSchedule_Reconcile L injected C k)
      (\<lambda>_ c'. in_scope (ScheduleTurn k) (view (world s)) c')"
    unfolding BackupSchedule_Reconcile_def
    by (intro ensures_bind schedule_now_effect [OF assms(3)] schedules.ensures_Get)
      (auto intro: ensures_return simp del: in_scope.simps)
  then show ?thesis by (rule ensures_after)
next
  case (Some bs)
  then have k: "object_key (bsMeta bs) = k" using schedules.keyed [of "world s" k bs] by simp
  with Some have stored: "fmlookup (clBackupSchedules (view (world s))) (object_key (bsMeta bs)) = Some bs" by simp
  have keyed: "keyed_backups (clBackups (view (world s)))" using backups_keyed by blast
  from ensures_after [OF schedule_effect [OF assms keyed stored]] schedule_in_scope [OF assms(2) k keyed]
  show ?thesis unfolding k by blast
qed

end

lemma turn_in_scope:
  assumes "api_server C view" and "owner_law L" and "permutes L" and "turn_step L C view t r c c'"
  shows "in_scope t c c'"
  using assms(4)
proof cases
  case (server run k s)
  with ensures_after [OF api_server.server_run_turn [OF assms(1,2)]] server_in_scope show ?thesis by blast
next
  case (gametemplate run k s)
  with ensures_after [OF api_server.template_run_scope [OF assms(1)]] show ?thesis by blast
next
  case (backup run k s)
  with api_server.backup_run_scope [OF assms(1,2)] show ?thesis by blast
next
  case (schedule run injected k s)
  with api_server.schedule_run_scope [OF assms(1-3)] show ?thesis by blast
qed


lemma turn_ok:
  assumes "api_server C view" and "owner_law L" and "permutes L" and "turn_step L C view t r c c'"
  shows "operator_ok c c'"
  using assms(4)
proof cases
  case (server run k s)
  with ensures_after [OF api_server.server_run_turn [OF assms(1,2)]] server_turn_ok show ?thesis by blast
next
  case (gametemplate run k s)
  with ensures_after [OF api_server.template_run_ok [OF assms(1)]] show ?thesis by blast
next
  case (backup run k s)
  with ensures_after [OF api_server.backup_run_ok [OF assms(1,2)]] show ?thesis by blast
next
  case (schedule run injected k s)
  with ensures_after [OF api_server.schedule_run_ok [OF assms(1-3)]] show ?thesis by blast
qed

section \<open>Servers do not disturb each other\<close>

text \<open>The exposures that the ports of a server resolve to are those of the enum of the CRD.\<close>

definition enum_exposures :: "cluster \<Rightarrow> key \<Rightarrow> bool" where
  "enum_exposures c k =
     (case fmlookup (clGameServers c) k of
        None \<Rightarrow> True
      | Some gs \<Rightarrow> (case fmlookup (clGameTemplates c) ('''', gsTemplateRefName (gsSpec gs)) of
          None \<Rightarrow> True
        | Some tpl \<Rightarrow> list_all (\<lambda>p. fst (resolveExposure gs p) \<in> exposure_types) (tplPorts (tplSpec tpl))))"

definition service_key :: "key \<Rightarrow> string \<Rightarrow> key" where
  "service_key k e = (fst k, snd k @ ''-'' @ ToLower e)"

text \<open>The server of a key, its claim, its Deployment and its Services are as they were.\<close>

definition undisturbed :: "key \<Rightarrow> cluster \<Rightarrow> cluster \<Rightarrow> bool" where
  "undisturbed k c c' \<longleftrightarrow> fmlookup (clGameServers c') k = fmlookup (clGameServers c) k
     \<and> fmlookup (clPVCs c') (claim_key k) = fmlookup (clPVCs c) (claim_key k)
     \<and> fmlookup (clDeployments c') k = fmlookup (clDeployments c) k
     \<and> (\<forall>e \<in> exposure_types. fmlookup (clServices c') (service_key k e) = fmlookup (clServices c) (service_key k e))"

lemma claim_key_inject [simp]: "claim_key j = claim_key k \<longleftrightarrow> j = k"
  by (auto simp: claim_key_def prod_eq_iff)

lemma built_service_key:
  assumes "b \<in> set (BuildServices gs tpl)"
  shows "\<exists>p \<in> set (tplPorts (tplSpec tpl)).     object_key (svcMeta b) = (mNamespace (gsMeta gs), ServiceName gs (fst (resolveExposure gs p)))"
  using assms by (auto simp: BuildServices_eq services_spec_def build_service_def object_key_def)

lemma foreign_service:
  assumes "\<And>gs. fmlookup (clGameServers c) k = Some gs \<Longrightarrow> object_key (gsMeta gs) = k"
    and "enum_exposures c k" and "e \<in> exposure_types" and "j \<noteq> k"
  shows "service_key j e \<notin> service_scope c k"
proof
  assume "service_key j e \<in> service_scope c k"
  then obtain gs tpl b where gs: "fmlookup (clGameServers c) k = Some gs"
    and tpl: "fmlookup (clGameTemplates c) ('''', gsTemplateRefName (gsSpec gs)) = Some tpl"
    and b: "b \<in> set (BuildServices gs tpl)" "service_key j e = object_key (svcMeta b)"
    by (auto simp: service_scope_def own_services_def split: option.splits)
  from built_service_key [OF b(1)] obtain p where p: "p \<in> set (tplPorts (tplSpec tpl))"
    and key: "object_key (svcMeta b) = (mNamespace (gsMeta gs), ServiceName gs (fst (resolveExposure gs p)))" by blast
  let ?g = "gs\<lparr>gsMeta := (gsMeta gs)\<lparr>mName := snd j\<rparr>\<rparr>"
  have "fst (resolveExposure gs p) \<in> exposure_types"
    using assms(2) p by (simp add: enum_exposures_def gs tpl list_all_iff)
  moreover have "ServiceName ?g e = ServiceName gs (fst (resolveExposure gs p))" and ns: "fst j = mNamespace (gsMeta gs)"
    using b(2) key by (simp_all add: service_key_def ServiceName_def)
  ultimately have "snd j = mName (gsMeta gs)" using ServiceName_inject [OF assms(3)] by fastforce
  with ns assms(1) [OF gs] have "j = k" by (auto simp: object_key_def prod_eq_iff)
  with assms(4) show False by simp
qed


lemma turn_state: "turn_step L C view t r c c' \<Longrightarrow> \<exists>w. c = view w"
  by (elim turn_stepE) blast+

text \<open>A server, its claim and its Deployment belong to its own turns alone.\<close>

lemma turn_keeps_server:
  assumes "api_server C view" and "owner_law L" and "permutes L" and "turn_step L C view t r c c'" and "t \<noteq> ServerTurn j"
  shows "fmlookup (clGameServers c') j = fmlookup (clGameServers c) j"
    and "fmlookup (clPVCs c') (claim_key j) = fmlookup (clPVCs c) (claim_key j)"
    and "fmlookup (clDeployments c') j = fmlookup (clDeployments c) j"
  using turn_in_scope [OF assms(1-4)] assms(5) by (cases t; force simp: only_atD)+

lemma turn_undisturbed:
  assumes api: "api_server C view" and law: "owner_law L" and perm: "permutes L" and step: "turn_step L C view t r c c'"
    and other: "t \<noteq> ServerTurn j" and enum: "\<And>k. t = ServerTurn k \<Longrightarrow> enum_exposures c k"
  shows "undisturbed j c c'"
proof (cases t)
  case (ServerTurn k)
  note scope = turn_in_scope [OF api law perm step, unfolded ServerTurn in_scope.simps]
  from turn_state [OF step] obtain w where c: "c = view w" by blast
  have keyed: "object_key (gsMeta gs) = k" if "fmlookup (clGameServers c) k = Some gs" for gs
    using api that unfolding c api_server_def by (blast dest: api_kind.keyed)
  have jk: "j \<noteq> k" using other ServerTurn by simp
  have "service_key j e \<notin> service_scope c k" if "e \<in> exposure_types" for e
    by (rule foreign_service [OF keyed enum [OF ServerTurn] that jk])
  with scope jk show ?thesis
    by (elim exE conjE) (simp add: undisturbed_def only_atD)
qed (use turn_in_scope [OF api law perm step] in \<open>auto simp: undisturbed_def\<close>)

text \<open>C7. Every turn of every reconciler stays in its scope, on every branch: a turn for a GameServer touches
  that server, its claim, its Deployment, the Services its template asks for and the shared account of its
  namespace; a turn for a Backup touches that Backup and its snapshot; one for a template only that template; one
  for a schedule only itself and Backups that are its children. So no turn for anything else disturbs a
  server, and no turn of another server does when the exposures there are those of the enum: with any
  others, the names of two servers' Services could be the same.\<close>

theorem turns_stay_in_scope:
  assumes "api_server C view" and "owner_law L" and "newest_first (SortNewestFirst L)" and "turn_step L C view t r c c'"
  shows "in_scope t c c'
    \<and> (\<forall>j. t \<noteq> ServerTurn j \<and> (\<forall>k. t = ServerTurn k \<longrightarrow> enum_exposures c k) \<longrightarrow> undisturbed j c c')"
  using turn_in_scope [OF assms(1,2) newest_permutes [OF assms(3)] assms(4)]
    turn_undisturbed [OF assms(1,2) newest_permutes [OF assms(3)] assms(4)] by blast

text \<open>The witness: the demo server is deployed while another server waits.\<close>

theorem turns_stay_in_scope_witness:
  "let c' = cluster_after store_view (GameServer_Reconcile demo_lib store_client (''games'', ''midgard''))
       (in_store (add_server asgard demo_cluster))
   in fmlookup (clGameServers c') (''games'', ''asgard'') = Some asgard
     \<and> fmlookup (clPVCs c') (''games'', ''asgard-data'') = None"
proof -
  let ?c = "add_server asgard demo_cluster"
  let ?c' = "cluster_after store_view (GameServer_Reconcile demo_lib store_client (''games'', ''midgard'')) (in_store ?c)"
  have view: "store_view (world (in_store ?c)) = ?c" using in_store_add [of asgard "world demo_start"] by simp
  have "turn_step demo_lib store_client store_view (ServerTurn (''games'', ''midgard''))
      (result (GameServer_Reconcile demo_lib store_client (''games'', ''midgard'')) (in_store ?c)) ?c ?c'"
    using turn_step.server [OF refl, of demo_lib store_client store_view "(''games'', ''midgard'')" "in_store ?c"] view by simp
  note scope = turns_stay_in_scope [OF store.api_server_axioms demo_owner_law demo_newest_first this]
  have "enum_exposures ?c (''games'', ''midgard'')"
    by (simp add: enum_exposures_def add_server_def demo_cluster_def asgard_def object_key_def resolveExposure_def
      exposure_types_def demo_defs)
  with scope have "undisturbed (''games'', ''asgard'') ?c ?c'" by auto
  then show ?thesis
    by (simp add: undisturbed_def Let_def claim_key_def) (simp add: add_server_def demo_cluster_def asgard_def
      object_key_def demo_meta_def zero_meta_def)
qed

end
