(* ===== verification/OperatorProperties.thy ===== *)
theory OperatorProperties
  imports Isolation
begin

text \<open>
  What holds of the operator as a whole: of every turn of its reconcilers, and of every history in which
  they take turns with the users, the scheduler, the storage and the network.
\<close>

section \<open>Histories\<close>

definition operator_run :: "lib \<Rightarrow> 'w client \<Rightarrow> ('w \<Rightarrow> cluster) \<Rightarrow> cluster \<Rightarrow> cluster \<Rightarrow> bool" where
  "operator_run L C view c c' \<longleftrightarrow> (\<exists>t r. turn_step L C view t r c c')"

lemma run_server: "operator_run L C view (view (world s)) (cluster_after view (GameServer_Reconcile L C k) s)"
  unfolding operator_run_def by (blast intro: turn_step.server)

lemma run_schedule:
  "quiet_clock view injected \<Longrightarrow>
   operator_run L C view (view (world s)) (cluster_after view (BackupSchedule_Reconcile L injected C k) s)"
  unfolding operator_run_def by (blast intro: turn_step.schedule)

text \<open>The others: users write and delete custom resources as they like; the storage binds and adds claims
  and snapshots; pods come, go and become ready; Services and accounts change. Nobody edits or deletes a
  claim that exists, or writes a Deployment of his own.\<close>

inductive outside_step :: "cluster \<Rightarrow> cluster \<Rightarrow> bool" where
  users: "outside_step c (c\<lparr>clGameServers := m1, clGameTemplates := m2, clBackups := m3, clBackupSchedules := m4\<rparr>)"
| storage: "grown same_claim (clPVCs c) m \<Longrightarrow> outside_step c (c\<lparr>clPVCs := m, clVolumeSnapshots := m'\<rparr>)"
| pods: "(\<And>k d. fmlookup m k = Some d \<Longrightarrow> \<exists>d0. fmlookup (clDeployments c) k = Some d0 \<and> depSpec d = depSpec d0) \<Longrightarrow>
    outside_step c (c\<lparr>clDeployments := m\<rparr>)"
| network: "outside_step c (c\<lparr>clServices := m, clServiceAccounts := m'\<rparr>)"

definition history :: "lib \<Rightarrow> 'w client \<Rightarrow> ('w \<Rightarrow> cluster) \<Rightarrow> cluster \<Rightarrow> cluster \<Rightarrow> bool" where
  "history L C view = (\<lambda>c c'. operator_run L C view c c' \<or> outside_step c c')\<^sup>*\<^sup>*"

inductive_cases outside_stepE: "outside_step c c'"

lemma operator_run_ok:
  assumes "api_server C view" and "owner_law L" and "permutes L" and "operator_run L C view c c'"
  shows "operator_ok c c'"
  using assms(4) turn_ok [OF assms(1-3)] unfolding operator_run_def by blast

definition all_hardened :: "cluster \<Rightarrow> bool" where
  "all_hardened c \<longleftrightarrow> (\<forall>k d. fmlookup (clDeployments c) k = Some d \<longrightarrow> hardened d)"

text \<open>What one step of anybody keeps.\<close>

lemma step_keeps:
  assumes "operator_ok c c' \<or> outside_step c c'"
  shows "grown same_claim (clPVCs c) (clPVCs c')" and "all_hardened c \<Longrightarrow> all_hardened c'"
proof -
  show "grown same_claim (clPVCs c) (clPVCs c')"
    using assms by (auto simp: operator_ok_def elim!: outside_stepE)
  show "all_hardened c \<Longrightarrow> all_hardened c'"
    using assms
    by (auto simp: operator_ok_def deployments_safe_def all_hardened_def hardened_def elim!: outside_stepE) metis+
qed

section \<open>Properties\<close>

text \<open>C6. Every turn of every reconciler, on every branch, respects what is not the operator's own: the
  specifications of GameServers, GameTemplates and BackupSchedules stay what the users wrote (only their
  status is written, none is created or deleted); nothing is deleted but Backups that belong to a schedule
  and are not retained forever; no snapshot, claim specification or ServiceAccount that exists is changed;
  and every Deployment that is new or changed is hardened.\<close>

theorem operator_respects_ownership:
  assumes "api_server C view" and "owner_law L" and "newest_first (SortNewestFirst L)" and "operator_run L C view c c'"
  shows "operator_ok c c'"
  by (rule operator_run_ok [OF assms(1,2) newest_permutes [OF assms(3)] assms(4)])

theorem operator_respects_ownership_witness:
  "operator_ok kept_cluster (cluster_after store_view
     (BackupSchedule_Reconcile demo_lib None store_client (''games'', ''nightly'')) (in_store kept_cluster))"
proof -
  have "quiet_clock store_view None" by (simp add: quiet_clock_def)
  from run_schedule [OF this, of demo_lib store_client "in_store kept_cluster" "(''games'', ''nightly'')"]
  show ?thesis
    by (intro operator_respects_ownership [OF store.api_server_axioms demo_owner_law demo_newest_first]) simp
qed

text \<open>C8. In every history of turns of the reconcilers and steps of the others, every claim keeps its
  specification (so a world is never replaced or resized by the operator), and if all Deployments are
  hardened in the beginning, they are hardened ever after.\<close>

theorem histories_keep_worlds_hardened:
  assumes "api_server C view" and "owner_law L" and "newest_first (SortNewestFirst L)" and "history L C view c c'"
    and "all_hardened c"
  shows "grown same_claim (clPVCs c) (clPVCs c') \<and> all_hardened c'"
  using assms(4,5) unfolding history_def
proof (induction rule: rtranclp_induct)
  case base
  then show ?case by simp
next
  case (step c1 c2)
  then have step: "operator_ok c1 c2 \<or> outside_step c1 c2"
    using operator_run_ok [OF assms(1,2) newest_permutes [OF assms(3)]] by blast
  have "grown same_claim (clPVCs c) (clPVCs c2)"
    by (rule grown_trans [OF _ _ step_keeps(1) [OF step]]) (use step.IH step.prems in simp_all)
  with step_keeps(2) [OF step] step.IH step.prems show ?case by blast
qed

theorem histories_keep_worlds_hardened_witness:
  "all_hardened (cluster_after store_view (GameServer_Reconcile demo_lib store_client (''games'', ''midgard'')) demo_start)"
proof -
  have "operator_run demo_lib store_client store_view demo_cluster
      (cluster_after store_view (GameServer_Reconcile demo_lib store_client (''games'', ''midgard'')) demo_start)"
    using run_server [of demo_lib store_client store_view demo_start "(''games'', ''midgard'')"] by simp
  then have "history demo_lib store_client store_view demo_cluster
      (cluster_after store_view (GameServer_Reconcile demo_lib store_client (''games'', ''midgard'')) demo_start)"
    unfolding history_def by blast
  moreover have "all_hardened demo_cluster" by (simp add: all_hardened_def demo_cluster_def)
  ultimately show ?thesis
    using histories_keep_worlds_hardened [OF store.api_server_axioms demo_owner_law demo_newest_first] by blast
qed

end
