(* ===== verification/Wiring.thy ===== *)
theory Wiring
  imports GameServerController BackupController ScheduleController TemplateController
begin

text \<open>
  The wiring of the reconcilers, \<open>SetupWithManager\<close> of each of them: the kind it is for, the kinds it owns
  and the kinds it watches through a map function. \<open>enqueued\<close> is not code of the operator: it writes out the
  documented meaning of \<open>For\<close>, \<open>Owns\<close> and \<open>Watches\<close> in controller-runtime, which requests a change of an object
  puts into the queue of a controller. The handler for owned kinds is a parameter.
\<close>

section \<open>Objects as the controllers see them\<close>

definition kind_of :: "object \<Rightarrow> string" where
  "kind_of obj =
     (case obj of
        OGameServer _ \<Rightarrow> ''GameServer'' | OGameTemplate _ \<Rightarrow> ''GameTemplate'' | OBackup _ \<Rightarrow> ''Backup''
      | OBackupSchedule _ \<Rightarrow> ''BackupSchedule'' | OVolumeSnapshot _ \<Rightarrow> ''VolumeSnapshot''
      | OPVC _ \<Rightarrow> ''PersistentVolumeClaim'' | ODeployment _ \<Rightarrow> ''Deployment'' | OService _ \<Rightarrow> ''Service''
      | OServiceAccount _ \<Rightarrow> ''ServiceAccount'')"

definition meta_of :: "object \<Rightarrow> object_meta" where
  "meta_of obj =
     (case obj of
        OGameServer x \<Rightarrow> gsMeta x | OGameTemplate x \<Rightarrow> tplMeta x | OBackup x \<Rightarrow> bMeta x
      | OBackupSchedule x \<Rightarrow> bsMeta x | OVolumeSnapshot x \<Rightarrow> vsMeta x | OPVC x \<Rightarrow> pvcMeta x
      | ODeployment x \<Rightarrow> depMeta x | OService x \<Rightarrow> svcMeta x | OServiceAccount x \<Rightarrow> saMeta x)"

section \<open>Controllers\<close>

datatype map_func = MapTemplateToServers | MapBackupToSchedule | MapServerToTemplate

datatype watch = Owns string | Watches string map_func

record controller =
  ctrlNamed :: string
  ctrlFor :: string
  ctrlWatches :: "watch list"

definition GameServer_SetupWithManager :: controller where
  "GameServer_SetupWithManager = \<lparr>ctrlNamed = ''gameserver'', ctrlFor = ''GameServer'',
     ctrlWatches = [Owns ''Deployment'', Owns ''Service'', Owns ''PersistentVolumeClaim'',
       Watches ''GameTemplate'' MapTemplateToServers]\<rparr>"

definition GameTemplate_SetupWithManager :: controller where
  "GameTemplate_SetupWithManager = \<lparr>ctrlNamed = ''gametemplate'', ctrlFor = ''GameTemplate'',
     ctrlWatches = [Watches ''GameServer'' MapServerToTemplate]\<rparr>"

definition Backup_SetupWithManager :: controller where
  "Backup_SetupWithManager = \<lparr>ctrlNamed = ''backup'', ctrlFor = ''Backup'',
     ctrlWatches = [Owns ''VolumeSnapshot'']\<rparr>"

definition BackupSchedule_SetupWithManager :: controller where
  "BackupSchedule_SetupWithManager = \<lparr>ctrlNamed = ''backupschedule'', ctrlFor = ''BackupSchedule'',
     ctrlWatches = [Owns ''Backup'', Watches ''Backup'' MapBackupToSchedule]\<rparr>"

section \<open>Requests\<close>

definition run_map :: "'w client \<Rightarrow> map_func \<Rightarrow> object \<Rightarrow> ('w, key list) io" where
  "run_map C f obj =
     (case f of
        MapTemplateToServers \<Rightarrow> mapTemplateToServers C obj
      | MapBackupToSchedule \<Rightarrow> return (mapBackupToSchedule obj)
      | MapServerToTemplate \<Rightarrow> return (mapServerToTemplate obj))"

text \<open>The requests of a change of \<open>obj\<close>: \<open>For\<close> asks for the object itself, \<open>Owns\<close> for its controller of the
  controller's kind (the parameter \<open>owners\<close>), \<open>Watches\<close> for what the map function answers.\<close>

fun watch_requests :: "(string \<Rightarrow> object_meta \<Rightarrow> key list) \<Rightarrow> 'w client \<Rightarrow> string \<Rightarrow> watch \<Rightarrow> object
    \<Rightarrow> ('w, key list) io" where
  "watch_requests owners C for (Owns kind) obj =
     return (if kind_of obj = kind then owners for (meta_of obj) else [])"
| "watch_requests owners C for (Watches kind f) obj = (if kind_of obj = kind then run_map C f obj else return [])"

fun watches_requests :: "(string \<Rightarrow> object_meta \<Rightarrow> key list) \<Rightarrow> 'w client \<Rightarrow> string \<Rightarrow> watch list \<Rightarrow> object
    \<Rightarrow> ('w, key list) io" where
  "watches_requests owners C for [] obj = return []"
| "watches_requests owners C for (x # xs) obj = do {
     ks \<leftarrow> watch_requests owners C for x obj;
     ls \<leftarrow> watches_requests owners C for xs obj;
     return (ks @ ls) }"

definition enqueued :: "(string \<Rightarrow> object_meta \<Rightarrow> key list) \<Rightarrow> 'w client \<Rightarrow> controller \<Rightarrow> object \<Rightarrow> ('w, key list) io" where
  "enqueued owners C ctl obj = do {
     ls \<leftarrow> watches_requests owners C (ctrlFor ctl) (ctrlWatches ctl) obj;
     return ((if kind_of obj = ctrlFor ctl then [object_key (meta_of obj)] else []) @ ls) }"

section \<open>Facts\<close>

text \<open>\<open>handler.EnqueueRequestForOwner\<close> with \<open>OnlyControllerOwner\<close>, as documented: the controller of an object
  is asked for if it has the kind, in the object's namespace.\<close>

definition owners_law :: "(string \<Rightarrow> object_meta \<Rightarrow> key list) \<Rightarrow> bool" where
  "owners_law owners \<longleftrightarrow> (\<forall>kind m r. mOwnerReferences m = [r] \<and> orController r \<and> orKind r = kind \<longrightarrow>
     owners kind m = [(mNamespace m, orName r)])"

lemmas setup_defs = GameServer_SetupWithManager_def GameTemplate_SetupWithManager_def Backup_SetupWithManager_def
  BackupSchedule_SetupWithManager_def

lemma result_bind: "result (State_Monad.bind m f) s = result (f (result m s)) (snd (run_state m s))"
  by (simp add: result_def split: prod.split)

lemma result_return [simp]: "result (return a) s = a"
  by (simp add: result_def return_def)

lemma watch_enqueues:
  assumes "Owns (kind_of obj) \<in> set ws" and "k \<in> set (owners for (meta_of obj))"
  shows "k \<in> set (result (watches_requests owners C for ws obj) s)"
  using assms by (induction ws arbitrary: s) (auto simp: result_bind)

lemma owned_enqueues:
  assumes "Owns (kind_of obj) \<in> set (ctrlWatches ctl)" and "k \<in> set (owners (ctrlFor ctl) (meta_of obj))"
  shows "k \<in> set (result (enqueued owners C ctl obj) s)"
  using watch_enqueues [of obj _ k owners "ctrlFor ctl" C s, OF assms] by (simp add: enqueued_def result_bind)

end
