(* ===== verification/GameServerProperties.thy ===== *)
theory GameServerProperties
  imports GameServerDemo
begin

text \<open>
  Properties of a reconcile of a GameServer, for every API client and every world: the posture of the pods
  it creates, the safety of the data, the provenance of what it writes, the restore of a world from a
  Backup, the gates that stop it, and what its status means.
\<close>

section \<open>What a run may write\<close>

text \<open>C2. Every Deployment that a reconcile creates or updates runs hardened: no privilege, no added
  capability, all capabilities dropped, the default seccomp profile, no host namespace and no host path; and
  it runs as the restricted service account and not as root unless the GameTemplate read in that run asks
  for the profile \<open>anyuid\<close>.\<close>
theorem deployments_hardened:
  assumes "EvCreate (ODeployment d) \<in> set (events (GameServer_Reconcile L C req) s)
    \<or> EvUpdate (ODeployment d) \<in> set (events (GameServer_Reconcile L C req) s)"
  shows "\<exists>tpl. reads (OGameTemplate tpl) (events (GameServer_Reconcile L C req) s)
    \<and> (if tplSecurityProfile (tplSpec tpl) = SecurityProfileAnyUID then anyuid_pod else restricted_pod)
        (dsTemplateSpec (depSpec d))"
proof -
  have "\<exists>tpl gs. reads (OGameTemplate tpl) (gs_run L C req s) \<and> depSpec d = depSpec (BuildDeployment L gs tpl)"
    using assms
  proof
    assume "EvCreate (ODeployment d) \<in> set (gs_run L C req s)"
    then show ?thesis by (rule create_justified) (force simp: created_ok_def)
  next
    assume "EvUpdate (ODeployment d) \<in> set (gs_run L C req s)"
    then show ?thesis by (rule update_justified) (force simp: updated_ok_def merge_deployment_def)
  qed
  then show ?thesis using deployment_posture by metis
qed

theorem deployments_hardened_witness:
  "\<exists>tpl. reads (OGameTemplate tpl) (gs_run demo_lib fresh_cluster (''games'', ''midgard'') (at_time 0))
    \<and> (if tplSecurityProfile (tplSpec tpl) = SecurityProfileAnyUID then anyuid_pod else restricted_pod)
        (dsTemplateSpec (depSpec demo_deployment))"
  by (rule deployments_hardened) (use fresh_run [of "(''games'', ''midgard'')" 0] in auto)

text \<open>C1. A reconcile never loses a world: it deletes nothing, and when it updates a claim it changes only
  the labels of a claim it read, so size, class and data source stay, and so do name, UID and owners.\<close>
theorem worlds_are_kept:
  "EvDelete obj \<notin> set (events (GameServer_Reconcile L C req) s)
   \<and> (EvUpdate (OPVC p') \<in> set (events (GameServer_Reconcile L C req) s) \<longrightarrow>
       (\<exists>p. reads (OPVC p) (events (GameServer_Reconcile L C req) s) \<and> pvcSpec p' = pvcSpec p
          \<and> pvcMeta p' = (pvcMeta p)\<lparr>mLabels := mLabels (pvcMeta p')\<rparr>))"
proof (intro conjI impI)
  show "EvDelete obj \<notin> set (gs_run L C req s)" by (rule never_deletes)
  assume "EvUpdate (OPVC p') \<in> set (gs_run L C req s)"
  then show "\<exists>p. reads (OPVC p) (gs_run L C req s) \<and> pvcSpec p' = pvcSpec p
      \<and> pvcMeta p' = (pvcMeta p)\<lparr>mLabels := mLabels (pvcMeta p')\<rparr>"
    by (rule update_justified) (force simp: updated_ok_def reads_def)
qed

theorem worlds_are_kept_witness:
  "\<exists>p. reads (OPVC p) (gs_run demo_lib (running_cluster 1) (''games'', ''midgard'') (at_time 0))
     \<and> pvcSpec (demo_claim None) = pvcSpec p"
  using worlds_are_kept [of undefined demo_lib "running_cluster 1" "(''games'', ''midgard'')" "at_time 0"
      "demo_claim None"] running_run(1) [of "(''games'', ''midgard'')" 0]
  by blast

text \<open>C22. Everything a reconcile creates is one of the objects the builders make for the server and the
  template that this run read, with the metadata \<open>SetControllerReference\<close> answers for it (the shared
  ServiceAccount has no owner), and it creates nothing unless the template accepts the configuration.\<close>
theorem created_from_spec:
  assumes "EvCreate obj \<in> set (events (GameServer_Reconcile L C req) s)"
  shows "\<exists>gs tpl. reads (OGameServer gs) (events (GameServer_Reconcile L C req) s)
    \<and> reads (OGameTemplate tpl) (events (GameServer_Reconcile L C req) s)
    \<and> ValidateConfig L gs tpl = None
    \<and> created_ok L gs tpl (restorable (events (GameServer_Reconcile L C req) s)) obj"
  using assms by (rule create_justified) blast

theorem created_from_spec_witness:
  "\<exists>gs tpl. ValidateConfig demo_lib gs tpl = None
    \<and> created_ok demo_lib gs tpl (restorable (gs_run demo_lib fresh_cluster (''games'', ''midgard'') (at_time 0)))
        (OPVC (demo_claim None))"
proof -
  have "EvCreate (OPVC (demo_claim None)) \<in> set (gs_run demo_lib fresh_cluster (''games'', ''midgard'') (at_time 0))"
    using fresh_run [of "(''games'', ''midgard'')" 0] by auto
  from created_from_spec [OF this] show ?thesis by blast
qed

text \<open>C21. A volume is seeded from a snapshot only for a server that asks for a restore, and only from the
  snapshot of a Backup that this run read as Ready.\<close>
theorem restores_from_ready_backup:
  assumes "EvCreate (OPVC p) \<in> set (events (GameServer_Reconcile L C req) s)"
    and "pvcDataSourceRef (pvcSpec p) = Some r"
  shows "torKind r = ''VolumeSnapshot'' \<and> torAPIGroup r = Some snapshotAPIGroup
    \<and> (\<exists>gs b. reads (OGameServer gs) (events (GameServer_Reconcile L C req) s)
        \<and> gsRestoreFrom (gsSpec gs) \<noteq> None
        \<and> reads (OBackup b) (events (GameServer_Reconcile L C req) s)
        \<and> bPhase (bStatus b) = BackupPhaseReady \<and> torName r = bVolumeSnapshotName (bStatus b))"
proof -
  obtain gs tpl where gs: "reads (OGameServer gs) (gs_run L C req s)"
    and ok: "created_ok L gs tpl (restorable (gs_run L C req s)) (OPVC p)"
    using assms(1) by (rule create_justified)
  from ok obtain qty snap m where p: "p = pvc_of gs qty snap\<lparr>pvcMeta := m\<rparr>"
    and src: "source_ok gs (restorable (gs_run L C req s)) snap"
    unfolding created_ok_def by (auto simp del: GameServerKind_def)
  from p assms(2) obtain sn where "snap = Some sn"
    and r: "r = \<lparr>torAPIGroup = Some snapshotAPIGroup, torKind = ''VolumeSnapshot'', torName = sn\<rparr>"
    by (auto simp: pvc_of_def split: option.splits if_splits)
  with src gs show ?thesis by (auto simp: source_ok_def restorable_def reads_def)
qed

theorem restores_from_ready_backup_witness:
  "\<exists>b. reads (OBackup b) (gs_run demo_lib restoring_cluster (''games'', ''midgard'') (at_time 0))
     \<and> bPhase (bStatus b) = BackupPhaseReady \<and> ''nightly-1'' = bVolumeSnapshotName (bStatus b)"
proof -
  have "pvcDataSourceRef (pvcSpec (pvc_of restoring_server ''20Gi'' (Some ''nightly-1'')\<lparr>pvcMeta := m\<rparr>)) =
      Some \<lparr>torAPIGroup = Some snapshotAPIGroup, torKind = ''VolumeSnapshot'', torName = ''nightly-1''\<rparr>" for m
    by (simp add: pvc_of_def)
  from restores_from_ready_backup [OF restoring_run this] show ?thesis by auto
qed

text \<open>The Deployment follows the server: a suspended server gets no replica and any other exactly one,
  which mounts the claim of that server.\<close>
theorem replicas_follow_suspend:
  assumes "EvCreate (ODeployment d) \<in> set (events (GameServer_Reconcile L C req) s)
    \<or> EvUpdate (ODeployment d) \<in> set (events (GameServer_Reconcile L C req) s)"
  shows "\<exists>gs. reads (OGameServer gs) (events (GameServer_Reconcile L C req) s)
    \<and> dsReplicas (depSpec d) = Some (if gsSuspend (gsSpec gs) then 0 else 1)
    \<and> map volSource (psVolumes (dsTemplateSpec (depSpec d))) = [PersistentVolumeClaim (PVCName gs)]
    \<and> list_all (\<lambda>c. set (map vmName (ctVolumeMounts c)) \<subseteq> set (map volName (psVolumes (dsTemplateSpec (depSpec d)))))
        (psContainers (dsTemplateSpec (depSpec d)))"
proof -
  have "\<exists>tpl gs. reads (OGameServer gs) (gs_run L C req s) \<and> depSpec d = depSpec (BuildDeployment L gs tpl)"
    using assms
  proof
    assume "EvCreate (ODeployment d) \<in> set (gs_run L C req s)"
    then show ?thesis by (rule create_justified) (force simp: created_ok_def)
  next
    assume "EvUpdate (ODeployment d) \<in> set (gs_run L C req s)"
    then show ?thesis by (rule update_justified) (force simp: updated_ok_def merge_deployment_def)
  qed
  then obtain tpl gs where gs: "reads (OGameServer gs) (gs_run L C req s)"
    and d: "depSpec d = depSpec (BuildDeployment L gs tpl)" by blast
  have "vmName ` set (ctVolumeMounts (game_container L gs tpl)) = {dataVolumeName}"
    using arg_cong [OF game_container_simps(5) [of L gs tpl], of set] by simp
  then show ?thesis
    by (intro exI [of _ gs]) (simp add: gs d builder_simps)
qed

theorem replicas_follow_suspend_witness:
  "\<exists>gs. reads (OGameServer gs) (gs_run demo_lib fresh_cluster (''games'', ''midgard'') (at_time 0))
    \<and> dsReplicas (depSpec demo_deployment) = Some (if gsSuspend (gsSpec gs) then 0 else 1)"
proof -
  have "EvCreate (ODeployment demo_deployment) \<in>
      set (gs_run demo_lib fresh_cluster (''games'', ''midgard'') (at_time 0))"
    using fresh_run [of "(''games'', ''midgard'')" 0] by auto
  then show ?thesis using replicas_follow_suspend by blast
qed

section \<open>What the status means\<close>

text \<open>C24. A reconcile reports the phase Ready only for a server that is not suspended and whose Deployment it
  read with a ready replica, and then the condition Ready is True; the one other case is a run that reports
  an invalid storage size, which leaves the phase as it was.\<close>
theorem ready_is_observed:
  assumes "EvUpdateStatus (OGameServer g) \<in> set (events (GameServer_Reconcile L C req) s)"
    and "gsPhase (gsStatus g) = PhaseReady"
  shows "(\<exists>d. reads (ODeployment d) (events (GameServer_Reconcile L C req) s)
        \<and> sint (depReadyReplicas d) \<ge> 1 \<and> gsReadyReplicas (gsStatus g) = depReadyReplicas d
        \<and> \<not> gsSuspend (gsSpec g)
        \<and> map_option cStatus (find_cond ConditionReady (gsConditions (gsStatus g))) = Some ConditionTrue)
    \<or> map_option cReason (find_cond ConditionConfigValid (gsConditions (gsStatus g))) = Some ''InvalidStorage''"
  using assms(1)
proof (cases rule: status_justified)
  case (observed g0 gs tpl d now svcs)
  from assms(2) observed(4) have ready: "\<not> gsSuspend (gsSpec g0)" "sint (depReadyReplicas d) \<ge> 1"
    by (auto simp: observed_phase_def PhaseReady_def PhaseStopped_def PhaseProvisioning_def split: if_splits)
  then have g: "g = setCondition now (set_phase (observed_phase g0 d) (status_of g0 tpl d svcs))
      ConditionReady ConditionTrue ''PodReady'' ''pod is Ready''"
    by (simp add: observed(4) final_status_def)
  have "gsReadyReplicas (gsStatus g) = depReadyReplicas d" "gsSpec g = gsSpec g0"
    by (simp_all add: g set_phase_def status_of_def)
  moreover have "map_option cStatus (find_cond ConditionReady (gsConditions (gsStatus g))) = Some ConditionTrue"
    unfolding g by (rule gs_cond.status_set) simp
  ultimately show ?thesis using ready observed(3) by auto
next
  case failed
  with assms(2) show ?thesis by (simp add: PhaseReady_def PhaseDegraded_def PhasePending_def)
next
  case (storage g0 now msg)
  have "map_option cReason (find_cond ConditionConfigValid (gsConditions (gsStatus g))) = Some ''InvalidStorage''"
    unfolding storage by (simp add: gs_cond.lookup_set updated_condition_def)
  then show ?thesis by simp
qed

theorem ready_is_observed_witness:
  "\<exists>g. EvUpdateStatus (OGameServer g) \<in> set (gs_run demo_lib (running_cluster 1) (''games'', ''midgard'') (at_time 0))
     \<and> ((\<exists>d :: deployment. sint (depReadyReplicas d) \<ge> 1 \<and> gsReadyReplicas (gsStatus g) = depReadyReplicas d)
        \<or> map_option cReason (find_cond ConditionConfigValid (gsConditions (gsStatus g))) = Some ''InvalidStorage'')"
proof -
  obtain g where g: "EvUpdateStatus (OGameServer g) \<in>
      set (gs_run demo_lib (running_cluster 1) (''games'', ''midgard'') (at_time 0))" "gsPhase (gsStatus g) = PhaseReady"
    using running_run(2) by blast
  from ready_is_observed [OF g] g(1) show ?thesis by blast
qed

section \<open>The gates\<close>

text \<open>While the referenced template does not exist a reconcile touches no child: it reports Pending with
  TemplateResolved False, leaves every other condition as it was, and asks to run again in 30 seconds.\<close>
theorem missing_template_waits:
  assumes "opGet (GameServers C) req (world s) = (Inr gs, w1)"
    and "opGet (GameTemplates C) ('''', gsTemplateRefName (gsSpec gs)) w1 = (Inl err, w2)" and "IsNotFound err"
  shows "result (GameServer_Reconcile L C req) s = (Result (30 * Second), None)
    \<and> (\<exists>g. events (GameServer_Reconcile L C req) s = [EvRead (OGameServer gs), EvUpdateStatus (OGameServer g)]
        \<and> same_object g gs \<and> gsPhase (gsStatus g) = PhasePending
        \<and> map_option cStatus (find_cond ConditionTemplateResolved (gsConditions (gsStatus g))) = Some ConditionFalse
        \<and> (\<forall>t. t \<noteq> ConditionTemplateResolved \<longrightarrow>
             find_cond t (gsConditions (gsStatus g)) = find_cond t (gsConditions (gsStatus gs))))"
proof -
  obtain now w3 where clock: "Clock C w2 = (now, w3)" by (cases "Clock C w2")
  obtain r w4 where upd: "opStatusUpdate (GameServers C) (template_missing now gs) w3 = (r, w4)"
    by (cases "opStatusUpdate (GameServers C) (template_missing now gs) w3")
  have run: "run_state (GameServer_Reconcile L C req) s = ((Result (30 * Second), None),
      s\<lparr>world := w4, trace := trace s @ [EvRead (OGameServer gs),
         EvUpdateStatus (OGameServer (template_missing now gs))]\<rparr>)"
    using assms clock upd unfolding template_missing_def
    by (simp add: GameServer_Reconcile_def Get_def report_failure_def set_condition_now_def Now_def
        updateStatus_def StatusUpdate_def call_obj_def emit_def return_def)
  show ?thesis
    by (intro conjI exI [of _ "template_missing now gs"])
      (simp_all add: run result_def events_def template_missing_def gs_cond.lookup_other gs_cond.status_set
        del: ConditionTemplateResolved_def)
qed

theorem missing_template_waits_witness:
  "result (GameServer_Reconcile demo_lib (demo_client (Some demo_server) None None [] None None None None None)
     (''games'', ''midgard'')) (at_time 0) = (Result (30 * Second), None)"
proof -
  let ?C = "demo_client (Some demo_server) None None [] None None None None None"
  let ?err = "GoError NotFound ''not found''"
  have "opGet (GameServers ?C) (''games'', ''midgard'') (world (at_time 0)) = (Inr demo_server, 0)"
    and "opGet (GameTemplates ?C) ('''', gsTemplateRefName (gsSpec demo_server)) 0 = (Inl ?err, 0)"
    and "IsNotFound ?err"
    by (simp_all add: static_ops_def IsNotFound_def)
  from missing_template_waits [OF this] show ?thesis by blast
qed

text \<open>A server whose configuration its template rejects is left alone: the run writes no child, only the
  status, with phase Degraded and ConfigValid False, and asks to run again in 30 seconds. Whether it is
  rejected does not depend on the order in which Go iterates over the configuration.\<close>
theorem invalid_config_is_gated:
  assumes "map_order (MapOrder L)" and "\<not> config_ok gs tpl"
    and "opGet (GameServers C) req (world s) = (Inr gs, w1)"
    and "opGet (GameTemplates C) ('''', gsTemplateRefName (gsSpec gs)) w1 = (Inr tpl, w2)"
  shows "result (GameServer_Reconcile L C req) s = (Result (30 * Second), None)
    \<and> (\<exists>g. events (GameServer_Reconcile L C req) s =
           [EvRead (OGameServer gs), EvRead (OGameTemplate tpl), EvUpdateStatus (OGameServer g)]
        \<and> same_object g gs \<and> gsPhase (gsStatus g) = PhaseDegraded
        \<and> map_option cStatus (find_cond ConditionConfigValid (gsConditions (gsStatus g))) = Some ConditionFalse)"
proof -
  obtain err where err: "ValidateConfig L gs tpl = Some err"
    using ValidateConfig_None [OF assms(1), of gs tpl] assms(2) by (cases "ValidateConfig L gs tpl") auto
  obtain now w3 where clock: "Clock C w2 = (now, w3)" by (cases "Clock C w2")
  obtain now' w4 where clock': "Clock C w3 = (now', w4)" by (cases "Clock C w3")
  obtain r w5 where upd: "opStatusUpdate (GameServers C) (rejected now now' gs err) w4 = (r, w5)"
    by (cases "opStatusUpdate (GameServers C) (rejected now now' gs err) w4")
  have run: "run_state (GameServer_Reconcile L C req) s = ((Result (30 * Second), None),
      s\<lparr>world := w5, trace := trace s @ [EvRead (OGameServer gs), EvRead (OGameTemplate tpl),
         EvUpdateStatus (OGameServer (rejected now now' gs err))]\<rparr>)"
    using assms(3,4) clock clock' upd err unfolding rejected_def
    by (simp add: GameServer_Reconcile_def Get_def reconcile_resolved_def report_failure_def set_condition_now_def
        Now_def updateStatus_def StatusUpdate_def call_obj_def emit_def return_def)
  show ?thesis
    by (intro conjI exI [of _ "rejected now now' gs err"])
      (simp_all add: run result_def events_def rejected_def gs_cond.status_set del: ConditionConfigValid_def)
qed

definition misconfigured_server :: game_server where
  "misconfigured_server = demo_server\<lparr>gsSpec := demo_spec\<lparr>gsConfig := fmupd ''maxPlayers'' ''many'' fmempty\<rparr>\<rparr>"

theorem invalid_config_is_gated_witness:
  "result (GameServer_Reconcile demo_lib
     (demo_client (Some misconfigured_server) (Some demo_template) None [] None None None None None)
     (''games'', ''midgard'')) (at_time 0) = (Result (30 * Second), None)"
proof -
  have "Atoi ''many'' = None" by code_simp
  then have "\<not> config_ok misconfigured_server demo_template"
    by (simp add: config_ok_def misconfigured_server_def demo_defs fmpred_upd_fresh declared_key_def value_ok_def)
  then show ?thesis
    by (intro invalid_config_is_gated [THEN conjunct1]) (simp_all add: static_ops_def)
qed

section \<open>The watches\<close>

text \<open>A change of a template enqueues exactly the servers that reference it, each once per listed object,
  and the two watches agree: a server is enqueued by the template that its own change enqueues.\<close>
theorem template_change_reaches_servers:
  assumes "opList (GameServers C) None fmempty (world s) = (Inr items, w)" and "mName (tplMeta tpl) \<noteq> ''''"
  shows "result (mapTemplateToServers C (OGameTemplate tpl)) s =
      map (\<lambda>gs. object_key (gsMeta gs))
        (filter (\<lambda>gs. mapServerToTemplate (OGameServer gs) = [('''', mName (tplMeta tpl))]) items)"
  using assms
  by (auto simp: result_def mapTemplateToServers_def List_objs_def return_def mapServerToTemplate_def
      intro!: arg_cong [of _ _ "map _"] filter_cong)

theorem template_change_reaches_servers_witness:
  "result (mapTemplateToServers fresh_cluster (OGameTemplate demo_template)) (at_time 0) = [(''games'', ''midgard'')]"
proof -
  have "opList (GameServers fresh_cluster) None fmempty (world (at_time 0)) = (Inr [demo_server], 0)"
    by (simp add: fresh_cluster_def static_ops_def)
  from template_change_reaches_servers [OF this, of demo_template] show ?thesis
    by (simp add: mapServerToTemplate_def object_key_def demo_defs)
qed

end
