(* ===== verification/WiringProperties.thy ===== *)
theory WiringProperties
  imports Wiring GameServerProperties BackupProperties ScheduleProperties Convergence
begin

text \<open>
  The loops are closed: a change of a child that a reconciler created wakes the reconciler for the very
  object that the child was created for.
\<close>

declare BackupScheduleKind_def [simp del] BackupKind_def [simp del] GameServerKind_def [simp del]

lemma owner_enqueued:
  assumes "owner_law L" and "owners_law owners"
    and "SetControllerReference L (kind, owner) m = Inr m'" and "mOwnerReferences m = []"
    and "mNamespace m = mNamespace owner"
  shows "object_key owner \<in> set (owners kind m')"
proof -
  from assms(1,3-5) have m': "object_key m' = object_key m"
    "mOwnerReferences m' = [\<lparr>orKind = kind, orName = mName owner, orUID = mUID owner, orController = True\<rparr>]"
    unfolding owner_law_def by (metis sum.inject(2))+
  let ?r = "\<lparr>orKind = kind, orName = mName owner, orUID = mUID owner, orController = True\<rparr>"
  have "owners (orKind ?r) m' = [(mNamespace m', orName ?r)]"
    using assms(2) unfolding owners_law_def by (elim allE [where x = kind] allE [where x = m'] allE [where x = ?r]) (simp add: m'(2))
  then have "owners kind m' = [(mNamespace m', mName owner)]" by simp
  moreover have "mNamespace m' = mNamespace owner" using m'(1) assms(5) by (simp add: object_key_def)
  ultimately show ?thesis by (simp add: object_key_def)
qed

lemma child_wakes:
  assumes "owner_law L" and "owners_law owners" and "Owns (kind_of obj) \<in> set (ctrlWatches ctl)"
    and "SetControllerReference L (ctrlFor ctl, owner) m = Inr (meta_of obj)"
    and "mOwnerReferences m = []" and "mNamespace m = mNamespace owner"
  shows "object_key owner \<in> set (result (enqueued owners C ctl obj) s)"
  by (rule owned_enqueues [OF assms(3)]) (rule owner_enqueued [OF assms(1,2,4-6)])

lemma server_child_wakes:
  assumes "owner_law L" and "owners_law owners" and "created_ok L gs tpl snaps obj" and "kind_of obj \<noteq> ''ServiceAccount''"
  shows "object_key (gsMeta gs) \<in> set (result (enqueued owners C GameServer_SetupWithManager obj) s)"
proof -
  have wakes: "object_key (gsMeta gs) \<in> set (result (enqueued owners C GameServer_SetupWithManager obj) s)"
    if "kind_of obj \<in> {''PersistentVolumeClaim'', ''Deployment'', ''Service''}"
      "SetControllerReference L (GameServerKind, gsMeta gs) m = Inr (meta_of obj)"
      "mOwnerReferences m = []" "mNamespace m = mNamespace (gsMeta gs)" for m obj
    by (rule child_wakes [OF assms(1,2), where m = m]) (use that in \<open>auto simp: setup_defs GameServerKind_def\<close>)
  show ?thesis
    using assms(3,4) built_metas built_service_metas
    by (cases obj) (auto simp: created_ok_def kind_of_def meta_of_def intro!: wakes)
qed

text \<open>C38. The watches close the loops: when an object that a reconciler created changes (the shared
  ServiceAccount has no owner and is not watched), the queue of that reconciler gets a request for the very
  object that the child was created for.\<close>

theorem children_wake_their_owner:
  assumes "owner_law L" and "owners_law owners"
  shows "(EvCreate obj \<in> set (events (GameServer_Reconcile L C req) s) \<and> kind_of obj \<noteq> ''ServiceAccount'' \<longrightarrow>
      (\<exists>gs. reads (OGameServer gs) (events (GameServer_Reconcile L C req) s)
        \<and> object_key (gsMeta gs) \<in> set (result (enqueued owners C GameServer_SetupWithManager obj) s')))
    \<and> (EvCreate obj \<in> set (events (Backup_Reconcile L C req) s) \<longrightarrow>
      (\<exists>b. reads (OBackup b) (events (Backup_Reconcile L C req) s)
        \<and> object_key (bMeta b) \<in> set (result (enqueued owners C Backup_SetupWithManager obj) s')))
    \<and> (EvCreate obj \<in> set (events (BackupSchedule_Reconcile L injected C req) s) \<longrightarrow>
      (\<exists>bs. reads (OBackupSchedule bs) (events (BackupSchedule_Reconcile L injected C req) s)
        \<and> object_key (bsMeta bs) \<in> set (result (enqueued owners C BackupSchedule_SetupWithManager obj) s')))"
proof (intro conjI impI)
  assume "EvCreate obj \<in> set (events (GameServer_Reconcile L C req) s) \<and> kind_of obj \<noteq> ''ServiceAccount''"
  then show "\<exists>gs. reads (OGameServer gs) (events (GameServer_Reconcile L C req) s)
      \<and> object_key (gsMeta gs) \<in> set (result (enqueued owners C GameServer_SetupWithManager obj) s')"
    by (elim conjE, elim create_justified) (blast intro: server_child_wakes [OF assms])
next
  assume "EvCreate obj \<in> set (events (Backup_Reconcile L C req) s)"
  then obtain b gs vs where "obj = OVolumeSnapshot vs" and built: "built_snapshot L b gs vs"
    and b: "reads (OBackup b) (events (Backup_Reconcile L C req) s)"
    using backup_shape_events [of L C req s] unfolding backup_shape_def
    by (elim disjE exE conjE) (auto simp: reads_def)
  from built obtain m where m: "SetControllerReference L (BackupKind, bMeta b) (vsMeta (BuildVolumeSnapshot b gs)) = Inr m"
    and vs: "vs = BuildVolumeSnapshot b gs\<lparr>vsMeta := m\<rparr>"
    unfolding built_snapshot_def by blast
  have "object_key (bMeta b) \<in> set (result (enqueued owners C Backup_SetupWithManager obj) s')"
    by (rule child_wakes [OF assms, where m = "vsMeta (BuildVolumeSnapshot b gs)"])
      (use m in \<open>simp_all add: \<open>obj = OVolumeSnapshot vs\<close> vs setup_defs kind_of_def meta_of_def BackupKind_def
        BuildVolumeSnapshot_def Let_def\<close>)
  with b show "\<exists>b. reads (OBackup b) (events (Backup_Reconcile L C req) s)
      \<and> object_key (bMeta b) \<in> set (result (enqueued owners C Backup_SetupWithManager obj) s')" by blast
next
  assume "EvCreate obj \<in> set (events (BackupSchedule_Reconcile L injected C req) s)"
  from create_form [OF schedule_shape_events this] obtain bs now sched loc m fin
    where es: "events (BackupSchedule_Reconcile L injected C req) s = EvRead (OBackupSchedule bs) # EvCreate obj # fin"
    and obj: "obj = OBackup (scheduled_backup bs (next_fire L now sched loc bs)\<lparr>bMeta := m\<rparr>)"
    and m: "SetControllerReference L (BackupScheduleKind, bsMeta bs)
        (bMeta (scheduled_backup bs (next_fire L now sched loc bs))) = Inr m" by blast
  have "object_key (bsMeta bs) \<in> set (result (enqueued owners C BackupSchedule_SetupWithManager obj) s')"
    by (rule child_wakes [OF assms, where m = "bMeta (scheduled_backup bs (next_fire L now sched loc bs))"])
      (use m in \<open>simp_all add: obj setup_defs kind_of_def meta_of_def BackupScheduleKind_def scheduled_backup_def\<close>)
  moreover have "reads (OBackupSchedule bs) (events (BackupSchedule_Reconcile L injected C req) s)"
    by (simp add: es reads_def)
  ultimately show "\<exists>bs. reads (OBackupSchedule bs) (events (BackupSchedule_Reconcile L injected C req) s)
      \<and> object_key (bsMeta bs) \<in> set (result (enqueued owners C BackupSchedule_SetupWithManager obj) s')" by blast
qed

text \<open>The handler as it is documented.\<close>

definition demo_owners :: "string \<Rightarrow> object_meta \<Rightarrow> key list" where
  "demo_owners kind m = map (\<lambda>r. (mNamespace m, orName r)) (filter (\<lambda>r. orController r \<and> orKind r = kind) (mOwnerReferences m))"

lemma demo_owners_law: "owners_law demo_owners"
  by (simp add: owners_law_def demo_owners_def)

theorem children_wake_their_owner_witness:
  "\<exists>gs. reads (OGameServer gs) (gs_run demo_lib fresh_cluster (''games'', ''midgard'') (at_time 0))
     \<and> object_key (gsMeta gs) \<in> set (result (enqueued demo_owners fresh_cluster GameServer_SetupWithManager
          (ODeployment demo_deployment)) (at_time 1))"
proof -
  have "owner_law demo_lib" by (auto simp: owner_law_def object_key_def)
  moreover have "EvCreate (ODeployment demo_deployment) \<in>
      set (gs_run demo_lib fresh_cluster (''games'', ''midgard'') (at_time 0))"
    using fresh_run [of "(''games'', ''midgard'')" 0] by auto
  moreover have "kind_of (ODeployment demo_deployment) \<noteq> ''ServiceAccount''" by (simp add: kind_of_def)
  ultimately show ?thesis
    by (intro children_wake_their_owner [THEN conjunct1, rule_format, OF _ demo_owners_law] conjI)
qed

end
