(* ===== verification/Manager.thy ===== *)
theory Manager
  imports Wiring
begin

text \<open>
  \<open>cmd/main.go\<close>: the flags and their defaults, what \<open>flag.Parse\<close> makes of the arguments, the TLS and server
  options of the manager, and the start-up calls, each with the exit that follows when it fails. The calls go to controller-runtime, a parameter; \<open>zap\<close>'s flags, which \<open>BindFlags\<close> adds,
  are another.
\<close>

section \<open>Flags\<close>

record flags =
  metricsAddr :: string
  probeAddr :: string
  enableLeaderElection :: bool
  secureMetrics :: bool
  webhookCertPath :: string
  webhookCertName :: string
  webhookCertKey :: string
  metricsCertPath :: string
  metricsCertName :: string
  metricsCertKey :: string
  enableHTTP2 :: bool

definition default_flags :: flags where
  "default_flags = \<lparr>metricsAddr = ''0'', probeAddr = '':8081'', enableLeaderElection = False, secureMetrics = True,
     webhookCertPath = '''', webhookCertName = ''tls.crt'', webhookCertKey = ''tls.key'',
     metricsCertPath = '''', metricsCertName = ''tls.crt'', metricsCertKey = ''tls.key'', enableHTTP2 = False\<rparr>"

datatype flag_var = StringVar "string \<Rightarrow> flags \<Rightarrow> flags" | BoolVar "bool \<Rightarrow> flags \<Rightarrow> flags"

definition flag_table :: "(string \<times> flag_var) list" where
  "flag_table =
     [(''metrics-bind-address'', StringVar (\<lambda>v f. f\<lparr>metricsAddr := v\<rparr>)),
      (''health-probe-bind-address'', StringVar (\<lambda>v f. f\<lparr>probeAddr := v\<rparr>)),
      (''leader-elect'', BoolVar (\<lambda>v f. f\<lparr>enableLeaderElection := v\<rparr>)),
      (''metrics-secure'', BoolVar (\<lambda>v f. f\<lparr>secureMetrics := v\<rparr>)),
      (''webhook-cert-path'', StringVar (\<lambda>v f. f\<lparr>webhookCertPath := v\<rparr>)),
      (''webhook-cert-name'', StringVar (\<lambda>v f. f\<lparr>webhookCertName := v\<rparr>)),
      (''webhook-cert-key'', StringVar (\<lambda>v f. f\<lparr>webhookCertKey := v\<rparr>)),
      (''metrics-cert-path'', StringVar (\<lambda>v f. f\<lparr>metricsCertPath := v\<rparr>)),
      (''metrics-cert-name'', StringVar (\<lambda>v f. f\<lparr>metricsCertName := v\<rparr>)),
      (''metrics-cert-key'', StringVar (\<lambda>v f. f\<lparr>metricsCertKey := v\<rparr>)),
      (''enable-http2'', BoolVar (\<lambda>v f. f\<lparr>enableHTTP2 := v\<rparr>))]"

text \<open>\<open>strconv.ParseBool\<close>.\<close>

definition ParseBool :: "string \<Rightarrow> bool option" where
  "ParseBool s =
     (if s \<in> {''1'', ''t'', ''T'', ''true'', ''TRUE'', ''True''} then Some True
      else if s \<in> {''0'', ''f'', ''F'', ''false'', ''FALSE'', ''False''} then Some False
      else None)"

text \<open>Of \<open>zap\<close>'s flags: whether a name is one, and then whether it is a boolean flag, and whether it accepts a
  value.\<close>

record zap =
  zapIsBool :: "string \<Rightarrow> bool option"
  zapSet :: "string \<Rightarrow> string \<Rightarrow> bool"

definition is_bool_flag :: "zap \<Rightarrow> string \<Rightarrow> bool option" where
  "is_bool_flag Z name =
     (case map_of flag_table name of
        Some (StringVar _) \<Rightarrow> Some False
      | Some (BoolVar _) \<Rightarrow> Some True
      | None \<Rightarrow> zapIsBool Z name)"

definition set_flag :: "zap \<Rightarrow> string \<Rightarrow> string \<Rightarrow> flags \<Rightarrow> flags option" where
  "set_flag Z name v f =
     (case map_of flag_table name of
        Some (StringVar upd) \<Rightarrow> Some (upd v f)
      | Some (BoolVar upd) \<Rightarrow> map_option (\<lambda>b. upd b f) (ParseBool v)
      | None \<Rightarrow> if zapSet Z name v then Some f else None)"

text \<open>What follows the one or two dashes.\<close>

definition undashed :: "string \<Rightarrow> string" where
  "undashed s = (if s ! 1 = CHR ''-'' then drop 2 s else drop 1 s)"

text \<open>\<open>-name=value\<close>: the value is what follows the first equals sign after the first character.\<close>

definition split_flag :: "string \<Rightarrow> string \<times> string option" where
  "split_flag name =
     (let n = takeWhile (\<lambda>c. c \<noteq> CHR ''='') (tl name); rest = dropWhile (\<lambda>c. c \<noteq> CHR ''='') (tl name)
      in (hd name # n, if rest = [] then None else Some (tl rest)))"

text \<open>\<open>flag.Parse\<close>, with the status the process ends with when it fails: 0 when help is asked for, 2 for a
  bad flag.\<close>

fun parse_flags :: "zap \<Rightarrow> flags \<Rightarrow> string list \<Rightarrow> nat + flags" where
  "parse_flags Z f [] = Inr f"
| "parse_flags Z f (s # args) =
     (if length s < 2 \<or> hd s \<noteq> CHR ''-'' then Inr f
      else if s = ''--'' then Inr f
      else (let name = undashed s in
        if name = [] \<or> hd name = CHR ''-'' \<or> hd name = CHR ''='' then Inl 2
        else (case split_flag name of (n, v) \<Rightarrow>
          (case is_bool_flag Z n of
             None \<Rightarrow> Inl (if n = ''help'' \<or> n = ''h'' then 0 else 2)
           | Some True \<Rightarrow>
               (case set_flag Z n (case v of Some x \<Rightarrow> x | None \<Rightarrow> ''true'') f of
                  None \<Rightarrow> Inl 2 | Some f' \<Rightarrow> parse_flags Z f' args)
           | Some False \<Rightarrow>
               (case v of
                  Some x \<Rightarrow> (case set_flag Z n x f of None \<Rightarrow> Inl 2 | Some f' \<Rightarrow> parse_flags Z f' args)
                | None \<Rightarrow>
                    (case args of
                       [] \<Rightarrow> Inl 2
                     | x # args' \<Rightarrow>
                         (case set_flag Z n x f of None \<Rightarrow> Inl 2 | Some f' \<Rightarrow> parse_flags Z f' args')))))))"

section \<open>Options\<close>

record tls_config =
  NextProtos :: "string list"

definition disableHTTP2 :: "tls_config \<Rightarrow> tls_config" where
  "disableHTTP2 c = c\<lparr>NextProtos := [''http/1.1'']\<rparr>"

record server_options =
  soBindAddress :: string
  soSecureServing :: bool
  soTLSOpts :: "(tls_config \<Rightarrow> tls_config) list"
  soFilterProvider :: bool
  soCertDir :: string
  soCertName :: string
  soKeyName :: string

definition no_options :: server_options where
  "no_options = \<lparr>soBindAddress = '''', soSecureServing = False, soTLSOpts = [], soFilterProvider = False,
     soCertDir = '''', soCertName = '''', soKeyName = ''''\<rparr>"

record manager_options =
  moMetrics :: server_options
  moWebhook :: server_options
  moHealthProbeBindAddress :: string
  moLeaderElection :: bool
  moLeaderElectionID :: string

definition tls_opts :: "flags \<Rightarrow> (tls_config \<Rightarrow> tls_config) list" where
  "tls_opts f = (if \<not> enableHTTP2 f then [] @ [disableHTTP2] else [])"

definition webhook_options :: "flags \<Rightarrow> server_options" where
  "webhook_options f =
     (let opts = no_options\<lparr>soTLSOpts := tls_opts f\<rparr> in
      if length (webhookCertPath f) > 0 then
        opts\<lparr>soCertDir := webhookCertPath f, soCertName := webhookCertName f, soKeyName := webhookCertKey f\<rparr>
      else opts)"

definition metrics_options :: "flags \<Rightarrow> server_options" where
  "metrics_options f =
     (let opts = no_options\<lparr>soBindAddress := metricsAddr f, soSecureServing := secureMetrics f, soTLSOpts := tls_opts f\<rparr>;
          opts = (if secureMetrics f then opts\<lparr>soFilterProvider := True\<rparr> else opts)
      in if length (metricsCertPath f) > 0 then
           opts\<lparr>soCertDir := metricsCertPath f, soCertName := metricsCertName f, soKeyName := metricsCertKey f\<rparr>
         else opts)"

definition manager_options_of :: "flags \<Rightarrow> manager_options" where
  "manager_options_of f = \<lparr>moMetrics = metrics_options f, moWebhook = webhook_options f,
     moHealthProbeBindAddress = probeAddr f, moLeaderElection = enableLeaderElection f,
     moLeaderElectionID = ''fb5bdb79.feddern.dev''\<rparr>"

section \<open>Start-up\<close>

text \<open>The registration of a validating webhook: the kind, and whether the validator holds the client.\<close>

record webhook =
  whFor :: string
  whHasClient :: bool

definition SetupGameServerWebhookWithManager :: webhook where
  "SetupGameServerWebhookWithManager = \<lparr>whFor = ''GameServer'', whHasClient = True\<rparr>"

definition SetupGameTemplateWebhookWithManager :: webhook where
  "SetupGameTemplateWebhookWithManager = \<lparr>whFor = ''GameTemplate'', whHasClient = False\<rparr>"

text \<open>The group and version that the operator's own types are registered under.\<close>

definition SchemeGroupVersion :: "string \<times> string" where
  "SchemeGroupVersion = (''gameserver.feddern.dev'', ''v1alpha1'')"

text \<open>The calls of \<open>init\<close> and \<open>main\<close>: types are added to the scheme, the manager is made, controllers and
  webhooks are registered, checks are added, and the manager runs until it is stopped.\<close>

datatype startup_call =
    AddToScheme string | GetConfigOrDie | NewManager manager_options
  | SetupController controller | SetupWebhook webhook
  | AddHealthzCheck string | AddReadyzCheck string | StartManager

text \<open>The process: what is outside it, and the calls it made, each with whether it succeeded.\<close>

type_synonym 'm runtime = "startup_call \<Rightarrow> 'm \<Rightarrow> bool \<times> 'm"

record 'm process =
  outside :: 'm
  callLog :: "(startup_call \<times> bool) list"

definition call :: "'m runtime \<Rightarrow> startup_call \<Rightarrow> ('m process, bool) state" where
  "call R c = State (\<lambda>p. case R c (outside p) of (ok, m) \<Rightarrow> (ok, p\<lparr>outside := m, callLog := callLog p @ [(c, ok)]\<rparr>))"

text \<open>\<open>init\<close>: \<open>utilruntime.Must\<close> panics, which ends the process with status 2.\<close>

definition init_go :: "'m runtime \<Rightarrow> ('m process, nat option) state" where
  "init_go R = do {
     ok \<leftarrow> call R (AddToScheme ''clientgo'');
     if \<not> ok then State_Monad.return (Some 2) else do {
     ok \<leftarrow> call R (AddToScheme (fst SchemeGroupVersion @ ''/'' @ snd SchemeGroupVersion));
     if \<not> ok then State_Monad.return (Some 2) else do {
     ok \<leftarrow> call R (AddToScheme ''snapshot.storage.k8s.io/v1'');
     if \<not> ok then State_Monad.return (Some 2) else State_Monad.return None } } }"

text \<open>The rest of \<open>main\<close> once the options are made, with the exit status of the process. \<open>webhooks\<close> is the
  variable \<open>ENABLE_WEBHOOKS\<close>, which is read twice. Each \<open>return 1\<close> is an \<open>os.Exit(1)\<close>.\<close>

definition start_manager :: "'m runtime \<Rightarrow> string \<Rightarrow> manager_options \<Rightarrow> ('m process, nat) state" where
  "start_manager R webhooks options = do {
     ok \<leftarrow> call R GetConfigOrDie;
     if \<not> ok then State_Monad.return 1 else do {
     ok \<leftarrow> call R (NewManager options);
     if \<not> ok then State_Monad.return 1 else do {
     ok \<leftarrow> call R (SetupController GameTemplate_SetupWithManager);
     if \<not> ok then State_Monad.return 1 else do {
     ok \<leftarrow> call R (SetupController GameServer_SetupWithManager);
     if \<not> ok then State_Monad.return 1 else do {
     ok \<leftarrow> (if webhooks \<noteq> ''false'' then call R (SetupWebhook SetupGameServerWebhookWithManager)
       else State_Monad.return True);
     if \<not> ok then State_Monad.return 1 else do {
     ok \<leftarrow> (if webhooks \<noteq> ''false'' then call R (SetupWebhook SetupGameTemplateWebhookWithManager)
       else State_Monad.return True);
     if \<not> ok then State_Monad.return 1 else do {
     ok \<leftarrow> call R (SetupController Backup_SetupWithManager);
     if \<not> ok then State_Monad.return 1 else do {
     ok \<leftarrow> call R (SetupController BackupSchedule_SetupWithManager);
     if \<not> ok then State_Monad.return 1 else do {
     ok \<leftarrow> call R (AddHealthzCheck ''healthz'');
     if \<not> ok then State_Monad.return 1 else do {
     ok \<leftarrow> call R (AddReadyzCheck ''readyz'');
     if \<not> ok then State_Monad.return 1 else do {
     ok \<leftarrow> call R StartManager;
     if \<not> ok then State_Monad.return 1 else State_Monad.return 0 } } } } } } } } } } }"

text \<open>The process: \<open>init\<close>, then \<open>main\<close> on the command line.\<close>

definition main_go :: "zap \<Rightarrow> 'm runtime \<Rightarrow> string list \<Rightarrow> string \<Rightarrow> ('m process, nat) state" where
  "main_go Z R args webhooks = do {
     r \<leftarrow> init_go R;
     case r of
       Some code \<Rightarrow> State_Monad.return code
     | None \<Rightarrow>
         (case parse_flags Z default_flags args of
            Inl code \<Rightarrow> State_Monad.return code
          | Inr f \<Rightarrow> start_manager R webhooks (manager_options_of f)) }"

section \<open>Symbolic runs\<close>

text \<open>\<open>launches m P\<close>: whatever the state, \<open>m\<close> makes calls and returns a value that satisfy \<open>P\<close>. Each answer in
  the log is one that the runtime gave.\<close>

definition answers :: "'m runtime \<Rightarrow> startup_call \<Rightarrow> bool \<Rightarrow> bool" where
  "answers R c ok \<longleftrightarrow> (\<exists>m. fst (R c m) = ok)"

definition launches :: "('m process, 'a) state \<Rightarrow> ('a \<Rightarrow> (startup_call \<times> bool) list \<Rightarrow> bool) \<Rightarrow> bool" where
  "launches m P \<longleftrightarrow> (\<forall>p. \<exists>log. callLog (snd (run_state m p)) = callLog p @ log \<and> P (fst (run_state m p)) log)"

lemma launches_mono: "launches m Q \<Longrightarrow> (\<And>a log. Q a log \<Longrightarrow> P a log) \<Longrightarrow> launches m P"
  unfolding launches_def by blast

lemma launches_return: "P a [] \<Longrightarrow> launches (State_Monad.return a) P"
  by (simp add: launches_def State_Monad.return_def)

lemma launches_bind:
  assumes "launches m (\<lambda>a log. launches (f a) (\<lambda>b log'. P b (log @ log')))"
  shows "launches (State_Monad.bind m f) P"
  unfolding launches_def
proof
  fix p
  obtain a p' where m: "run_state m p = (a, p')" by (cases "run_state m p")
  with assms obtain log where log: "callLog p' = callLog p @ log" and f: "launches (f a) (\<lambda>b log'. P b (log @ log'))"
    unfolding launches_def [of m] by (metis fst_conv snd_conv)
  from f obtain log' where "callLog (snd (run_state (f a) p')) = callLog p' @ log'" "P (fst (run_state (f a) p')) (log @ log')"
    unfolding launches_def by blast
  with m log show "\<exists>log. callLog (snd (run_state (State_Monad.bind m f) p)) = callLog p @ log
      \<and> P (fst (run_state (State_Monad.bind m f) p)) log" by simp
qed

lemma launches_call: "(\<And>ok. answers R c ok \<Longrightarrow> P ok [(c, ok)]) \<Longrightarrow> launches (call R c) P"
  by (auto simp: launches_def call_def answers_def split: prod.split) (metis fst_conv)

text \<open>A call that ends the process when it fails.\<close>

lemma launches_exit:
  assumes "answers R c False \<Longrightarrow> P code [(c, False)]"
    and "answers R c True \<Longrightarrow> launches m (\<lambda>r log. P r ((c, True) # log))"
  shows "launches (do { ok \<leftarrow> call R c; if \<not> ok then State_Monad.return code else m }) P"
  by (rule launches_bind, rule launches_call, unfold append_Cons append_Nil)
    (use assms in \<open>auto split: if_split intro: launches_return\<close>)

end
