(* ===== verification/ManagerProperties.thy ===== *)
theory ManagerProperties
  imports Manager
begin

text \<open>
  The manager process: it is secure unless an argument says otherwise, and it runs only after everything was
  registered.
\<close>

section \<open>Security\<close>

text \<open>An argument that names a flag, with one or two dashes, with or without a value.\<close>

definition names_flag :: "string \<Rightarrow> string \<Rightarrow> bool" where
  "names_flag n s \<longleftrightarrow> (\<exists>dashes \<in> {''-'', ''--''}. s = dashes @ n \<or> (\<exists>v. s = dashes @ n @ ''='' @ v))"

lemma split_flag_names:
  assumes "split_flag name = (n, v)" and "name \<noteq> []"
  shows "name = n \<or> (\<exists>x. name = n @ ''='' @ x)"
proof -
  from assms(2) obtain c cs where name: "name = c # cs" by (cases name) auto
  let ?p = "\<lambda>c. c \<noteq> CHR ''=''"
  have cs: "cs = takeWhile ?p cs @ dropWhile ?p cs" by simp
  have n: "n = c # takeWhile ?p cs" using assms(1) by (simp add: split_flag_def name)
  show ?thesis
  proof (cases "dropWhile ?p cs")
    case Nil
    with cs n show ?thesis by (simp add: name)
  next
    case (Cons d ds)
    then have "d = CHR ''=''" using hd_dropWhile [of ?p cs] by simp
    with cs Cons have "cs = takeWhile ?p cs @ CHR ''='' # ds" by simp
    then have "name = n @ ''='' @ ds" by (simp add: name n)
    then show ?thesis by blast
  qed
qed

lemma arg_names:
  assumes "length s \<ge> 2" and "hd s = CHR ''-''" and "s \<noteq> ''--''"
    and "undashed s \<noteq> []" and "split_flag (undashed s) = (n, v)"
  shows "names_flag n s"
proof -
  from assms(1,2) obtain c r where s: "s = CHR ''-'' # c # r" by (cases s; cases "tl s") auto
  from split_flag_names [OF assms(5,4)] show ?thesis
    by (cases "c = CHR ''-''") (auto simp: names_flag_def s undashed_def)
qed

text \<open>A flag that no argument names keeps its value.\<close>

lemma set_other:
  assumes "set_flag Z n v f = Some f'"
  shows "n \<noteq> ''enable-http2'' \<Longrightarrow> enableHTTP2 f' = enableHTTP2 f"
    and "n \<noteq> ''metrics-secure'' \<Longrightarrow> secureMetrics f' = secureMetrics f"
    and "n \<noteq> ''metrics-bind-address'' \<Longrightarrow> metricsAddr f' = metricsAddr f"
  using assms by (auto simp: set_flag_def flag_table_def split: if_splits)

text \<open>One step of the parser: it stops, or sets a flag that the first argument names.\<close>

lemma parse_step:
  assumes "parse_flags Z f (s # args) = Inr f'"
  shows "f' = f \<or> (\<exists>n v f1 args'. names_flag n s \<and> set_flag Z n v f = Some f1 \<and> parse_flags Z f1 args' = Inr f'
    \<and> (args' = args \<or> (\<exists>x. args = x # args')))"
proof (cases "length s < 2 \<or> hd s \<noteq> CHR ''-'' \<or> s = ''--''")
  case True
  with assms show ?thesis by auto
next
  case False
  let ?name = "undashed s"
  obtain n v where split: "split_flag ?name = (n, v)" by (cases "split_flag ?name")
  have ok: "\<not> (?name = [] \<or> hd ?name = CHR ''-'' \<or> hd ?name = CHR ''='')"
    using assms False by (auto simp: Let_def)
  then have names: "names_flag n s" using arg_names [OF _ _ _ _ split] False by simp
  have set: "\<exists>f1. set_flag Z n x f = Some f1 \<and> parse_flags Z f1 as = Inr f'"
    if "(case set_flag Z n x f of None \<Rightarrow> Inl 2 | Some f' \<Rightarrow> parse_flags Z f' as) = Inr f'" for x as
    using that by (simp split: option.splits)
  have body: "(case is_bool_flag Z n of
         None \<Rightarrow> Inl (if n = ''help'' \<or> n = ''h'' then 0 else 2)
       | Some True \<Rightarrow> (case set_flag Z n (case v of Some x \<Rightarrow> x | None \<Rightarrow> ''true'') f of
           None \<Rightarrow> Inl 2 | Some f' \<Rightarrow> parse_flags Z f' args)
       | Some False \<Rightarrow> (case v of
           Some x \<Rightarrow> (case set_flag Z n x f of None \<Rightarrow> Inl 2 | Some f' \<Rightarrow> parse_flags Z f' args)
         | None \<Rightarrow> (case args of [] \<Rightarrow> Inl 2
            | x # args' \<Rightarrow> (case set_flag Z n x f of None \<Rightarrow> Inl 2 | Some f' \<Rightarrow> parse_flags Z f' args')))) = Inr f'"
    using assms False ok split by (simp only: parse_flags.simps Let_def if_False prod.case de_Morgan_disj simp_thms)
  show ?thesis
  proof (cases "is_bool_flag Z n")
    case None
    with body show ?thesis by simp
  next
    case (Some b)
    show ?thesis
    proof (cases b)
      case True
      with body Some set names show ?thesis by simp blast
    next
      case False
      show ?thesis
      proof (cases v)
        case (Some x)
        with body \<open>is_bool_flag Z n = Some b\<close> False set names show ?thesis by simp blast
      next
        case None
        with body \<open>is_bool_flag Z n = Some b\<close> False obtain x rest where "args = x # rest"
          "(case set_flag Z n x f of None \<Rightarrow> Inl 2 | Some f' \<Rightarrow> parse_flags Z f' rest) = Inr f'"
          by (cases args) simp_all
        with set names show ?thesis by blast
      qed
    qed
  qed
qed

lemma parse_keeps:
  assumes "parse_flags Z f args = Inr f'"
    and keep: "\<And>n v f f'. n \<noteq> name \<Longrightarrow> set_flag Z n v f = Some f' \<Longrightarrow> field f' = field f"
    and "\<And>a. a \<in> set args \<Longrightarrow> \<not> names_flag name a"
  shows "field f' = field f"
  using assms(1,3)
proof (induction "length args" arbitrary: args f rule: less_induct)
  case less
  show ?case
  proof (cases args)
    case Nil
    with less.prems show ?thesis by simp
  next
    case (Cons s rest)
    with parse_step [of Z f s rest f'] less.prems(1)
    consider "f' = f" | n v f1 args' where "names_flag n s" "set_flag Z n v f = Some f1"
      "parse_flags Z f1 args' = Inr f'" "args' = rest \<or> (\<exists>x. rest = x # args')" by blast
    then show ?thesis
    proof cases
      case 1
      then show ?thesis by simp
    next
      case (2 n v f1 args')
      have "\<not> names_flag name s" using less.prems(2) Cons by simp
      with 2(1) have "n \<noteq> name" by blast
      from keep [OF this 2(2)] have "field f1 = field f" .
      moreover have "field f' = field f1"
        by (rule less.hyps [OF _ 2(3)]) (use 2(4) Cons less.prems(2) in auto)
      ultimately show ?thesis by simp
    qed
  qed
qed

lemma parse_keeps_secure:
  assumes "parse_flags Z f args = Inr f'"
  shows "(\<And>a. a \<in> set args \<Longrightarrow> \<not> names_flag ''enable-http2'' a) \<Longrightarrow> enableHTTP2 f' = enableHTTP2 f"
    and "(\<And>a. a \<in> set args \<Longrightarrow> \<not> names_flag ''metrics-secure'' a) \<Longrightarrow> secureMetrics f' = secureMetrics f"
    and "(\<And>a. a \<in> set args \<Longrightarrow> \<not> names_flag ''metrics-bind-address'' a) \<Longrightarrow> metricsAddr f' = metricsAddr f"
  by (rule parse_keeps [where field = enableHTTP2, OF assms set_other(1)], assumption+)
    (rule parse_keeps [where field = secureMetrics, OF assms set_other(2)], assumption+,
     rule parse_keeps [where field = metricsAddr, OF assms set_other(3)], assumption+)

text \<open>C40. The manager is secure unless an argument says otherwise: when no argument names \<open>enable-http2\<close>, the
  TLS options of both servers leave only HTTP/1.1 of any configuration; when none names \<open>metrics-secure\<close>, the
  metrics are served over TLS and behind authentication; when none names \<open>metrics-bind-address\<close>, they are not
  served at all. Authentication is required exactly when the metrics are served over TLS.\<close>

theorem secure_unless_asked:
  assumes "parse_flags Z default_flags args = Inr f"
  shows "((\<forall>a \<in> set args. \<not> names_flag ''enable-http2'' a) \<longrightarrow>
        (\<forall>opts \<in> {moMetrics (manager_options_of f), moWebhook (manager_options_of f)}.
           \<forall>c. NextProtos (foldl (\<lambda>c g. g c) c (soTLSOpts opts)) = [''http/1.1'']))
    \<and> ((\<forall>a \<in> set args. \<not> names_flag ''metrics-secure'' a) \<longrightarrow>
        soSecureServing (moMetrics (manager_options_of f)) \<and> soFilterProvider (moMetrics (manager_options_of f)))
    \<and> ((\<forall>a \<in> set args. \<not> names_flag ''metrics-bind-address'' a) \<longrightarrow>
        soBindAddress (moMetrics (manager_options_of f)) = ''0'')
    \<and> soFilterProvider (moMetrics (manager_options_of f)) = soSecureServing (moMetrics (manager_options_of f))"
proof -
  have tls: "NextProtos (foldl (\<lambda>c g. g c) c (tls_opts f)) = [''http/1.1'']" if "\<not> enableHTTP2 f" for c
    using that by (simp add: tls_opts_def disableHTTP2_def)
  have opts: "soTLSOpts (metrics_options f) = tls_opts f" "soTLSOpts (webhook_options f) = tls_opts f"
    "soSecureServing (metrics_options f) = secureMetrics f" "soFilterProvider (metrics_options f) = secureMetrics f"
    "soBindAddress (metrics_options f) = metricsAddr f"
    by (simp_all add: metrics_options_def webhook_options_def no_options_def Let_def)
  have "\<not> enableHTTP2 f" if "\<forall>a \<in> set args. \<not> names_flag ''enable-http2'' a"
    using parse_keeps_secure(1) [OF assms] that by (simp add: default_flags_def)
  moreover have "secureMetrics f" if "\<forall>a \<in> set args. \<not> names_flag ''metrics-secure'' a"
    using parse_keeps_secure(2) [OF assms] that by (simp add: default_flags_def)
  moreover have "metricsAddr f = ''0''" if "\<forall>a \<in> set args. \<not> names_flag ''metrics-bind-address'' a"
    using parse_keeps_secure(3) [OF assms] that by (simp add: default_flags_def)
  ultimately show ?thesis by (simp add: manager_options_of_def opts tls)
qed

text \<open>The arguments of \<open>config/manager/manager.yaml\<close>.\<close>

definition manager_args :: "string list" where
  "manager_args = [''--leader-elect'', ''--health-probe-bind-address=:8081'']"

definition no_zap :: zap where
  "no_zap = \<lparr>zapIsBool = (\<lambda>n. None), zapSet = (\<lambda>n v. False)\<rparr>"

lemma manager_flags: "parse_flags no_zap default_flags manager_args = Inr (default_flags\<lparr>enableLeaderElection := True\<rparr>)"
  by (simp add: manager_args_def undashed_def split_flag_def is_bool_flag_def set_flag_def flag_table_def ParseBool_def
      default_flags_def)

theorem secure_unless_asked_witness:
  "soFilterProvider (moMetrics (manager_options_of (default_flags\<lparr>enableLeaderElection := True\<rparr>)))
    \<and> soBindAddress (moMetrics (manager_options_of (default_flags\<lparr>enableLeaderElection := True\<rparr>))) = ''0''"
proof -
  have "\<not> names_flag ''metrics-secure'' a \<and> \<not> names_flag ''metrics-bind-address'' a" if "a \<in> set manager_args" for a
    using that by (auto simp: manager_args_def names_flag_def)
  with secure_unless_asked [OF manager_flags] show ?thesis by blast
qed

section \<open>Start-up\<close>

text \<open>What has to be done, in this order, to start the operator with some options.\<close>

definition scheme_order :: "startup_call list" where
  "scheme_order = map AddToScheme [''clientgo'', ''gameserver.feddern.dev/v1alpha1'', ''snapshot.storage.k8s.io/v1'']"

definition manager_order :: "bool \<Rightarrow> manager_options \<Rightarrow> startup_call list" where
  "manager_order webhooks options =
     [GetConfigOrDie, NewManager options]
     @ map SetupController [GameTemplate_SetupWithManager, GameServer_SetupWithManager]
     @ (if webhooks then map SetupWebhook [SetupGameServerWebhookWithManager, SetupGameTemplateWebhookWithManager] else [])
     @ map SetupController [Backup_SetupWithManager, BackupSchedule_SetupWithManager]
     @ [AddHealthzCheck ''healthz'', AddReadyzCheck ''readyz'', StartManager]"

text \<open>A log follows an order up to the first failure, which is its last call.\<close>

definition follows :: "startup_call list \<Rightarrow> (startup_call \<times> bool) list \<Rightarrow> bool" where
  "follows order log \<longleftrightarrow> map fst log = take (length log) order \<and> list_all snd (butlast log)
     \<and> (log = [] \<or> snd (last log) \<longrightarrow> length log = length order)"

lemma follows_simps [simp]:
  "follows [] log \<longleftrightarrow> log = []" "follows (c # cs) [] \<longleftrightarrow> False"
  "follows (c # cs) ((c', False) # log) \<longleftrightarrow> c' = c \<and> log = []"
  "follows (c # cs) ((c', True) # log) \<longleftrightarrow> c' = c \<and> follows cs log"
  by (auto simp: follows_def)

text \<open>What a launch made of an order: its log follows it, the answers are the runtime's, and the exit status
  is that of the failure when there was one.\<close>

definition launched :: "'m runtime \<Rightarrow> 's \<Rightarrow> 's \<Rightarrow> startup_call list \<Rightarrow> 's \<Rightarrow> (startup_call \<times> bool) list \<Rightarrow> bool" where
  "launched R good bad order r log \<longleftrightarrow> follows order log \<and> list_all (\<lambda>(c, ok). answers R c ok) log
     \<and> r = (if list_all snd log then good else bad)"

lemma launched_simps [simp]:
  "launched R good bad [] r [] \<longleftrightarrow> r = good"
  "launched R good bad (c # cs) r ((c, False) # log) \<longleftrightarrow> answers R c False \<and> log = [] \<and> r = bad"
  "launched R good bad (c # cs) r ((c, True) # log) \<longleftrightarrow> answers R c True \<and> launched R good bad cs r log"
  by (auto simp: launched_def)

lemma init_launched: "launches (init_go R) (launched R None (Some 2) scheme_order)"
  unfolding init_go_def scheme_order_def SchemeGroupVersion_def
  by (intro launches_exit launches_return) simp_all

lemma manager_launched:
  "launches (start_manager R webhooks options) (launched R 0 1 (manager_order (webhooks \<noteq> ''false'') options))"
proof (cases "webhooks = ''false''")
  case True
  have skip: "State_Monad.bind (State_Monad.return True) (\<lambda>ok. if \<not> ok then x else m) = m" for x m :: "('m process, nat) state"
    by simp
  show ?thesis
    unfolding start_manager_def manager_order_def True simp_thms if_False skip
    by (intro launches_exit launches_return) simp_all
next
  case False
  then show ?thesis
    unfolding start_manager_def manager_order_def if_P [OF False] if_True
    by (intro launches_exit launches_return) simp_all
qed

lemma follows_append:
  assumes "follows xs log" and "list_all snd log" and "follows ys log'"
  shows "follows (xs @ ys) (log @ log')"
  using assms
proof (induction xs arbitrary: log)
  case Nil
  then show ?case by simp
next
  case (Cons x xs)
  then obtain rest where "log = (x, True) # rest" by (cases log) auto
  with Cons show ?case by simp
qed

lemma follows_stops:
  assumes "follows xs log" and "\<not> list_all snd log"
  shows "follows (xs @ ys) log"
  using assms
proof (induction xs arbitrary: log)
  case Nil
  then show ?case by simp
next
  case (Cons x xs)
  then obtain c ok rest where "log = (c, ok) # rest" by (cases log) auto
  with Cons show ?case by (cases ok) simp_all
qed

text \<open>What the process made of its calls.\<close>

definition main_launched :: "zap \<Rightarrow> 'm runtime \<Rightarrow> string list \<Rightarrow> string \<Rightarrow> nat \<Rightarrow> (startup_call \<times> bool) list \<Rightarrow> bool" where
  "main_launched Z R args webhooks code log \<longleftrightarrow>
     list_all (\<lambda>(c, ok). answers R c ok) log
     \<and> (case parse_flags Z default_flags args of
          Inl e \<Rightarrow> follows scheme_order log \<and> code = (if list_all snd log then e else 2)
        | Inr f \<Rightarrow> follows (scheme_order @ manager_order (webhooks \<noteq> ''false'') (manager_options_of f)) log
            \<and> code = (if list_all snd log then 0 else if length log \<le> 3 then 2 else 1))"

lemma main_go_launched: "launches (main_go Z R args webhooks) (main_launched Z R args webhooks)"
  unfolding main_go_def
proof (rule launches_bind, rule launches_mono [OF init_launched])
  fix r :: "nat option" and log
  assume init: "launched R None (Some 2) scheme_order r log"
  show "launches (case r of Some code \<Rightarrow> State_Monad.return code
      | None \<Rightarrow> (case parse_flags Z default_flags args of
            Inl code \<Rightarrow> State_Monad.return code
          | Inr f \<Rightarrow> start_manager R webhooks (manager_options_of f)))
      (\<lambda>code log'. main_launched Z R args webhooks code (log @ log'))"
  proof (cases r)
    case (Some code)
    have stop: "follows scheme_order log" "\<not> list_all snd log" "code = 2"
      using init Some by (simp_all add: launched_def split: if_splits)
    then have "length (map fst log) \<le> length scheme_order" by (metis follows_def length_take min.cobounded1)
    then have "length log \<le> 3" by (simp add: scheme_order_def)
    with stop init Some show ?thesis
      by (auto simp: launched_def main_launched_def follows_stops split: sum.split intro!: launches_return)
  next
    case None
    then have all: "list_all snd log" using init by (auto simp: launched_def split: if_splits)
    show ?thesis
    proof (cases "parse_flags Z default_flags args")
      case (Inl e)
      with None all init show ?thesis
        by (auto simp: launched_def main_launched_def intro!: launches_return)
    next
      case (Inr f)
      have "length log = 3" using init all by (auto simp: launched_def follows_def scheme_order_def list_all_iff)
      with None Inr all init show ?thesis
        by (auto simp: launched_def main_launched_def follows_append follows_def [of _ "[]"]
            intro!: launches_mono [OF manager_launched])
    qed
  qed
qed

lemma follows_last:
  assumes "follows (xs @ [c]) log" and "c \<notin> set xs" and "(c, ok) \<in> set log"
  shows "log = map (\<lambda>x. (x, True)) xs @ [(c, ok)]"
  using assms
proof (induction xs arbitrary: log)
  case Nil
  then obtain y ok' rest where "log = (y, ok') # rest" by (cases log) auto
  with Nil show ?case by (cases ok'; cases rest) auto
next
  case (Cons x xs)
  then obtain y ok' rest where "log = (y, ok') # rest" by (cases log) auto
  with Cons show ?case by (cases ok') auto
qed

lemma follows_all: "follows xs log \<Longrightarrow> list_all snd log \<Longrightarrow> log = map (\<lambda>x. (x, True)) xs"
proof (induction xs arbitrary: log)
  case Nil
  then show ?case by simp
next
  case (Cons x xs)
  then obtain rest where "log = (x, True) # rest" by (cases log) auto
  with Cons show ?case by simp
qed

text \<open>The calls that the process made from a state, each with whether it succeeded, and its exit status.\<close>

definition startup_log :: "('m process, 'a) state \<Rightarrow> 'm process \<Rightarrow> (startup_call \<times> bool) list" where
  "startup_log m p = drop (length (callLog p)) (callLog (snd (run_state m p)))"

definition exit_status :: "('m process, nat) state \<Rightarrow> 'm process \<Rightarrow> nat" where
  "exit_status m p = fst (run_state m p)"

lemma launches_logD: "launches m P \<Longrightarrow> P (exit_status m p) (startup_log m p)"
  by (auto simp: launches_def startup_log_def exit_status_def dest!: spec [of _ p])

text \<open>A log with the start of the manager is the whole order.\<close>

lemma started_log:
  assumes "main_launched Z R args webhooks code log" and "(StartManager, ok) \<in> set log"
  obtains f where "parse_flags Z default_flags args = Inr f"
    and "log = map (\<lambda>c. (c, True)) (scheme_order @ butlast (manager_order (webhooks \<noteq> ''false'') (manager_options_of f)))
      @ [(StartManager, ok)]"
    and "code = (if ok then 0 else 1)"
proof (cases "parse_flags Z default_flags args")
  case (Inl e)
  then have "map fst log = take (length log) scheme_order" using assms(1) by (simp add: main_launched_def follows_def)
  moreover have "StartManager \<in> set (map fst log)" using assms(2) by force
  ultimately have "StartManager \<in> set scheme_order" by (metis in_set_takeD)
  then show thesis by (auto simp: scheme_order_def)
next
  case (Inr f)
  let ?order = "manager_order (webhooks \<noteq> ''false'') (manager_options_of f)"
  have split: "?order = butlast ?order @ [StartManager]" and fresh: "StartManager \<notin> set (scheme_order @ butlast ?order)"
    by (auto simp: manager_order_def scheme_order_def)
  have "follows ((scheme_order @ butlast ?order) @ [StartManager]) log"
    using assms(1) Inr split by (simp add: main_launched_def)
  from follows_last [OF this fresh assms(2)]
  have log: "log = map (\<lambda>c. (c, True)) (scheme_order @ butlast ?order) @ [(StartManager, ok)]" .
  moreover have "code = (if ok then 0 else 1)"
    using assms(1) Inr by (simp add: main_launched_def log list_all_iff scheme_order_def)
  ultimately show thesis using that Inr by blast
qed

text \<open>When no call fails, the manager is started.\<close>

lemma success_starts:
  assumes "main_launched Z R args webhooks code log" and "parse_flags Z default_flags args = Inr f" and "\<And>c m. fst (R c m)"
  shows "(StartManager, True) \<in> set log \<and> code = 0"
proof -
  have all: "list_all snd log"
    using assms(1,3) by (auto simp: main_launched_def answers_def list_all_iff)
  let ?order = "scheme_order @ manager_order (webhooks \<noteq> ''false'') (manager_options_of f)"
  have "log = map (\<lambda>c. (c, True)) ?order"
    by (rule follows_all [OF _ all]) (use assms(1,2) in \<open>simp add: main_launched_def\<close>)
  then show ?thesis using assms(1,2) all by (simp add: main_launched_def manager_order_def)
qed

text \<open>C39. The manager runs only when everything is in place. Whatever the runtime answers, every call of the
  process but its last has succeeded, so nothing is called after a failure, and the calls follow the order of
  schemes, manager, controllers, webhooks and checks. When the manager was started, each of the
  following had succeeded before: the three schemes, the creation of the manager with the options of the command
  line, the registration of a controller for each of the four kinds, of a webhook for both admitted kinds
  (unless \<open>ENABLE_WEBHOOKS\<close> is \<open>false\<close>), and of both checks. The exit status is 0 only when the manager ran to
  its end or help was asked for, 2 for a scheme or flag that is refused, 1 for any other failure; and
  when every call succeeds and the command line is fine, the manager does run.\<close>

theorem manager_starts_complete:
  "let log = startup_log (main_go Z R args webhooks) p; code = exit_status (main_go Z R args webhooks) p in
     list_all snd (butlast log) \<and> list_all (\<lambda>(c, ok). \<exists>m. fst (R c m) = ok) log
   \<and> (case parse_flags Z default_flags args of
        Inl e \<Rightarrow> follows scheme_order log \<and> code = (if list_all snd log then e else 2)
      | Inr f \<Rightarrow> follows (scheme_order @ manager_order (webhooks \<noteq> ''false'') (manager_options_of f)) log
          \<and> code = (if list_all snd log then 0 else if length log \<le> 3 then 2 else 1))
   \<and> (\<forall>ok. (StartManager, ok) \<in> set log \<longrightarrow> code = (if ok then 0 else 1)
        \<and> (\<exists>f. parse_flags Z default_flags args = Inr f \<and> (NewManager (manager_options_of f), True) \<in> set log)
        \<and> (\<forall>g \<in> {''clientgo'', ''gameserver.feddern.dev/v1alpha1'', ''snapshot.storage.k8s.io/v1''}.
             (AddToScheme g, True) \<in> set log)
        \<and> (\<forall>kind \<in> {''GameTemplate'', ''GameServer'', ''Backup'', ''BackupSchedule''}.
             \<exists>ctl. ctrlFor ctl = kind \<and> (SetupController ctl, True) \<in> set log)
        \<and> (webhooks \<noteq> ''false'' \<longrightarrow> (\<forall>kind \<in> {''GameServer'', ''GameTemplate''}.
             \<exists>w. whFor w = kind \<and> (SetupWebhook w, True) \<in> set log))
        \<and> (AddHealthzCheck ''healthz'', True) \<in> set log \<and> (AddReadyzCheck ''readyz'', True) \<in> set log)
   \<and> ((\<forall>c m. fst (R c m)) \<and> (\<exists>f. parse_flags Z default_flags args = Inr f) \<longrightarrow>
        (StartManager, True) \<in> set log \<and> code = 0)"
proof -
  let ?log = "startup_log (main_go Z R args webhooks) p" and ?code = "exit_status (main_go Z R args webhooks) p"
  have run: "main_launched Z R args webhooks ?code ?log" by (rule launches_logD [OF main_go_launched])
  then have "list_all snd (butlast ?log)" by (auto simp: main_launched_def follows_def split: sum.splits)
  moreover note run [unfolded main_launched_def answers_def] success_starts [OF run]
  moreover have "?code = (if ok then 0 else 1)
        \<and> (\<exists>f. parse_flags Z default_flags args = Inr f \<and> (NewManager (manager_options_of f), True) \<in> set ?log)
        \<and> (\<forall>g \<in> {''clientgo'', ''gameserver.feddern.dev/v1alpha1'', ''snapshot.storage.k8s.io/v1''}.
             (AddToScheme g, True) \<in> set ?log)
        \<and> (\<forall>kind \<in> {''GameTemplate'', ''GameServer'', ''Backup'', ''BackupSchedule''}.
             \<exists>ctl. ctrlFor ctl = kind \<and> (SetupController ctl, True) \<in> set ?log)
        \<and> (webhooks \<noteq> ''false'' \<longrightarrow> (\<forall>kind \<in> {''GameServer'', ''GameTemplate''}.
             \<exists>w. whFor w = kind \<and> (SetupWebhook w, True) \<in> set ?log))
        \<and> (AddHealthzCheck ''healthz'', True) \<in> set ?log \<and> (AddReadyzCheck ''readyz'', True) \<in> set ?log"
    if started: "(StartManager, ok) \<in> set ?log" for ok
  proof -
    from started_log [OF run started] obtain f where f: "parse_flags Z default_flags args = Inr f" "?code = (if ok then 0 else 1)"
      and log: "?log = map (\<lambda>c. (c, True)) (scheme_order @ butlast (manager_order (webhooks \<noteq> ''false'') (manager_options_of f)))
        @ [(StartManager, ok)]" by blast
    then have before: "(c, True) \<in> set ?log"
      if "c \<in> set (scheme_order @ butlast (manager_order (webhooks \<noteq> ''false'') (manager_options_of f)))" for c
      unfolding log using that by force
    have "\<exists>ctl. ctrlFor ctl = kind \<and> (SetupController ctl, True) \<in> set ?log"
      if "kind \<in> ctrlFor ` {GameTemplate_SetupWithManager, GameServer_SetupWithManager, Backup_SetupWithManager,
        BackupSchedule_SetupWithManager}" for kind
      using that before by (auto simp: manager_order_def)
    moreover have "\<exists>w. whFor w = kind \<and> (SetupWebhook w, True) \<in> set ?log"
      if "webhooks \<noteq> ''false''" "kind \<in> whFor ` {SetupGameServerWebhookWithManager, SetupGameTemplateWebhookWithManager}" for kind
      using that before by (auto simp: manager_order_def)
    ultimately show ?thesis
      using f before
      by (auto simp: setup_defs SetupGameServerWebhookWithManager_def SetupGameTemplateWebhookWithManager_def
          manager_order_def scheme_order_def)
  qed
  ultimately show ?thesis unfolding Let_def by blast
qed


text \<open>The witness: a runtime that answers every call, and one that refuses the webhooks.\<close>

definition willing :: "nat runtime" where
  "willing = (\<lambda>c n. (True, Suc n))"

definition without_webhooks :: "nat runtime" where
  "without_webhooks = (\<lambda>c n. (case c of SetupWebhook w \<Rightarrow> False | _ \<Rightarrow> True, Suc n))"

theorem manager_starts_complete_witness:
  "(\<exists>ctl. ctrlFor ctl = ''BackupSchedule''
      \<and> (SetupController ctl, True) \<in> set (startup_log (main_go no_zap willing manager_args ''true'') \<lparr>outside = 0, callLog = []\<rparr>))
   \<and> exit_status (main_go no_zap willing manager_args ''true'') \<lparr>outside = 0, callLog = []\<rparr> = 0
   \<and> (\<forall>ok. (StartManager, ok) \<notin> set (startup_log (main_go no_zap without_webhooks manager_args ''true'') \<lparr>outside = 0, callLog = []\<rparr>))"
proof -
  let ?p = "\<lparr>outside = 0::nat, callLog = []\<rparr>"
  have "\<forall>c m. fst (willing c m)" by (simp add: willing_def)
  with manager_starts_complete [of no_zap willing manager_args "''true''" ?p, unfolded Let_def] manager_flags
  have started: "(StartManager, True) \<in> set (startup_log (main_go no_zap willing manager_args ''true'') ?p)"
    "exit_status (main_go no_zap willing manager_args ''true'') ?p = 0" by blast+
  then have "\<exists>ctl. ctrlFor ctl = ''BackupSchedule''
      \<and> (SetupController ctl, True) \<in> set (startup_log (main_go no_zap willing manager_args ''true'') ?p)"
    using manager_starts_complete [of no_zap willing manager_args "''true''" ?p, unfolded Let_def] by blast
  moreover have "(SetupWebhook w, True) \<notin> set (startup_log (main_go no_zap without_webhooks manager_args ''true'') ?p)" for w
    using manager_starts_complete [of no_zap without_webhooks manager_args "''true''" ?p, unfolded Let_def]
    by (auto simp: list_all_iff without_webhooks_def)
  then have "(StartManager, ok) \<notin> set (startup_log (main_go no_zap without_webhooks manager_args ''true'') ?p)" for ok
    using manager_starts_complete [of no_zap without_webhooks manager_args "''true''" ?p, unfolded Let_def] by force
  ultimately show ?thesis using started(2) by blast
qed

end
