(* ===== verification/ScheduleLiveness.thy ===== *)
theory ScheduleLiveness
  imports RetentionProperties
begin

text \<open>
  What a schedule gets done: a due run is created, and a Backup that enough newer ones outlive is deleted.
  Both hold whatever the phases of the Backups are, which is where the code and its documents differ.
\<close>

section \<open>A due run is created\<close>

lemma produces_fixed_clock: "R now [] \<Longrightarrow> produces (Now (\<lambda>w. (now, w))) R"
  by (rule producesI) (simp add: Now_def emit_def)

abbreviation creates_run :: "lib \<Rightarrow> backup_schedule \<Rightarrow> gotime \<Rightarrow> event list \<Rightarrow> bool" where
  "creates_run L bs fire es \<equiv> (\<exists>m rest. es = EvCreate (OBackup (scheduled_backup bs fire\<lparr>bMeta := m\<rparr>)) # rest
     \<and> SetControllerReference L (BackupScheduleKind, bsMeta bs) (bMeta (scheduled_backup bs fire)) = Inr m)"

lemma schedule_owner_law:
  assumes "owner_law L"
  obtains m where "SetControllerReference L (BackupScheduleKind, bsMeta bs) (bMeta (scheduled_backup bs fire)) = Inr m"
proof -
  have "mOwnerReferences (bMeta (scheduled_backup bs fire)) = []"
    "mNamespace (bMeta (scheduled_backup bs fire)) = mNamespace (bsMeta bs)"
    by (simp_all add: scheduled_backup_def zero_meta_def)
  with assms that show thesis unfolding owner_law_def by blast
qed

lemma spawn_creates:
  assumes "owner_law L"
  shows "produces (spawnBackup L C bs fire) (\<lambda>r es. spawned L bs fire es)"
  by (rule schedule_owner_law [OF assms, of bs fire], unfold spawnBackup_def Let_def)
    (auto intro!: produces_option produces_sum produces_return produces_bind produces_Create produces_if simp: spawned_def)

lemma run_creates:
  assumes "owner_law L" and "due L now sched loc bs" and "same_schedule bs' bs" "last_run bs' = last_run bs"
  shows "produces (run_schedule L C now sched loc bs') (\<lambda>r es. creates_run L bs (next_fire L now sched loc bs) es)"
proof -
  have fire: "CronNext L sched loc (reference_time now bs') = next_fire L now sched loc bs"
    using assms(3,4) by (simp add: next_fire_def reference_time_def)
  have same: "bsMeta bs' = bsMeta bs" "scheduled_backup bs' f = scheduled_backup bs f" for f
    using assms(3) by (simp_all add: scheduled_backup_def)
  have "\<not> bssSuspend (bsSpec bs') \<and> \<not> now < next_fire L now sched loc bs"
    using assms(2,3) by (auto simp: due_def)
  then show ?thesis
    unfolding run_schedule_def Let_def fire
    by (simp only: simp_thms if_True, intro produces_bind produces_mono [OF spawn_creates [OF assms(1)]]
          produces_option produces_return produces_mono [OF finish_produces])
      (auto simp: spawned_def same)
qed

lemma due_run_creates:
  assumes "owner_law L" and "opGet (BackupSchedules C) req (world s) = (Inr bs, w)"
    and "schedule_parsed L bs = Some (loc, sched)" and "due L now sched loc bs"
  shows "\<exists>m rest. events (BackupSchedule_Reconcile L (Some (\<lambda>w. (now, w))) C req) s =
      EvRead (OBackupSchedule bs)
      # EvCreate (OBackup (scheduled_backup bs (next_fire L now sched loc bs)\<lparr>bMeta := m\<rparr>)) # rest
    \<and> SetControllerReference L (BackupScheduleKind, bsMeta bs)
        (bMeta (scheduled_backup bs (next_fire L now sched loc bs))) = Inr m"
proof -
  let ?s = "emit s [EvRead (OBackupSchedule bs)] w"
  let ?rest = "do { bs \<leftarrow> set_schedule_condition_now C bs ScheduleValid ConditionTrue ''Parsed'' ''cron parsed cleanly'';
    run_schedule L C now sched loc bs }"
  have parsed: "loadLocation L (bssTimeZone (bsSpec bs)) = Inr loc" "ParseCron L (bssSchedule (bsSpec bs)) = Inr sched"
    using assms(3) by (auto simp: schedule_parsed_def split: sum.splits)
  have "run_state (BackupSchedule_Reconcile L (Some (\<lambda>w. (now, w))) C req) s = run_state ?rest ?s"
    using assms(2) by (simp add: BackupSchedule_Reconcile_def schedule_now_def Now_def Get_def emit_def parsed)
  moreover have "produces ?rest (\<lambda>r es. creates_run L bs (next_fire L now sched loc bs) es)"
    by (intro produces_bind set_schedule_produces, unfold append_Nil, rule run_creates [OF assms(1,4)]) simp_all
  ultimately show ?thesis
    by (auto simp: produces_def events_def emit_def dest!: spec [of _ ?s])
qed

text \<open>C16. A due run is not skipped: when the schedule is not suspended, its cron expression and time zone
  parse, and the next fire time after the last run (or after the same time yesterday) has come, the first
  thing a reconcile does after it has read the schedule is to send the creation of the Backup of that fire
  time. The code does not look at the fire time again, so a cron expression that never fires, for which
  \<open>Next\<close> answers the zero time, is due at every reconcile.\<close>

theorem due_run_is_created:
  assumes "owner_law L" and "opGet (BackupSchedules C) req (world s) = (Inr bs, w)"
    and "schedule_parsed L bs = Some (loc, sched)" and "due L now sched loc bs"
  shows "\<exists>m rest. events (BackupSchedule_Reconcile L (Some (\<lambda>w. (now, w))) C req) s =
      EvRead (OBackupSchedule bs)
      # EvCreate (OBackup (scheduled_backup bs (next_fire L now sched loc bs)\<lparr>bMeta := m\<rparr>)) # rest
    \<and> SetControllerReference L (BackupScheduleKind, bsMeta bs)
        (bMeta (scheduled_backup bs (next_fire L now sched loc bs))) = Inr m"
  by (rule due_run_creates [OF assms])

text \<open>The witness: an expression that never fires, and the Backup that is made for it.\<close>

lemma zero_stamp: "FormatStamp zero_time = ''00010101-0000''"
  unfolding FormatStamp_def civil_days_def by (simp add: Hour_def Minute_def Second_def) code_simp

theorem due_run_is_created_witness:
  "\<exists>m rest. events (BackupSchedule_Reconcile (demo_lib\<lparr>CronNext := \<lambda>_ _ _. zero_time\<rparr>) (Some (\<lambda>w. (0, w)))
      schedule_cluster (''games'', ''nightly'')) (at_time 0) =
    EvRead (OBackupSchedule (demo_schedule 1 None))
    # EvCreate (OBackup (scheduled_backup (demo_schedule 1 None) zero_time\<lparr>bMeta := m\<rparr>)) # rest"
proof -
  let ?L = "demo_lib\<lparr>CronNext := \<lambda>_ _ _. zero_time\<rparr>"
  have law: "owner_law ?L" using demo_owner_law by (simp add: owner_law_def)
  have parsed: "schedule_parsed ?L (demo_schedule 1 None) = Some (UTC, ''0 * * * *'')"
    by (simp add: schedule_parsed_def loadLocation_def demo_defs)
  have fire: "next_fire ?L 0 sched loc (demo_schedule 1 None) = zero_time" for sched loc
    by (simp add: next_fire_def)
  have due: "due ?L 0 ''0 * * * *'' UTC (demo_schedule 1 None)"
    unfolding due_def fire by (simp add: zero_time_def Hour_def Minute_def Second_def)
  have "opGet (BackupSchedules schedule_cluster) (''games'', ''nightly'') (world (at_time 0)) = (Inr (demo_schedule 1 None), 0)"
    by (simp add: static_ops_def at_time_def)
  from due_run_is_created [OF law this parsed due] show ?thesis unfolding fire by blast
qed

section \<open>Old Backups are deleted\<close>

text \<open>C19. Retention deletes what it should: a Backup of the schedule that is not retained forever is gone
  after a reconcile, if \<open>keep\<close> others that count were created later. This holds whatever their phases, also
  when the later ones have failed, and also when the schedule is suspended.\<close>

theorem old_backups_are_deleted:
  assumes "api_server C view" and "owner_law L" and "newest_first (SortNewestFirst L)"
    and "quiet_clock view injected"
    and "fmlookup (clBackupSchedules (view (world s))) (object_key (bsMeta bs)) = Some bs"
    and "schedule_parsed L bs = Some (loc, sched)"
    and "b \<in> live_children bs (clBackups (view (world s)))"
    and "newer \<subseteq> live_children bs (clBackups (view (world s)))" and "card newer = nat (effective_keep bs)"
    and "\<forall>x \<in> newer. created b < created x"
  shows "fmlookup (clBackups (cluster_after view (BackupSchedule_Reconcile L injected C (object_key (bsMeta bs))) s))
    (object_key (bMeta b)) = None"
proof (rule ccontr)
  let ?m = "clBackups (view (world s))"
  let ?c' = "cluster_after view (BackupSchedule_Reconcile L injected C (object_key (bsMeta bs))) s"
  have keyed: "keyed_backups ?m" using api_server.backups_keyed [OF assms(1)] by blast
  note eff = ensures_after [OF api_server.schedule_effect [OF assms(1,2) newest_permutes [OF assms(3)] assms(4) keyed assms(5)]]
  obtain now m1 where spawn: "m1 = ?m \<or> (due L now sched loc bs \<and> spawn_effect bs (next_fire L now sched loc bs) ?m m1)"
    and ret: "retention_effect L bs m1 (clBackups ?c')"
    using schedule_effect_backups [OF eff assms(6)] by blast
  have keyed1: "keyed_backups m1"
    using spawn keyed by (auto simp: spawn_effect_def Let_def split: if_splits)
  have at: "fmlookup m1 (object_key (bMeta x)) = Some x" if "x \<in> live_children bs ?m" for x
    using that keyed spawn
    by (auto simp: live_children_def children_of_def fmran'_def spawn_effect_def Let_def split: if_splits)
  note life = retention_life [OF assms(3) keyed1 ret]
  have still: "x \<in> live_children bs (clBackups ?c')"
    if "x \<in> live_children bs ?m" "fmlookup (clBackups ?c') (object_key (bMeta x)) = Some x" for x
    using that by (auto simp: live_children_def children_of_def intro: fmran'I)
  assume "fmlookup (clBackups ?c') (object_key (bMeta b)) \<noteq> None"
  then have "fmlookup (clBackups ?c') (object_key (bMeta b)) = Some b"
    using life(2) at [OF assms(7)] by fastforce
  then have b: "b \<in> live_children bs (clBackups ?c')" by (rule still [OF assms(7)])
  have "x \<in> live_children bs (clBackups ?c')" if x: "x \<in> newer" for x
  proof (cases "fmlookup (clBackups ?c') (object_key (bMeta x))")
    case None
    from life(3) [OF at None] x assms(8) b have "created x \<le> created b" by blast
    with x assms(10) show ?thesis by fastforce
  next
    case (Some y)
    with life(2) at x assms(8) have "y = x" by fastforce
    with Some x assms(8) still show ?thesis by blast
  qed
  with b have "insert b newer \<subseteq> live_children bs (clBackups ?c')" by blast
  moreover have fin: "finite (live_children bs (clBackups ?c'))"
    by (simp add: live_children_def children_of_def fmran'_alt_def)
  ultimately have "card (insert b newer) \<le> nat (effective_keep bs)"
    using card_mono life(1) le_trans by blast
  moreover have "b \<notin> newer" using assms(10) by blast
  moreover have "finite newer" using fin \<open>insert b newer \<subseteq> _\<close> by (meson finite_insert finite_subset)
  ultimately show False using assms(9) by simp
qed

text \<open>The witness: a suspended schedule that keeps one Backup, an older one that is Ready and a newer one that
  has failed. The one that could be restored is deleted.\<close>

definition nightly_child :: "string \<Rightarrow> gotime \<Rightarrow> string \<Rightarrow> backup" where
  "nightly_child n t ph = \<lparr>bMeta = (demo_meta n ''games'')\<lparr>mCreationTimestamp := t, mLabels := fmupd labelSchedule ''nightly'' fmempty\<rparr>,
     bSpec = \<lparr>bGameServerRefName = ''midgard'', bVolumeSnapshotClassName = '''', bRetainForever = False\<rparr>,
     bStatus = zero_backup_status\<lparr>bPhase := ph, bVolumeSnapshotName := n\<rparr>\<rparr>"

definition paused_schedule :: backup_schedule where
  "paused_schedule = (demo_schedule 1 None)\<lparr>bsSpec := (bsSpec (demo_schedule 1 None))\<lparr>bssSuspend := True\<rparr>\<rparr>"

definition failing_cluster :: cluster where
  "failing_cluster = demo_cluster\<lparr>
     clBackups := fmupd (''games'', ''nightly-1'') (nightly_child ''nightly-1'' 100 BackupPhaseReady)
       (fmupd (''games'', ''nightly-2'') (nightly_child ''nightly-2'' 200 BackupPhaseFailed) fmempty),
     clBackupSchedules := fmupd (''games'', ''nightly'') paused_schedule fmempty\<rparr>"

lemma nightly_child_simps [simp]:
  "object_key (bMeta (nightly_child n t ph)) = (''games'', n)" "created (nightly_child n t ph) = t"
  "\<not> bRetainForever (bSpec (nightly_child n t ph))"
  by (simp_all add: nightly_child_def object_key_def demo_meta_def zero_meta_def)

lemma paused_schedule_simps [simp]:
  "object_key (bsMeta paused_schedule) = (''games'', ''nightly'')" "effective_keep paused_schedule = 1"
  by (simp_all add: paused_schedule_def object_key_def effective_keep_def demo_defs)

lemma nightly_selected: "selects (Some (mNamespace (bsMeta paused_schedule)))
    (fmupd labelSchedule (mName (bsMeta paused_schedule)) fmempty) (bMeta (nightly_child n t ph))"
  by (auto simp: selects_def nightly_child_def paused_schedule_def demo_defs intro!: fmpredI
      split: if_splits simp del: labelSchedule_def)

lemma failing_view [simp]: "store_view (world (in_store failing_cluster)) = failing_cluster"
  by (simp add: in_store_view keyed_cluster_def failing_cluster_def demo_cluster_def keyed_view_upd object_key_def
      demo_defs paused_schedule_def nightly_child_def)

lemma failing_live:
  assumes "fmlookup (clBackups failing_cluster) k = Some (nightly_child n t ph)"
  shows "nightly_child n t ph \<in> live_children paused_schedule (clBackups failing_cluster)"
  using nightly_selected assms by (simp add: live_children_def children_of_def fmran'I)

theorem old_backups_are_deleted_witness:
  "let c = cluster_after store_view (BackupSchedule_Reconcile demo_lib None store_client (''games'', ''nightly''))
         (in_store failing_cluster)
   in bssSuspend (bsSpec paused_schedule) \<and> fmlookup (clBackups c) (''games'', ''nightly-1'') = None"
proof -
  let ?old = "nightly_child ''nightly-1'' 100 BackupPhaseReady" and ?new = "nightly_child ''nightly-2'' 200 BackupPhaseFailed"
  have parsed: "schedule_parsed demo_lib paused_schedule = Some (UTC, ''0 * * * *'')"
    by (simp add: schedule_parsed_def loadLocation_def paused_schedule_def demo_defs)
  have old: "?old \<in> live_children paused_schedule (clBackups failing_cluster)"
    by (rule failing_live [where k = "(''games'', ''nightly-1'')"]) (simp add: failing_cluster_def)
  have new: "?new \<in> live_children paused_schedule (clBackups failing_cluster)"
    by (rule failing_live [where k = "(''games'', ''nightly-2'')"]) (simp add: failing_cluster_def)
  have "fmlookup (clBackupSchedules failing_cluster) (''games'', ''nightly'') = Some paused_schedule"
    by (simp add: failing_cluster_def)
  moreover have "quiet_clock store_view None" by (simp add: quiet_clock_def)
  ultimately show ?thesis
    using old_backups_are_deleted [OF store.api_server_axioms demo_owner_law demo_newest_first _ _ parsed,
        of None "in_store failing_cluster" ?old "{?new}"] old new
    by (simp add: Let_def) (simp add: paused_schedule_def)
qed

end
