(* ===== verification/ScheduleCatchUp.thy ===== *)
theory ScheduleCatchUp
  imports ScheduleLiveness
begin

text \<open>
  A schedule over time. The fire times of its cron expression are a set of instants; those after the
  reference time of the schedule that have come are missed. Every reconcile makes up exactly one of them,
  the oldest, and the delay it asks for ends at the next fire time: no run is lost while the manager is not
  away for a day.
\<close>

section \<open>The fire times of a cron expression\<close>

text \<open>\<open>Next\<close> as the cron package documents it, for an expression that always fires again: the first fire time
  after an instant. (One that never fires again is the subject of \<open>due_run_is_created\<close>.)\<close>

definition cron_fires :: "lib \<Rightarrow> cron_schedule \<Rightarrow> location \<Rightarrow> gotime set \<Rightarrow> bool" where
  "cron_fires L sched loc F \<longleftrightarrow>
     (\<forall>t. CronNext L sched loc t \<in> F \<and> t < CronNext L sched loc t \<and> (\<forall>f \<in> F. t < f \<longrightarrow> CronNext L sched loc t \<le> f))"

definition missed :: "gotime set \<Rightarrow> gotime \<Rightarrow> backup_schedule \<Rightarrow> gotime set" where
  "missed F now bs = {f \<in> F. reference_time now bs < f \<and> f \<le> now}"

lemma finite_missed [simp]: "finite (missed F now bs)"
  by (rule finite_subset [of _ "{reference_time now bs<..now}"]) (auto simp: missed_def)

lemma missed_cong: "last_run bs' = last_run bs \<Longrightarrow> missed F now bs' = missed F now bs"
  by (simp add: missed_def reference_time_def)

lemma due_missed:
  assumes "cron_fires L sched loc F" and "\<not> bssSuspend (bsSpec bs)"
  shows "due L now sched loc bs \<longleftrightarrow> missed F now bs \<noteq> {}"
    and "due L now sched loc bs \<Longrightarrow> next_fire L now sched loc bs \<in> missed F now bs"
    and "f \<in> missed F now bs \<Longrightarrow> next_fire L now sched loc bs \<le> f"
proof -
  let ?n = "next_fire L now sched loc bs"
  have n: "?n \<in> F" "reference_time now bs < ?n" "\<And>f. f \<in> F \<Longrightarrow> reference_time now bs < f \<Longrightarrow> ?n \<le> f"
    using assms(1) by (simp_all add: cron_fires_def next_fire_def)
  show "due L now sched loc bs \<Longrightarrow> ?n \<in> missed F now bs" using n by (simp add: missed_def due_def)
  show "f \<in> missed F now bs \<Longrightarrow> ?n \<le> f" using n by (simp add: missed_def)
  show "due L now sched loc bs \<longleftrightarrow> missed F now bs \<noteq> {}"
    using n assms(2) by (fastforce simp: missed_def due_def)
qed

text \<open>A recorded run takes the oldest missed one away, and no other.\<close>

lemma missed_after_run:
  assumes "cron_fires L sched loc F" and "due L now sched loc bs" and "last_run g = Some (next_fire L now sched loc bs)"
  shows "missed F now g = missed F now bs - {next_fire L now sched loc bs}"
proof -
  have "\<not> bssSuspend (bsSpec bs)" using assms(2) by (simp add: due_def)
  note due = due_missed [OF assms(1) this]
  have ref: "now - 24 * Hour \<le> reference_time now bs"
    by (simp add: reference_time_def Let_def split: option.splits)
  have n: "reference_time now bs < next_fire L now sched loc bs" using due(2) [OF assms(2)] by (simp add: missed_def)
  with ref have "reference_time now g = next_fire L now sched loc bs"
    using assms(3) by (simp add: reference_time_def)
  with n due(3) [of _ now] show ?thesis by (fastforce simp: missed_def)
qed

section \<open>Repeated reconciles\<close>

primrec turns :: "nat \<Rightarrow> ('w, 'a) io \<Rightarrow> 'w sys \<Rightarrow> 'w sys" where
  "turns 0 m s = s"
| "turns (Suc n) m s = turns n m (snd (run_state m s))"

lemma trace_turn: "set (trace s) \<subseteq> set (trace (snd (run_state (BackupSchedule_Reconcile L injected C req) s)))"
  using schedule_shape_holds [of L injected C req] by (auto simp: produces_def dest!: spec [of _ s])

lemma trace_turns: "set (trace s) \<subseteq> set (trace (turns n (BackupSchedule_Reconcile L injected C req) s))"
  by (induction n arbitrary: s) (auto dest: subsetD [OF trace_turn])


context api_server
begin

lemma catch_up_turn:
  fixes s :: "'w sys"
  assumes "owner_law L" and "permutes L" and stored: "fmlookup (clBackupSchedules (view (world s))) (object_key (bsMeta bs)) = Some bs"
    and parsed: "schedule_parsed L bs = Some (loc, sched)" and fires: "cron_fires L sched loc F"
    and due: "due L now sched loc bs"
  obtains g m where
    "fmlookup (clBackupSchedules (view (world (snd (run_state
       (BackupSchedule_Reconcile L (Some (\<lambda>w. (now, w))) C (object_key (bsMeta bs))) s))))) (object_key (bsMeta bs)) = Some g"
    and "same_schedule g bs" and "missed F now g = missed F now bs - {next_fire L now sched loc bs}"
    and "EvCreate (OBackup (scheduled_backup bs (next_fire L now sched loc bs)\<lparr>bMeta := m\<rparr>)) \<in> set (trace (snd (run_state
       (BackupSchedule_Reconcile L (Some (\<lambda>w. (now, w))) C (object_key (bsMeta bs))) s)))"
proof -
  let ?run = "BackupSchedule_Reconcile L (Some (\<lambda>w. (now, w))) C (object_key (bsMeta bs))"
  let ?f = "next_fire L now sched loc bs"
  have keyed: "keyed_backups (clBackups (view (world s)))" using backups_keyed by blast
  note eff = ensures_resultD [OF schedule_effect_at [where now = now, OF assms(1,2) keyed stored]]
  from eff obtain g m2 where g: "same_schedule g bs" "last_run g = Some ?f"
    and c': "view (world (snd (run_state ?run s))) = put_run bs g m2 (view (world s))"
    unfolding schedule_run_at_def parsed option.case prod.case if_P [OF due] by blast
  from schedules.get_found [OF stored] obtain w where
    get: "opGet (BackupSchedules C) (object_key (bsMeta bs)) (world s) = (Inr bs, w)" by blast
  from due_run_creates [where s = s, OF assms(1) get parsed due] obtain m rest where
    "events ?run s = EvRead (OBackupSchedule bs) # EvCreate (OBackup (scheduled_backup bs ?f\<lparr>bMeta := m\<rparr>)) # rest" by blast
  then have "EvCreate (OBackup (scheduled_backup bs ?f\<lparr>bMeta := m\<rparr>)) \<in> set (events ?run s)" by simp
  then have "EvCreate (OBackup (scheduled_backup bs ?f\<lparr>bMeta := m\<rparr>)) \<in> set (trace (snd (run_state ?run s)))"
    unfolding events_def by (rule in_set_dropD)
  with that [of g m] g c' missed_after_run [OF fires due] show thesis by simp
qed

lemma catch_up_turns:
  fixes s :: "'w sys"
  assumes "owner_law L" and "permutes L" and "fmlookup (clBackupSchedules (view (world s))) (object_key (bsMeta bs)) = Some bs"
    and "schedule_parsed L bs = Some (loc, sched)" and "cron_fires L sched loc F" and "\<not> bssSuspend (bsSpec bs)"
    and "n \<le> card (missed F now bs)"
  shows "\<exists>g. fmlookup (clBackupSchedules (view (world (turns n
        (BackupSchedule_Reconcile L (Some (\<lambda>w. (now, w))) C (object_key (bsMeta bs))) s)))) (object_key (bsMeta bs)) = Some g
    \<and> same_schedule g bs \<and> missed F now g \<subseteq> missed F now bs \<and> card (missed F now g) = card (missed F now bs) - n
    \<and> (\<forall>f \<in> missed F now bs - missed F now g. \<exists>m. EvCreate (OBackup (scheduled_backup bs f\<lparr>bMeta := m\<rparr>)) \<in> set (trace
         (turns n (BackupSchedule_Reconcile L (Some (\<lambda>w. (now, w))) C (object_key (bsMeta bs))) s)))"
  using assms(3-)
proof (induction n arbitrary: s bs)
  case (Suc n)
  let ?k = "object_key (bsMeta bs)" and ?f = "next_fire L now sched loc bs"
  let ?run = "BackupSchedule_Reconcile L (Some (\<lambda>w. (now, w))) C ?k"
  let ?s = "snd (run_state ?run s)"
  note due = due_missed [OF Suc.prems(3,4)]
  have d: "due L now sched loc bs" using Suc.prems(5) due(1) by fastforce
  from catch_up_turn [OF assms(1,2) Suc.prems(1,2,3) d] obtain h m where
    h: "fmlookup (clBackupSchedules (view (world ?s))) ?k = Some h" "same_schedule h bs"
      "missed F now h = missed F now bs - {?f}"
    and made: "EvCreate (OBackup (scheduled_backup bs ?f\<lparr>bMeta := m\<rparr>)) \<in> set (trace ?s)" .
  have f: "?f \<in> missed F now bs" by (rule due(2) [OF d])
  have card: "card (missed F now h) = card (missed F now bs) - 1" using f by (simp add: h(3))
  have same: "schedule_parsed L h = Some (loc, sched)" "\<not> bssSuspend (bsSpec h)" "object_key (bsMeta h) = ?k"
    "scheduled_backup h = scheduled_backup bs"
    using h(2) Suc.prems(2,4) by (simp_all add: schedule_parsed_def scheduled_backup_def fun_eq_iff)
  have "n \<le> card (missed F now h)" using Suc.prems(5) card by simp
  from Suc.IH [where s = ?s and bs = h, unfolded same, OF h(1) refl Suc.prems(3) _ this] Suc.prems(4) same
  obtain g where g: "fmlookup (clBackupSchedules (view (world (turns n ?run ?s)))) ?k = Some g" "same_schedule g h"
    "missed F now g \<subseteq> missed F now h" "card (missed F now g) = card (missed F now h) - n"
    and rest: "\<forall>f \<in> missed F now h - missed F now g.
        \<exists>m. EvCreate (OBackup (scheduled_backup bs f\<lparr>bMeta := m\<rparr>)) \<in> set (trace (turns n ?run ?s))"
    by auto
  have "EvCreate (OBackup (scheduled_backup bs ?f\<lparr>bMeta := m\<rparr>)) \<in> set (trace (turns n ?run ?s))"
    using made trace_turns by blast
  with g h rest card show ?case by (intro exI [of _ g]) (auto simp del: split_paired_Ex)
qed simp

end


text \<open>C17. Catching up ends: at an instant at which \<open>n\<close> runs are missed, exactly \<open>n\<close> reconciles of the schedule are
  due. Each of them records one run, and after them nothing is missed, the schedule is not due any more and
  the creation of the Backup of every missed run was sent. (A schedule that was just created has missed
  every run of the last 24 hours.)\<close>

theorem missed_runs_are_made_up:
  assumes "api_server C view" and "owner_law L" and "newest_first (SortNewestFirst L)"
    and "fmlookup (clBackupSchedules (view (world s))) (object_key (bsMeta bs)) = Some bs"
    and "schedule_parsed L bs = Some (loc, sched)" and "cron_fires L sched loc F" and "\<not> bssSuspend (bsSpec bs)"
  shows "let run = BackupSchedule_Reconcile L (Some (\<lambda>w. (now, w))) C (object_key (bsMeta bs)); n = card (missed F now bs) in
    (\<forall>i < n. \<exists>g. fmlookup (clBackupSchedules (view (world (turns i run s)))) (object_key (bsMeta bs)) = Some g
       \<and> due L now sched loc g)
    \<and> (\<exists>g. fmlookup (clBackupSchedules (view (world (turns n run s)))) (object_key (bsMeta bs)) = Some g
       \<and> missed F now g = {} \<and> \<not> due L now sched loc g)
    \<and> (\<forall>f \<in> missed F now bs. \<exists>m. EvCreate (OBackup (scheduled_backup bs f\<lparr>bMeta := m\<rparr>)) \<in> set (trace (turns n run s)))"
proof -
  let ?run = "BackupSchedule_Reconcile L (Some (\<lambda>w. (now, w))) C (object_key (bsMeta bs))"
  let ?n = "card (missed F now bs)"
  note turn = api_server.catch_up_turns [where now = now, OF assms(1,2) newest_permutes [OF assms(3)] assms(4-7)]
  have before: "\<exists>g. fmlookup (clBackupSchedules (view (world (turns i ?run s)))) (object_key (bsMeta bs)) = Some g
      \<and> due L now sched loc g" if "i < ?n" for i
  proof -
    from turn [of i] that obtain g where g: "fmlookup (clBackupSchedules (view (world (turns i ?run s)))) (object_key (bsMeta bs)) = Some g"
      "same_schedule g bs" "card (missed F now g) = ?n - i"
      by auto
    then have "missed F now g \<noteq> {}" "\<not> bssSuspend (bsSpec g)" using that assms(7) by auto
    with due_missed(1) [OF assms(6)] g(1) show ?thesis by blast
  qed
  from turn [OF order_refl] obtain g where g: "fmlookup (clBackupSchedules (view (world (turns ?n ?run s)))) (object_key (bsMeta bs)) = Some g"
    "same_schedule g bs" "card (missed F now g) = 0"
    and made: "\<forall>f \<in> missed F now bs - missed F now g.
        \<exists>m. EvCreate (OBackup (scheduled_backup bs f\<lparr>bMeta := m\<rparr>)) \<in> set (trace (turns ?n ?run s))"
    by auto
  have none: "missed F now g = {}" using g(3) by simp
  moreover have "\<not> due L now sched loc g" using due_missed(1) [OF assms(6), of g now] none g(2) assms(7) by simp
  ultimately show ?thesis unfolding Let_def using before g(1) made by blast
qed

text \<open>C18. No run is missed: a reconcile of a schedule at an instant \<open>now\<close> asks to run again after exactly the time
  to the next fire time, but at least a minute; and the next reconcile, at that time or later, but less than a
  day after the fire time, sends the creation of a Backup of that fire time or an earlier one that is still
  missed, before it does anything else.\<close>

theorem no_run_is_missed:
  assumes "api_server C view" and "api_server C' view" and "owner_law L" and "newest_first (SortNewestFirst L)"
    and "fmlookup (clBackupSchedules (view (world s))) (object_key (bsMeta bs)) = Some bs"
    and "schedule_parsed L bs = Some (loc, sched)" and "cron_fires L sched loc F" and "\<not> bssSuspend (bsSpec bs)"
    and "\<forall>l. bssLastScheduleTime (bsStatus bs) = Some l \<longrightarrow> l \<le> now" and "\<forall>w. fst (Clock C w) = now"
    and "CronNext L sched loc now - now < 2 ^ 63"
    and "result (BackupSchedule_Reconcile L (Some (\<lambda>w. (now, w))) C (object_key (bsMeta bs))) s = (Result wait, None)"
    and "view (world s') = cluster_after view (BackupSchedule_Reconcile L (Some (\<lambda>w. (now, w))) C (object_key (bsMeta bs))) s"
    and "now + wait \<le> later" and "later < CronNext L sched loc now + 24 * Hour"
  shows "wait = max (CronNext L sched loc now - now) Minute
    \<and> (\<exists>bs' fire m rest. events (BackupSchedule_Reconcile L (Some (\<lambda>w. (later, w))) C' (object_key (bsMeta bs))) s' =
          EvRead (OBackupSchedule bs') # EvCreate (OBackup (scheduled_backup bs fire\<lparr>bMeta := m\<rparr>)) # rest
        \<and> fire \<in> missed F later bs' \<and> fire \<le> CronNext L sched loc now)"
proof -
  let ?k = "object_key (bsMeta bs)" and ?next = "CronNext L sched loc now"
  let ?run = "BackupSchedule_Reconcile L (Some (\<lambda>w. (now, w))) C ?k"
  have keyed: "keyed_backups (clBackups (view (world s)))" using api_server.backups_keyed [OF assms(1)] by blast
  note eff = ensures_after [OF api_server.schedule_effect_at [where now = now, OF assms(1,3) newest_permutes [OF assms(4)] keyed assms(5)]]
  from eff obtain g m1 m2 wall where g: "same_schedule g bs"
    and run: "if due L now sched loc bs then spawn_effect bs (next_fire L now sched loc bs) (clBackups (view (world s))) m1
               \<and> last_run g = Some (next_fire L now sched loc bs)
             else m1 = clBackups (view (world s)) \<and> last_run g = last_run bs"
    and c': "cluster_after view ?run s = put_run bs g m2 (view (world s))"
    and wall: "wall \<in> range (\<lambda>w. fst (Clock C w))" and r: "result ?run s = (Result (max (time_sub ?next wall) Minute), None)"
    unfolding schedule_run_at_def assms(6) option.case prod.case by blast
  have coming: "?next \<in> F" "now < ?next" using assms(7) by (simp_all add: cron_fires_def)
  have "wall = now" using wall assms(10) by auto
  with r assms(12) have wait: "wait = max (time_sub ?next now) Minute" by simp
  then have wait': "wait = max (?next - now) Minute" using coming assms(11) by (simp add: time_sub_def)
  have last: "l \<le> now" if "last_run g = Some l" for l
    using run that assms(9) by (auto simp: due_def split: if_splits)
  have same: "schedule_parsed L g = Some (loc, sched)" "\<not> bssSuspend (bsSpec g)" "scheduled_backup g = scheduled_backup bs"
    using g assms(6,8) by (simp_all add: schedule_parsed_def scheduled_backup_def fun_eq_iff)
  have "reference_time later g < ?next"
    using last coming assms(15) by (auto simp: reference_time_def Let_def split: option.splits)
  moreover have "?next \<le> later" using wait' assms(14) by simp
  ultimately have missed: "?next \<in> missed F later g" using coming by (simp add: missed_def)
  note due = due_missed [OF assms(7) same(2)]
  have d: "due L later sched loc g" using due(1) missed by blast
  have "fmlookup (clBackupSchedules (view (world s'))) ?k = Some g" using assms(13) c' by simp
  with api_kind.get_found [OF api_server.axioms(4) [OF assms(2)]] obtain w where
    "opGet (BackupSchedules C') ?k (world s') = (Inr g, w)" by blast
  from due_run_creates [where s = s', OF assms(3) this same(1) d] obtain m rest where
    "events (BackupSchedule_Reconcile L (Some (\<lambda>w. (later, w))) C' ?k) s' = EvRead (OBackupSchedule g)
      # EvCreate (OBackup (scheduled_backup bs (next_fire L later sched loc g)\<lparr>bMeta := m\<rparr>)) # rest"
    unfolding same(3) by blast
  with wait' due(2) [OF d] due(3) [OF missed] show ?thesis by blast
qed


section \<open>Witnesses\<close>

text \<open>An hourly schedule that has last run at 22:00, at five nanoseconds past midnight.\<close>

definition lagging_cluster :: cluster where
  "lagging_cluster = demo_cluster\<lparr>clBackupSchedules :=
     fmupd (''games'', ''nightly'') (demo_schedule 1 (Some (22 * Hour))) fmempty\<rparr>"

definition full_hours :: "gotime set" where
  "full_hours = range (\<lambda>k. Hour * k)"

lemma hour_pos: "0 < Hour"
  by (simp add: Hour_def Minute_def Second_def)

lemma demo_hourly: "cron_fires demo_lib sched loc full_hours"
  unfolding cron_fires_def full_hours_def
proof (intro allI conjI ballI impI)
  fix t f :: gotime
  have "t - t mod Hour + Hour = Hour * (t div Hour + 1)"
    by (simp add: algebra_simps minus_mod_eq_mult_div)
  then have eq: "CronNext demo_lib sched loc t = Hour * (t div Hour + 1)" by simp
  then show "CronNext demo_lib sched loc t \<in> range ((*) Hour)" by blast
  show "t < CronNext demo_lib sched loc t" using pos_mod_bound [OF hour_pos, of t] by simp
  assume "f \<in> range ((*) Hour)" and "t < f"
  then obtain k where k: "f = Hour * k" by blast
  have "t div Hour < k"
  proof (rule ccontr)
    assume "\<not> t div Hour < k"
    then have "Hour * k \<le> Hour * (t div Hour)" using hour_pos by (intro mult_left_mono) simp_all
    also have "\<dots> \<le> t" using mult_div_mod_eq [of Hour t] pos_mod_sign [OF hour_pos, of t] by linarith
    finally show False using \<open>t < f\<close> k by simp
  qed
  then show "CronNext demo_lib sched loc t \<le> f" unfolding eq k using hour_pos by simp
qed

lemma lagging_view [simp]: "store_view (world (in_store lagging_cluster)) = lagging_cluster"
  by (simp add: in_store_view keyed_cluster_def lagging_cluster_def demo_cluster_def keyed_view_upd object_key_def demo_defs)

lemma lagging_facts:
  "schedule_parsed demo_lib (demo_schedule 1 r) = Some (UTC, ''0 * * * *'')"
  "object_key (bsMeta (demo_schedule 1 r)) = (''games'', ''nightly'')" "\<not> bssSuspend (bsSpec (demo_schedule 1 r))"
  "bssLastScheduleTime (bsStatus (demo_schedule 1 r)) = r"
  "fmlookup (clBackupSchedules lagging_cluster) (''games'', ''nightly'') = Some (demo_schedule 1 (Some (22 * Hour)))"
  by (simp_all add: schedule_parsed_def loadLocation_def lagging_cluster_def object_key_def demo_defs)

lemma lagging_missed: "missed full_hours (24 * Hour + 5) (demo_schedule 1 (Some (22 * Hour))) = {23 * Hour, 24 * Hour}"
proof -
  have hour: "Hour = 3600000000000" by (simp add: Hour_def Minute_def Second_def)
  have ref: "reference_time (24 * Hour + 5) (demo_schedule 1 (Some (22 * Hour))) = 22 * Hour"
    by (simp add: reference_time_def lagging_facts hour)
  have "f \<in> {23 * Hour, 24 * Hour}" if "f = Hour * k" "22 * Hour < f" "f \<le> 24 * Hour + 5" for f k
  proof -
    have "22 < k" "k < 25" using that unfolding hour by linarith+
    then have "k = 23 \<or> k = 24" by linarith
    with that show ?thesis by (auto simp: mult.commute)
  qed
  moreover have "23 * Hour \<in> full_hours" "24 * Hour \<in> full_hours"
    by (auto simp: full_hours_def mult.commute intro: range_eqI [of _ _ 23] range_eqI [of _ _ 24])
  ultimately show ?thesis
    unfolding missed_def ref by (auto simp: full_hours_def hour)
qed


theorem missed_runs_are_made_up_witness:
  "let run = BackupSchedule_Reconcile demo_lib (Some (\<lambda>w. (24 * Hour + 5, w))) store_client (''games'', ''nightly'');
       s = turns 2 run (in_store lagging_cluster)
   in \<forall>f \<in> {23 * Hour, 24 * Hour}.
        \<exists>m. EvCreate (OBackup (scheduled_backup (demo_schedule 1 (Some (22 * Hour))) f\<lparr>bMeta := m\<rparr>)) \<in> set (trace s)"
proof -
  have two: "card {23 * Hour, 24 * Hour} = 2" using hour_pos by simp
  have "fmlookup (clBackupSchedules (store_view (world (in_store lagging_cluster))))
      (object_key (bsMeta (demo_schedule 1 (Some (22 * Hour))))) = Some (demo_schedule 1 (Some (22 * Hour)))"
    unfolding lagging_view lagging_facts(2) by (rule lagging_facts(5))
  from missed_runs_are_made_up [OF store.api_server_axioms demo_owner_law demo_newest_first this
      lagging_facts(1) demo_hourly lagging_facts(3), of "24 * Hour + 5", unfolded lagging_missed lagging_facts(2) two]
  show ?thesis unfolding Let_def by blast
qed

lemma frozen_server: "api_server (store_client\<lparr>Clock := \<lambda>w. (t, w)\<rparr>) store_view"
  using store.api_server_axioms by (simp add: api_server_def api_server_axioms_def)

theorem no_run_is_missed_witness:
  "let C = store_client\<lparr>Clock := \<lambda>w. (22 * Hour, w)\<rparr>; k = (''games'', ''nightly'');
       run = BackupSchedule_Reconcile demo_lib (Some (\<lambda>w. (22 * Hour, w))) C k
   in result run (in_store lagging_cluster) = (Result Hour, None)
     \<and> (\<exists>bs' fire m rest. events (BackupSchedule_Reconcile demo_lib (Some (\<lambda>w. (23 * Hour, w))) store_client k)
            (snd (run_state run (in_store lagging_cluster))) =
          EvRead (OBackupSchedule bs') # EvCreate (OBackup (scheduled_backup (demo_schedule 1 (Some (22 * Hour))) fire\<lparr>bMeta := m\<rparr>)) # rest
          \<and> fire \<le> 23 * Hour)"
proof -
  let ?C = "store_client\<lparr>Clock := \<lambda>w. (22 * Hour, w)\<rparr>" and ?s = "in_store lagging_cluster"
  let ?run = "BackupSchedule_Reconcile demo_lib (Some (\<lambda>w. (22 * Hour, w))) ?C (''games'', ''nightly'')"
  let ?bs = "demo_schedule 1 (Some (22 * Hour))"
  have hour: "Hour = 3600000000000" by (simp add: Hour_def Minute_def Second_def)
  have next_hour: "CronNext demo_lib sched loc (22 * Hour) = 23 * Hour" for sched loc by (simp add: hour)
  have stored: "fmlookup (clBackupSchedules (store_view (world ?s))) (object_key (bsMeta ?bs)) = Some ?bs"
    unfolding lagging_view lagging_facts(2) by (rule lagging_facts(5))
  have keyed: "keyed_backups (clBackups (store_view (world ?s)))"
    using api_server.backups_keyed [OF frozen_server] by blast
  from ensures_after [OF api_server.schedule_effect_at [where now = "22 * Hour", OF frozen_server demo_owner_law
      newest_permutes [OF demo_newest_first] keyed stored]]
  obtain wall where "wall \<in> range (\<lambda>w. fst (Clock ?C w))"
    and r: "result ?run ?s = (Result (max (time_sub (CronNext demo_lib ''0 * * * *'' UTC (22 * Hour)) wall) Minute), None)"
    unfolding schedule_run_at_def lagging_facts(1,2) option.case prod.case by blast
  then have "wall = 22 * Hour" by auto
  with r have wait: "result ?run ?s = (Result Hour, None)"
    unfolding next_hour by (simp add: time_sub_def hour Minute_def Second_def)
  note run = no_run_is_missed [where now = "22 * Hour" and s = ?s and bs = ?bs and s' = "snd (run_state ?run ?s)"
      and C' = store_client and later = "23 * Hour" and wait = Hour and F = full_hours,
      OF frozen_server store.api_server_axioms demo_owner_law demo_newest_first stored lagging_facts(1) demo_hourly
        lagging_facts(3), unfolded lagging_facts(2,4) next_hour]
  with run wait show ?thesis
    by (simp add: Let_def cluster_after_def hour) blast
qed

end
