(* ===== verification/ServerFailures.thy ===== *)
theory ServerFailures
  imports Convergence
begin

text \<open>
  The runs of a GameServer that end early, over a cluster whose API server keeps the contract of theory
  \<open>Cluster\<close>: the template is missing, the configuration is invalid, the restore source is not ready, or the
  storage size does not parse. \<open>blocked_by\<close> says from the cluster which of them it is, and
  \<open>failure_effect\<close> what such a run leaves behind.
\<close>

declare ConditionTrue_def [simp del] ConditionFalse_def [simp del] ConditionReady_def [simp del]
  ConditionTemplateResolved_def [simp del] ConditionConfigValid_def [simp del]
  ConditionRestoreSourceResolved_def [simp del] PhasePending_def [simp del] PhaseDegraded_def [simp del]
  SecurityProfileAnyUID_def [simp del] Second_def [simp del]

section \<open>The specification\<close>

text \<open>The condition that becomes False, its reason, the new phase if there is one, and the delay.\<close>

type_synonym failure = "string \<times> string \<times> string option \<times> duration"

definition blocked_by :: "lib \<Rightarrow> cluster \<Rightarrow> game_server \<Rightarrow> failure option" where
  "blocked_by L c gs =
     (case fmlookup (clGameTemplates c) ('''', gsTemplateRefName (gsSpec gs)) of
        None \<Rightarrow> Some (ConditionTemplateResolved, ''NotFound'', Some PhasePending, 30 * Second)
      | Some tpl \<Rightarrow>
          if ValidateConfig L gs tpl \<noteq> None then
            Some (ConditionConfigValid, ''Invalid'', Some PhaseDegraded, 30 * Second)
          else if \<not> restore_ready c gs then
            Some (ConditionRestoreSourceResolved, ''Unavailable'', Some PhaseDegraded, 30 * Second)
          else (case ParseQuantity L (storage_size gs tpl) of
              Inl _ \<Rightarrow> Some (ConditionConfigValid, ''InvalidStorage'', None, 0)
            | Inr _ \<Rightarrow> None))"

text \<open>The accounts after such a run: the profile's account is only ensured behind a valid configuration.\<close>

definition blocked_accounts :: "lib \<Rightarrow> cluster \<Rightarrow> game_server \<Rightarrow> (key, service_account) fmap \<Rightarrow> bool" where
  "blocked_accounts L c gs m \<longleftrightarrow>
     (case fmlookup (clGameTemplates c) ('''', gsTemplateRefName (gsSpec gs)) of
        None \<Rightarrow> m = clServiceAccounts c
      | Some tpl \<Rightarrow> if ValidateConfig L gs tpl \<noteq> None then m = clServiceAccounts c else accounts_after c gs tpl m)"

definition failure_reported :: "failure \<Rightarrow> game_server \<Rightarrow> game_server \<Rightarrow> bool" where
  "failure_reported f gs g \<longleftrightarrow>
     (case f of (t, reason, ph, _) \<Rightarrow>
        same_object g gs \<and> (\<exists>msg. reports g t ConditionFalse reason msg)
        \<and> gsPhase (gsStatus g) = (case ph of None \<Rightarrow> gsPhase (gsStatus gs) | Some p \<Rightarrow> p)
        \<and> gsAddress (gsStatus g) = gsAddress (gsStatus gs)
        \<and> gsReadyReplicas (gsStatus g) = gsReadyReplicas (gsStatus gs)
        \<and> gsObservedGeneration (gsStatus g) = gsObservedGeneration (gsStatus gs)
        \<and> find_cond ConditionReady (gsConditions (gsStatus g)) = find_cond ConditionReady (gsConditions (gsStatus gs)))"

definition failure_effect :: "lib \<Rightarrow> cluster \<Rightarrow> game_server \<Rightarrow> failure \<Rightarrow> outcome \<Rightarrow> cluster \<Rightarrow> bool" where
  "failure_effect L c gs f r c' \<longleftrightarrow>
     (\<exists>m g. blocked_accounts L c gs m \<and> failure_reported f gs g
        \<and> c' = c\<lparr>clServiceAccounts := m, clGameServers := fmupd (object_key (gsMeta gs)) g (clGameServers c)\<rparr>
        \<and> r = (Result (snd (snd (snd f))), None))"

lemma failure_effectI:
  assumes "blocked_accounts L c0 gs m" and "c = c0\<lparr>clServiceAccounts := m\<rparr>" and "failure_reported f gs g"
    and "r = (Result (snd (snd (snd f))), None)"
    and "c' = c\<lparr>clGameServers := fmupd (object_key (gsMeta gs)) g (clGameServers c)\<rparr>"
  shows "failure_effect L c0 gs f r c'"
  unfolding failure_effect_def by (intro exI conjI, rule assms(1), rule assms(3)) (simp_all add: assms(2,4,5))

text \<open>A server that is not blocked, and whose template the schema admits, runs to its end.\<close>

lemma blocked_or_runnable:
  assumes "fmlookup (clGameServers c) (object_key (gsMeta gs)) = Some gs" and "blocked_by L c gs = None"
    and "\<And>tpl. fmlookup (clGameTemplates c) ('''', gsTemplateRefName (gsSpec gs)) = Some tpl \<Longrightarrow>
      distinct (map tpName (tplPorts (tplSpec tpl)))
      \<and> list_all (\<lambda>p. fst (resolveExposure gs p) \<in> exposure_types) (tplPorts (tplSpec tpl))"
  shows "\<exists>tpl. runnable L c gs tpl"
  using assms by (auto simp: blocked_by_def runnable_def split: option.splits if_splits sum.splits)

section \<open>The stages\<close>

text \<open>What a failure leaves of the status that the run has prepared so far.\<close>

lemma kept_status:
  assumes "same_object g gs" and "gsPhase (gsStatus g) = gsPhase (gsStatus gs)"
    and "gsAddress (gsStatus g) = gsAddress (gsStatus gs)" and "gsReadyReplicas (gsStatus g) = gsReadyReplicas (gsStatus gs)"
    and "gsObservedGeneration (gsStatus g) = gsObservedGeneration (gsStatus gs)"
    and "find_cond ConditionReady (gsConditions (gsStatus g)) = find_cond ConditionReady (gsConditions (gsStatus gs))"
    and "t \<noteq> ConditionReady"
  shows "failure_reported (t, reason, Some ph, d) gs
      (gs\<lparr>gsStatus := gsStatus (set_phase ph (setCondition now g t ConditionFalse reason msg))\<rparr>)"
    and "failure_reported (t, reason, None, d) gs
      (gs\<lparr>gsStatus := gsStatus (setCondition now g t ConditionFalse reason msg)\<rparr>)"
proof -
  let ?h = "setCondition now g t ConditionFalse reason msg"
  have "reports (gs\<lparr>gsStatus := gsStatus ?h\<rparr>) t ConditionFalse reason msg = reports ?h t ConditionFalse reason msg"
    using assms(1) by (intro reports_cong) simp_all
  moreover have "reports (gs\<lparr>gsStatus := gsStatus (set_phase ph ?h)\<rparr>) t ConditionFalse reason msg =
      reports ?h t ConditionFalse reason msg"
    using assms(1) by (intro reports_cong) (simp_all add: set_phase_def)
  ultimately show "failure_reported (t, reason, Some ph, d) gs (gs\<lparr>gsStatus := gsStatus (set_phase ph ?h)\<rparr>)"
    "failure_reported (t, reason, None, d) gs (gs\<lparr>gsStatus := gsStatus ?h\<rparr>)"
    using assms(2-7) by (auto simp: failure_reported_def set_phase_def gs_cond.lookup_other)
qed

abbreviation resolved_server :: "gotime \<Rightarrow> game_server \<Rightarrow> game_server" where
  "resolved_server t gs \<equiv> setCondition t gs ConditionTemplateResolved ConditionTrue ''Resolved'' ''GameTemplate resolved''"

abbreviation checked_server :: "gotime \<Rightarrow> gotime \<Rightarrow> game_server \<Rightarrow> game_server" where
  "checked_server t t' gs \<equiv> setCondition t' (resolved_server t gs) ConditionConfigValid ConditionTrue ''Valid''
     ''config satisfies template''"

context api_server
begin

lemma report_failure_effect:
  assumes "same_object g gs" and "fmlookup (clGameServers c) (object_key (gsMeta gs)) = Some gs"
    and "\<And>now. Q (Result (30 * Second), None) (c\<lparr>clGameServers := fmupd (object_key (gsMeta gs))
        (gs\<lparr>gsStatus := gsStatus (set_phase ph (setCondition now g t ConditionFalse reason msg))\<rparr>) (clGameServers c)\<rparr>)"
  shows "ensures view c (report_failure C g t reason msg ph) Q"
  unfolding report_failure_def updateStatus_def
proof (rule ensures_bind, rule set_condition_effect, rule ensures_bind,
    rule servers.ensures_StatusUpdate [where z = gs], goal_cases)
  case (1 now)
  with assms(1,2) show ?case by (simp add: set_phase_def)
next
  case (2 now)
  with assms(1) assms(3) [of now] show ?case
    by (auto simp: cluster_put set_phase_def intro!: ensures_return)
qed

lemma blocked_restore_effect:
  assumes "same_object g gs" and "\<not> restore_ready c gs" and "\<And>e. Q (Inl e) c"
  shows "ensures view c (resolveRestoreSource C g) Q"
proof (cases "gsRestoreFrom (gsSpec gs)")
  case (Some n)
  show ?thesis
    unfolding resolveRestoreSource_def assms(1) [THEN conjunct2] Some option.case
      same_object_names [OF assms(1)] assms(1) [THEN conjunct1]
    using assms(2,3) Some
    by (auto simp: restore_ready_def intro!: ensures_bind claims.ensures_Get backups.ensures_Get ensures_return)
qed (use assms in \<open>simp add: restore_ready_def\<close>)


lemma invalid_storage_effect:
  assumes "same_object g gs" and "fmlookup (clGameServers c) (object_key (gsMeta gs)) = Some gs"
    and "ParseQuantity L (storage_size gs tpl) = Inl e"
    and "\<And>now msg. Q (Result 0, None) (c\<lparr>clGameServers := fmupd (object_key (gsMeta gs))
        (gs\<lparr>gsStatus := gsStatus (setCondition now g ConditionConfigValid ConditionFalse ''InvalidStorage'' msg)\<rparr>)
        (clGameServers c)\<rparr>)"
  shows "ensures view c (reconcile_pvc L C g tpl snap) Q"
proof -
  obtain err where "BuildPVC L g tpl snap = Inl err"
    unfolding same_object_builders(2) [OF assms(1)] using assms(3) by (simp add: BuildPVC_eq)
  then show ?thesis
    unfolding reconcile_pvc_def updateStatus_def
  proof (simp only: sum.case, intro ensures_bind [where m = "set_condition_now _ _ _ _ _ _"] set_condition_effect,
      intro ensures_bind, goal_cases)
    case (1 now)
    show ?case
      by (rule servers.ensures_StatusUpdate [where z = gs])
        (use assms(1,2) assms(4) [of now] in \<open>auto simp: cluster_put intro!: ensures_return\<close>)
  qed
qed

lemma storage_blocked_effect:
  assumes gs: "fmlookup (clGameServers c) (object_key (gsMeta gs)) = Some gs"
    and tpl: "fmlookup (clGameTemplates c) ('''', gsTemplateRefName (gsSpec gs)) = Some tpl"
    and valid: "ValidateConfig L gs tpl = None"
    and blocked: "blocked_by L c gs = Some f" and m: "accounts_after c gs tpl m"
    and h: "h = checked_server t1 t2 gs"
  shows "ensures view (c\<lparr>clServiceAccounts := m\<rparr>) (reconcile_storage L C h tpl) (failure_effect L c gs f)"
proof -
  let ?c = "c\<lparr>clServiceAccounts := m\<rparr>"
  have accounts: "blocked_accounts L c gs m" using tpl valid m by (simp add: blocked_accounts_def)
  have same: "same_object h gs" and gs': "fmlookup (clGameServers ?c) (object_key (gsMeta gs)) = Some gs"
    using gs by (simp_all add: h)
  have ready: "restore_ready ?c gs = restore_ready c gs" by (simp add: restore_ready_def cong: option.case_cong)
  show ?thesis
  proof (cases "restore_ready c gs")
    case False
    then have f: "f = (ConditionRestoreSourceResolved, ''Unavailable'', Some PhaseDegraded, 30 * Second)"
      using blocked tpl valid by (simp add: blocked_by_def)
    show ?thesis
      unfolding reconcile_storage_def
    proof (rule ensures_bind, rule blocked_restore_effect [OF same], use False ready in simp, unfold sum.case,
        rule report_failure_effect [OF same gs'], goal_cases)
      case (1 e now)
      show ?case
        by (rule failure_effectI [OF accounts refl _ _ refl], unfold f, rule kept_status(1) [OF same])
          (simp_all add: h gs_cond.lookup_other)
    qed
  next
    case True
    then obtain e where e: "ParseQuantity L (storage_size gs tpl) = Inl e"
      and f: "f = (ConditionConfigValid, ''InvalidStorage'', None, 0)"
      using blocked tpl valid by (auto simp: blocked_by_def split: sum.splits)
    have last: "ensures view ?c (reconcile_pvc L C g tpl snap) (failure_effect L c gs f)"
      if g: "g = h \<or> (\<exists>t3. g = setCondition t3 h ConditionRestoreSourceResolved ConditionTrue ''SnapshotBound''
          ''restoreFrom Backup snapshot ready'')" for g snap
    proof (rule invalid_storage_effect [OF _ gs' e])
      show same': "same_object g gs" using g same by auto
      fix now msg
      show "failure_effect L c gs f (Result 0, None) (?c\<lparr>clGameServers := fmupd (object_key (gsMeta gs))
          (gs\<lparr>gsStatus := gsStatus (setCondition now g ConditionConfigValid ConditionFalse ''InvalidStorage'' msg)\<rparr>)
          (clGameServers ?c)\<rparr>)"
        by (rule failure_effectI [OF accounts refl _ _ refl], unfold f, rule kept_status(2) [OF same'])
          (use g in \<open>auto simp: h gs_cond.lookup_other\<close>)
    qed
    show ?thesis
      unfolding reconcile_storage_def
      by (rule ensures_bind, rule resolveRestoreSource_effect [OF same], use True ready in simp,
          unfold sum.case, intro ensures_bind [where m = "if _ then _ else _"] ensures_if set_condition_effect ensures_return last)
        auto
  qed
qed


lemma account_blocked_effect:
  assumes "fmlookup (clGameServers c) (object_key (gsMeta gs)) = Some gs"
    and "fmlookup (clGameTemplates c) ('''', gsTemplateRefName (gsSpec gs)) = Some tpl"
    and "ValidateConfig L gs tpl = None" and "blocked_by L c gs = Some f"
    and h: "h = checked_server t1 t2 gs"
  shows "ensures view c (if tplSecurityProfile (tplSpec tpl) \<noteq> SecurityProfileAnyUID
        then ensureServiceAccount C h else return None)
      (\<lambda>r c'. ensures view c' (case r of Some err \<Rightarrow> return (Result 0, Some err)
         | None \<Rightarrow> reconcile_storage L C h tpl) (failure_effect L c gs f))"
proof -
  note storage = storage_blocked_effect [OF assms(1-4) _ h]
  show ?thesis
  proof (cases "tplSecurityProfile (tplSpec tpl) = SecurityProfileAnyUID")
    case True
    then have "accounts_after c gs tpl (clServiceAccounts c)" by (simp add: accounts_after_def)
    from storage [OF this] True show ?thesis by (simp add: ensures_return)
  next
    case False
    have same: "gsMeta h = gsMeta gs" "desired_service_account h = desired_service_account gs"
      by (simp_all add: h, rule same_object_names(6)) simp
    have "ensures view c (ensureServiceAccount C h)
        (\<lambda>r c'. ensures view c' (case r of Some err \<Rightarrow> return (Result 0, Some err)
           | None \<Rightarrow> reconcile_storage L C h tpl) (failure_effect L c gs f))"
      by (rule ensureServiceAccount_effect, unfold option.case same, rule storage)
        (use False in \<open>auto simp: accounts_after_def simp del: DefaultServiceAccountName_def\<close>)
    with False show ?thesis by simp
  qed
qed

lemma blocked_effect:
  assumes gs: "fmlookup (clGameServers c) (object_key (gsMeta gs)) = Some gs" and blocked: "blocked_by L c gs = Some f"
  shows "ensures view c (GameServer_Reconcile L C (object_key (gsMeta gs))) (failure_effect L c gs f)"
  unfolding GameServer_Reconcile_def
proof (rule ensures_bind, rule servers.ensures_Get, goal_cases)
  case (1 x)
  with gs have x: "x = gs" by simp
  show ?case
    unfolding x sum.case
  proof (rule ensures_bind, rule templates.ensures_Get, goal_cases)
    case (1 tpl)
    have valid: "ValidateConfig L (resolved_server t gs) tpl = ValidateConfig L gs tpl" for t
      by (rule same_object_builders(4)) simp
    have accounts: "blocked_accounts L c gs (clServiceAccounts c)" if "ValidateConfig L gs tpl \<noteq> None"
      using 1(1) that by (simp add: blocked_accounts_def)
    show ?case
      unfolding sum.case
    proof (rule ensures_bind, rule set_condition_effect)
      fix now
      show "ensures view c (reconcile_resolved L C (resolved_server now gs) tpl) (failure_effect L c gs f)"
        unfolding reconcile_resolved_def valid
      proof (rule ensures_option, goal_cases)
        case valid': 1
        show ?case
          by (rule ensures_bind, rule set_condition_effect, rule ensures_bind)
            (rule account_blocked_effect [OF gs 1(1) valid' blocked refl])
      next
        case (2 err)
        then have f: "f = (ConditionConfigValid, ''Invalid'', Some PhaseDegraded, 30 * Second)"
          using blocked 1(1) by (simp add: blocked_by_def)
        show ?case
        proof (rule report_failure_effect [OF _ gs], simp)
          fix now'
          show "failure_effect L c gs f (Result (30 * Second), None) (c\<lparr>clGameServers := fmupd (object_key (gsMeta gs))
              (gs\<lparr>gsStatus := gsStatus (set_phase PhaseDegraded (setCondition now' (resolved_server now gs)
                ConditionConfigValid ConditionFalse ''Invalid'' (err_text err)))\<rparr>) (clGameServers c)\<rparr>)"
            by (rule failure_effectI [OF accounts _ _ _ refl], use 2 in simp, simp, unfold f, rule kept_status(1))
              (simp_all add: gs_cond.lookup_other)
        qed
      qed
    qed
  next
    case (2 e)
    then have f: "f = (ConditionTemplateResolved, ''NotFound'', Some PhasePending, 30 * Second)"
      and accounts: "blocked_accounts L c gs (clServiceAccounts c)"
      using blocked by (simp_all add: blocked_by_def blocked_accounts_def)
    show ?case
      unfolding sum.case if_P [OF 2(2)]
    proof (rule report_failure_effect [OF _ gs], simp)
      fix now msg
      show "failure_effect L c gs f (Result (30 * Second), None) (c\<lparr>clGameServers := fmupd (object_key (gsMeta gs))
          (gs\<lparr>gsStatus := gsStatus (set_phase PhasePending (setCondition now gs
            ConditionTemplateResolved ConditionFalse ''NotFound'' msg))\<rparr>) (clGameServers c)\<rparr>)"
        by (rule failure_effectI [OF accounts _ _ _ refl], simp, unfold f, rule kept_status(1)) simp_all
    qed
  qed
qed (use gs in simp)

end

end
