(* ===== verification/FailureProperties.thy ===== *)
theory FailureProperties
  imports ServerFailures RestoreProperties
begin

text \<open>
  The error paths of a GameServer over a cluster, and what the loss of a server does to the Backups of its
  world: two reconcilers whose error paths meet in one Backup.
\<close>

declare ConditionTrue_def [simp del] ConditionFalse_def [simp del] ConditionReady_def [simp del]
  ConditionTemplateResolved_def [simp del] ConditionConfigValid_def [simp del]
  ConditionRestoreSourceResolved_def [simp del] PhasePending_def [simp del] PhaseDegraded_def [simp del]
  BackupPhasePending_def [simp del] BackupPhaseReady_def [simp del]
  SecurityProfileAnyUID_def [simp del] Second_def [simp del]

text \<open>C13. A blocked reconcile reports why and does no harm: when the template is missing, the configuration is
  invalid, the restore source is not ready or the storage size does not parse, the run returns no error, the
  condition that \<open>blocked_by\<close> names is False with its reason, the phase is Pending or Degraded (an invalid
  storage size leaves it as it was), and the run is repeated in 30 seconds (after an invalid storage size
  not at all). The rest of the reported status is kept, the condition Ready and the address included, and of
  the other objects at most the ServiceAccount of the profile is new: no claim, Deployment or Service changes.\<close>

theorem blocked_reconcile_reports:
  assumes "api_server C view" and "fmlookup (clGameServers (view (world s))) (object_key (gsMeta gs)) = Some gs"
    and "blocked_by L (view (world s)) gs = Some f"
  shows "let run = GameServer_Reconcile L C (object_key (gsMeta gs)); c = view (world s); c' = cluster_after view run s in
    result run s = (Result (snd (snd (snd f))), None)
    \<and> (\<exists>m g. blocked_accounts L c gs m \<and> failure_reported f gs g
         \<and> c' = c\<lparr>clServiceAccounts := m, clGameServers := fmupd (object_key (gsMeta gs)) g (clGameServers c)\<rparr>)"
  using ensures_after [OF api_server.blocked_effect [OF assms(1-3)]]
  unfolding failure_effect_def Let_def by blast

text \<open>The witness: the server of the demo that restores from a Backup that is not there.\<close>

definition waiting_cluster :: cluster where
  "waiting_cluster = add_server asgard demo_cluster"

lemma waiting_view [simp]: "store_view (world (in_store waiting_cluster)) = waiting_cluster"
  using in_store_add [of asgard "world demo_start"] by (simp add: waiting_cluster_def)

lemma asgard_waits:
  "blocked_by demo_lib waiting_cluster asgard =
     Some (ConditionRestoreSourceResolved, ''Unavailable'', Some PhaseDegraded, 30 * Second)"
proof -
  have "fmlookup (clGameTemplates waiting_cluster) ('''', gsTemplateRefName (gsSpec asgard)) = Some demo_template"
    "ValidateConfig demo_lib asgard demo_template = None"
    using asgard_deployable by (simp_all add: deployable_def waiting_cluster_def add_server_def saved_cluster_def)
  moreover have "\<not> restore_ready waiting_cluster asgard"
    by (simp add: restore_ready_def waiting_cluster_def add_server_def demo_cluster_def)
  ultimately show ?thesis by (simp add: blocked_by_def)
qed

theorem blocked_reconcile_reports_witness:
  "let run = GameServer_Reconcile demo_lib store_client (''games'', ''asgard'') in
     result run (in_store waiting_cluster) = (Result (30 * Second), None)
     \<and> clPVCs (cluster_after store_view run (in_store waiting_cluster)) = fmempty"
proof -
  have "fmlookup (clGameServers (store_view (world (in_store waiting_cluster)))) (object_key (gsMeta asgard)) = Some asgard"
    unfolding waiting_view by (simp add: waiting_cluster_def add_server_def)
  note run = blocked_reconcile_reports [OF store.api_server_axioms this, of demo_lib, unfolded waiting_view,
      OF asgard_waits, unfolded Let_def asgard_facts]
  have "clPVCs waiting_cluster = fmempty" by (simp add: waiting_cluster_def add_server_def demo_cluster_def)
  with run show ?thesis by (auto simp: Let_def)
qed

section \<open>A Backup without its server\<close>

text \<open>C14. The loss of a server withdraws its Backups: when the server of a Ready Backup is gone, the next
  reconcile of the Backup sets it to Pending, its snapshot untouched; a server that was ready to restore from
  it is then blocked: its reconcile reports the restore source as unavailable, creates no claim, and asks to
  run again in 30 seconds.\<close>

theorem lost_server_blocks_restore:
  assumes "api_server C view" and "owner_law L"
    and "fmlookup (clBackups (view (world s))) (object_key (bMeta b)) = Some b" and "bPhase (bStatus b) = BackupPhaseReady"
    and "fmlookup (clGameServers (view (world s))) (mNamespace (bMeta b), bGameServerRefName (bSpec b)) = None"
    and "view (world u) = add_server gs (cluster_after view (Backup_Reconcile L C (object_key (bMeta b))) s)"
    and "mNamespace (gsMeta gs) = mNamespace (bMeta b)" and "gsRestoreFrom (gsSpec gs) = Some (mName (bMeta b))"
    and "fmlookup (clPVCs (view (world s))) (mNamespace (gsMeta gs), PVCName gs) = None"
    and "deployable L (view (world s)) gs tpl"
  shows "let run = GameServer_Reconcile L C (object_key (gsMeta gs)); c' = cluster_after view run u in
    clVolumeSnapshots c' = clVolumeSnapshots (view (world s)) \<and> clPVCs c' = clPVCs (view (world s))
    \<and> (\<exists>b'. fmlookup (clBackups c') (object_key (bMeta b)) = Some b' \<and> bPhase (bStatus b') = BackupPhasePending)
    \<and> (\<exists>g msg. fmlookup (clGameServers c') (object_key (gsMeta gs)) = Some g \<and> gsPhase (gsStatus g) = PhaseDegraded
         \<and> reports g ConditionRestoreSourceResolved ConditionFalse ''Unavailable'' msg)
    \<and> result run u = (Result (30 * Second), None)"
proof -
  let ?c = "view (world s)"
  note eff = ensures_after [OF api_server.backup_effect [OF assms(1-3)]]
  from eff assms(5) obtain b' where b': "waits_for_server b b'"
    and c1: "cluster_after view (Backup_Reconcile L C (object_key (bMeta b))) s = put_backup b b' ?c"
    unfolding backup_run_effect_def by auto
  have s1: "view (world u) = add_server gs (put_backup b b' ?c)" using assms(6) c1 by simp
  have pending: "bPhase (bStatus b') = BackupPhasePending" using b' by (simp add: waits_for_server_def)
  then have "\<not> restore_ready (view (world u)) gs"
    using assms(7-9) by (simp add: restore_ready_def s1 add_server_def object_key_def BackupPhasePending_def BackupPhaseReady_def)
  then have "blocked_by L (view (world u)) gs =
      Some (ConditionRestoreSourceResolved, ''Unavailable'', Some PhaseDegraded, 30 * Second)"
    using assms(10) by (simp add: blocked_by_def deployable_def s1 add_server_def)
  note blocked = ensures_after [OF api_server.blocked_effect [OF assms(1) _ this]]
  have "fmlookup (clGameServers (view (world u))) (object_key (gsMeta gs)) = Some gs" by (simp add: s1 add_server_def)
  from blocked [OF this] obtain m g where fr: "failure_reported
        (ConditionRestoreSourceResolved, ''Unavailable'', Some PhaseDegraded, 30 * Second) gs g"
    and c': "cluster_after view (GameServer_Reconcile L C (object_key (gsMeta gs))) u =
      view (world u)\<lparr>clServiceAccounts := m, clGameServers := fmupd (object_key (gsMeta gs)) g (clGameServers (view (world u)))\<rparr>"
    and r: "result (GameServer_Reconcile L C (object_key (gsMeta gs))) u = (Result (30 * Second), None)"
    unfolding failure_effect_def by auto
  show ?thesis
    unfolding Let_def c' r using fr pending by (simp add: failure_reported_def s1 add_server_def)
qed


definition orphaned_cluster :: cluster where
  "orphaned_cluster = saved_cluster\<lparr>clGameServers := fmempty\<rparr>"

lemma orphaned_view [simp]: "store_view (world (in_store orphaned_cluster)) = orphaned_cluster"
  by (simp add: in_store_view keyed_cluster_def orphaned_cluster_def saved_cluster_def demo_cluster_def keyed_view_upd
      object_key_def demo_defs)

theorem lost_server_blocks_restore_witness:
  "let s1 = in_store (add_server asgard (cluster_after store_view
         (Backup_Reconcile demo_lib store_client (''games'', ''nightly-1'')) (in_store orphaned_cluster)))
   in bPhase (bStatus (demo_backup ''nightly-1'' 0 False)) = BackupPhaseReady
     \<and> clPVCs (cluster_after store_view (GameServer_Reconcile demo_lib store_client (''games'', ''asgard'')) s1) = fmempty"
proof -
  let ?b = "demo_backup ''nightly-1'' 0 False"
  have ready: "bPhase (bStatus ?b) = BackupPhaseReady" by (simp add: demo_backup_def)
  have "deployable demo_lib orphaned_cluster asgard demo_template"
    using asgard_deployable by (simp add: deployable_def orphaned_cluster_def)
  moreover have "clPVCs orphaned_cluster = fmempty" "clGameServers orphaned_cluster = fmempty"
    "fmlookup (clBackups orphaned_cluster) (''games'', ''nightly-1'') = Some ?b"
    by (simp_all add: orphaned_cluster_def)
  ultimately show ?thesis
    using lost_server_blocks_restore [OF store.api_server_axioms demo_owner_law,
        where b = ?b and s = "in_store orphaned_cluster" and gs = asgard and tpl = demo_template and u =
          "in_store (add_server asgard (cluster_after store_view
             (Backup_Reconcile demo_lib store_client (''games'', ''nightly-1'')) (in_store orphaned_cluster)))"] ready
    by (simp add: Let_def cluster_after_def [of store_view "Backup_Reconcile _ _ _"])
qed

end
