(* ===== verification/Faults.thy ===== *)
theory Faults
  imports GameServerController BackupController ScheduleController TemplateController
begin

text \<open>
  API calls that fail. \<open>watched C\<close> is the client \<open>C\<close> with a counter of its failures: every error is one, but
  the answer of a read that the object does not exist. The logic \<open>faults\<close> says what a program returns, given
  whether a call of it failed; with it every branch of the four reconcilers is checked.
\<close>

section \<open>Counting failures\<close>

definition tick :: "(go_error \<Rightarrow> bool) \<Rightarrow> (go_error + 'a) \<times> 'w \<Rightarrow> nat \<Rightarrow> (go_error + 'a) \<times> ('w \<times> nat)" where
  "tick fails p n = (case p of (r, w) \<Rightarrow> (r, (w, (case r of Inl e \<Rightarrow> if fails e then Suc n else n | Inr _ \<Rightarrow> n))))"

definition watch_ops :: "('w, 'o) ops \<Rightarrow> ('w \<times> nat, 'o) ops" where
  "watch_ops ops =
     \<lparr>opGet = (\<lambda>k (w, n). tick (\<lambda>e. \<not> IsNotFound e) (opGet ops k w) n),
      opList = (\<lambda>ns ls (w, n). tick (\<lambda>_. True) (opList ops ns ls w) n),
      opCreate = (\<lambda>x (w, n). tick (\<lambda>_. True) (opCreate ops x w) n),
      opUpdate = (\<lambda>x (w, n). tick (\<lambda>_. True) (opUpdate ops x w) n),
      opStatusUpdate = (\<lambda>x (w, n). tick (\<lambda>_. True) (opStatusUpdate ops x w) n),
      opDelete = (\<lambda>x (w, n). (case opDelete ops x w of (r, w') \<Rightarrow> (r, (w', if r = None then n else Suc n))))\<rparr>"

definition watch_clock :: "('w \<Rightarrow> gotime \<times> 'w) \<Rightarrow> 'w \<times> nat \<Rightarrow> gotime \<times> ('w \<times> nat)" where
  "watch_clock f = (\<lambda>(w, n). case f w of (t, w') \<Rightarrow> (t, (w', n)))"

definition watched :: "'w client \<Rightarrow> ('w \<times> nat) client" where
  "watched C =
     \<lparr>GameServers = watch_ops (GameServers C), GameTemplates = watch_ops (GameTemplates C),
      Backups = watch_ops (Backups C), BackupSchedules = watch_ops (BackupSchedules C),
      VolumeSnapshots = watch_ops (VolumeSnapshots C), PVCs = watch_ops (PVCs C),
      Deployments = watch_ops (Deployments C), Services = watch_ops (Services C),
      ServiceAccounts = watch_ops (ServiceAccounts C),
      Clock = watch_clock (Clock C)\<rparr>"

text \<open>The number of failures so far.\<close>

definition failures :: "('w \<times> nat) sys \<Rightarrow> nat" where
  "failures s = snd (world s)"

section \<open>The logic\<close>

text \<open>\<open>faults m Q\<close>: from every state, \<open>m\<close> returns a value \<open>a\<close> with \<open>Q a f\<close>, where \<open>f\<close> says whether a call
  failed.\<close>

definition faults :: "('w \<times> nat, 'a) io \<Rightarrow> ('a \<Rightarrow> bool \<Rightarrow> bool) \<Rightarrow> bool" where
  "faults m Q \<longleftrightarrow> (\<forall>s. failures s \<le> failures (snd (run_state m s))
     \<and> Q (fst (run_state m s)) (failures s < failures (snd (run_state m s))))"

named_theorems faults_intro

lemma faultsI:
  assumes "\<And>s. failures s \<le> failures (snd (run_state m s))
    \<and> Q (fst (run_state m s)) (failures s < failures (snd (run_state m s)))"
  shows "faults m Q"
  using assms by (simp add: faults_def)

lemma faults_mono: "faults m Q \<Longrightarrow> (\<And>a f. Q a f \<Longrightarrow> Q' a f) \<Longrightarrow> faults m Q'"
  by (simp add: faults_def)

lemma faults_return [faults_intro]: "Q a False \<Longrightarrow> faults (return a) Q"
  by (simp add: faults_def return_def)

lemma faults_bind [faults_intro]:
  assumes "faults m (\<lambda>a f. faults (g a) (\<lambda>b f'. Q b (f \<or> f')))"
  shows "faults (State_Monad.bind m g) Q"
proof (rule faultsI)
  fix s
  obtain a s' where m: "run_state m s = (a, s')" by fastforce
  obtain b s'' where g: "run_state (g a) s' = (b, s'')" by fastforce
  from assms m have "failures s \<le> failures s'" "faults (g a) (\<lambda>b f'. Q b (failures s < failures s' \<or> f'))"
    unfolding faults_def [of m] by (metis fst_conv snd_conv)+
  moreover from this(2) g have "failures s' \<le> failures s''" "Q b (failures s < failures s' \<or> failures s' < failures s'')"
    unfolding faults_def by (metis fst_conv snd_conv)+
  moreover have "(failures s < failures s' \<or> failures s' < failures s'') = (failures s < failures s'')"
    using calculation by linarith
  ultimately show "failures s \<le> failures (snd (run_state (State_Monad.bind m g) s))
      \<and> Q (fst (run_state (State_Monad.bind m g) s)) (failures s < failures (snd (run_state (State_Monad.bind m g) s)))"
    using m g by simp
qed

lemma faults_sum [faults_intro]:
  "(\<And>e. r = Inl e \<Longrightarrow> faults (f e) Q) \<Longrightarrow> (\<And>x. r = Inr x \<Longrightarrow> faults (g x) Q) \<Longrightarrow>
   faults (case r of Inl e \<Rightarrow> f e | Inr x \<Rightarrow> g x) Q"
  by (cases r) auto

lemma faults_option [faults_intro]:
  "(r = None \<Longrightarrow> faults f Q) \<Longrightarrow> (\<And>x. r = Some x \<Longrightarrow> faults (g x) Q) \<Longrightarrow>
   faults (case r of None \<Rightarrow> f | Some x \<Rightarrow> g x) Q"
  by (cases r) auto

lemma faults_if [faults_intro]:
  "(b \<Longrightarrow> faults f Q) \<Longrightarrow> (\<not> b \<Longrightarrow> faults g Q) \<Longrightarrow> faults (if b then f else g) Q"
  by simp

lemma faults_prod [faults_intro]:
  "(\<And>x y. p = (x, y) \<Longrightarrow> faults (f x y) Q) \<Longrightarrow> faults (case p of (x, y) \<Rightarrow> f x y) Q"
  by (cases p) auto

lemma faults_Let [faults_intro]: "faults (f x) Q \<Longrightarrow> faults (let y = x in f y) Q"
  by simp

section \<open>The calls of a watched client\<close>

text \<open>A call fails with an error, and an error is a failure unless the object was only not found.\<close>

definition is_error :: "go_error + 'a \<Rightarrow> bool" where
  "is_error r \<longleftrightarrow> err_of r \<noteq> None"

lemma is_error_simps [simp]: "is_error (Inl e)" "\<not> is_error (Inr x)"
  by (simp_all add: is_error_def)

lemma faults_Get [faults_intro]:
  assumes "\<And>e. IsNotFound e \<Longrightarrow> Q (Inl e) False" and "\<And>e. \<not> IsNotFound e \<Longrightarrow> Q (Inl e) True" and "\<And>x. Q (Inr x) False"
  shows "faults (Get mk (watch_ops ops) k) Q"
  by (rule faultsI)
    (use assms in \<open>auto simp: Get_def watch_ops_def tick_def emit_def failures_def split: prod.splits sum.splits\<close>)

lemma faults_List_objs [faults_intro]:
  assumes "\<And>e. Q (Inl e) True" and "\<And>xs. Q (Inr xs) False"
  shows "faults (List_objs mk (watch_ops ops) ns ls) Q"
  by (rule faultsI)
    (use assms in \<open>auto simp: List_objs_def watch_ops_def tick_def emit_def failures_def split: prod.splits sum.splits\<close>)

lemma faults_write [faults_intro]:
  assumes "\<And>e. Q (Inl e) True" and "\<And>x. Q (Inr x) False"
  shows "faults (Create mk (watch_ops ops) x) Q" "faults (Update mk (watch_ops ops) x) Q"
    "faults (StatusUpdate mk (watch_ops ops) x) Q"
  by (rule faultsI; use assms in \<open>auto simp: Create_def Update_def StatusUpdate_def call_obj_def watch_ops_def tick_def
    emit_def failures_def split: prod.splits sum.splits\<close>)+

lemma faults_Delete [faults_intro]:
  assumes "\<And>e. Q (Some e) True" and "Q None False"
  shows "faults (Delete mk (watch_ops ops) x) Q"
  by (rule faultsI)
    (use assms in \<open>auto simp: Delete_def watch_ops_def emit_def failures_def split: prod.splits\<close>)

lemma faults_Now [faults_intro]:
  assumes "\<And>t. Q t False"
  shows "faults (Now (watch_clock f)) Q"
  by (rule faultsI) (use assms in \<open>auto simp: Now_def watch_clock_def emit_def failures_def split: prod.splits\<close>)

lemma watched_kinds [simp]:
  "GameServers (watched C) = watch_ops (GameServers C)" "GameTemplates (watched C) = watch_ops (GameTemplates C)"
  "Backups (watched C) = watch_ops (Backups C)" "BackupSchedules (watched C) = watch_ops (BackupSchedules C)"
  "VolumeSnapshots (watched C) = watch_ops (VolumeSnapshots C)" "PVCs (watched C) = watch_ops (PVCs C)"
  "Deployments (watched C) = watch_ops (Deployments C)" "Services (watched C) = watch_ops (Services C)"
  "ServiceAccounts (watched C) = watch_ops (ServiceAccounts C)" "Clock (watched C) = watch_clock (Clock C)"
  by (simp_all add: watched_def)

section \<open>The programs\<close>

text \<open>The children: a failure is the error that is returned.\<close>

lemma faults_children [faults_intro]:
  assumes "\<And>r f. (f \<longrightarrow> r \<noteq> None) \<Longrightarrow> Q r f"
  shows "faults (applyPVC (watched C) pvc) Q" "faults (applyDeployment (watched C) dep) Q"
    "faults (ensureServiceAccount (watched C) gs) Q"
  unfolding applyPVC_def applyDeployment_def ensureServiceAccount_def watched_kinds
  by ((intro faults_intro; (rule assms)?; simp)+)

lemma faults_applyService [faults_intro]:
  assumes "\<And>r f. (f \<longrightarrow> is_error r) \<Longrightarrow> Q r f"
  shows "faults (applyService (watched C) svc) Q"
  unfolding applyService_def watched_kinds
  by (intro faults_intro; (rule assms)?; simp)

lemma apply_services_faults:
  "faults (apply_services L (watched C) gs svcs applied) (\<lambda>r f. f \<longrightarrow> is_error r)"
proof (induction svcs arbitrary: applied)
  case Nil
  show ?case by (simp add: faults_return)
next
  case (Cons svc svcs)
  show ?case
    unfolding apply_services.simps
    by (intro faults_intro; (rule faults_mono [OF Cons.IH])?; simp)
qed

lemma faults_apply_services [faults_intro]:
  assumes "\<And>r f. (f \<longrightarrow> is_error r) \<Longrightarrow> Q r f"
  shows "faults (apply_services L (watched C) gs svcs applied) Q"
  by (rule faults_mono [OF apply_services_faults assms])

lemma faults_resolveRestoreSource [faults_intro]:
  assumes "\<And>r f. (f \<longrightarrow> is_error r) \<Longrightarrow> Q r f"
  shows "faults (resolveRestoreSource (watched C) gs) Q"
  unfolding resolveRestoreSource_def watched_kinds
  by (intro faults_intro; (rule assms)?; simp)

text \<open>The clock never fails.\<close>

lemma faults_clock [faults_intro]:
  "(\<And>x. Q x False) \<Longrightarrow> faults (set_condition_now (watched C) gs t st reason msg) Q"
  "(\<And>x. R x False) \<Longrightarrow> faults (set_backup_condition_now (watched C) b t st reason msg) R"
  "(\<And>x. S x False) \<Longrightarrow> faults (set_schedule_condition_now (watched C) bs t st reason msg) S"
  unfolding set_condition_now_def set_backup_condition_now_def set_schedule_condition_now_def watched_kinds
  by (intro faults_intro; simp)+

text \<open>A reconcile asks to be run again if it returns an error or a delay.\<close>

definition asks_again :: "outcome \<Rightarrow> bool" where
  "asks_again r \<longleftrightarrow> snd r \<noteq> None \<or> 0 < RequeueAfter (fst r)"

lemma asks_again_simps [simp]:
  "asks_again (r, Some e)" "asks_again (Result d, None) \<longleftrightarrow> 0 < d"
  by (simp_all add: asks_again_def)

lemma delays_positive [simp]: "0 < Second" "0 < Minute"
  by (simp_all add: Second_def Minute_def)

abbreviation repeats :: "outcome \<Rightarrow> bool \<Rightarrow> bool" where
  "repeats r f \<equiv> f \<longrightarrow> asks_again r"

text \<open>A GameServer, stage by stage.\<close>

lemma faults_report_failure [faults_intro]:
  assumes "\<And>d f. 0 < d \<Longrightarrow> Q (Result d, None) f"
  shows "faults (report_failure (watched C) gs ct reason msg ph) Q"
  unfolding report_failure_def updateStatus_def watched_kinds
  by (intro faults_intro; rule assms; simp)

lemma faults_report_status: "faults (report_status (watched C) gs tpl svcs) repeats"
  unfolding report_status_def updateStatus_def watched_kinds Let_def
  by (intro faults_intro; simp)

lemma faults_workload: "faults (reconcile_workload L (watched C) gs tpl) repeats"
  unfolding reconcile_workload_def Let_def
  by (intro faults_intro; simp add: faults_report_status)

lemma faults_pvc: "faults (reconcile_pvc L (watched C) gs tpl src) repeats"
  unfolding reconcile_pvc_def updateStatus_def watched_kinds
  by (intro faults_intro; simp add: faults_workload)

lemma faults_storage: "faults (reconcile_storage L (watched C) gs tpl) repeats"
  unfolding reconcile_storage_def
  by (intro faults_intro; simp add: faults_pvc)

lemma faults_resolved: "faults (reconcile_resolved L (watched C) gs tpl) repeats"
  unfolding reconcile_resolved_def
  by (intro faults_intro; simp add: faults_storage)

lemma server_faults: "faults (GameServer_Reconcile L (watched C) k) repeats"
  unfolding GameServer_Reconcile_def watched_kinds
  by (intro faults_intro; simp add: faults_resolved)

lemma template_faults: "faults (GameTemplate_Reconcile (watched C) k) repeats"
  unfolding GameTemplate_Reconcile_def watched_kinds Let_def
  by (intro faults_intro; simp)

lemma backup_faults: "faults (Backup_Reconcile L (watched C) k) repeats"
  unfolding Backup_Reconcile_def reconcile_snapshot_def mirror_snapshot_def backup_waiting_def backup_missing_server_def
    updateBackupStatus_def watched_kinds Let_def
  by (intro faults_intro; simp)

lemma faults_spawnBackup [faults_intro]:
  "(\<And>r f. Q r f) \<Longrightarrow> faults (spawnBackup L (watched C) bs fire) Q"
  unfolding spawnBackup_def watched_kinds Let_def by (intro faults_intro; simp)

lemma retention_loop_faults: "(\<And>r f. Q r f) \<Longrightarrow> faults (retention_loop (watched C) keep kept bs) Q"
proof (induction "watched C" keep kept bs arbitrary: Q rule: retention_loop.induct)
  case (2 keep kept b bs)
  show ?case
    unfolding retention_loop.simps watched_kinds
    by (intro faults_intro; (rule "2.hyps")?; simp add: "2.prems")
qed (simp add: faults_return)

lemma faults_children_of_schedule [faults_intro]:
  assumes "\<And>r f. Q r f" and "\<And>r f. R r f"
  shows "faults (applyRetention L (watched C) bs) Q" "faults (refreshChildStatus (watched C) bs) R"
  unfolding applyRetention_def refreshChildStatus_def list_children_def watched_kinds
  by (intro faults_intro retention_loop_faults; simp add: assms)+

lemma faults_finish: "faults (finish_schedule L (watched C) now sched loc bs) (\<lambda>r f. asks_again r)"
  unfolding finish_schedule_def watched_kinds Let_def
  by (intro faults_intro; simp add: less_max_iff_disj)

lemma faults_run: "faults (run_schedule L (watched C) now sched loc bs) (\<lambda>r f. asks_again r)"
  unfolding run_schedule_def Let_def
  by (intro faults_intro; simp add: faults_finish)

lemma faults_invalid_schedule: "faults (invalid_schedule (watched C) bs reason msg) (\<lambda>r f. asks_again r)"
  unfolding invalid_schedule_def watched_kinds
  by (intro faults_intro; simp)

lemma faults_schedule_now [faults_intro]:
  "(\<And>t. Q t False) \<Longrightarrow> faults (schedule_now (map_option watch_clock injected) (watched C)) Q"
  unfolding schedule_now_def by (cases injected) (simp_all add: faults_Now)

lemma schedule_faults: "faults (BackupSchedule_Reconcile L (map_option watch_clock injected) (watched C) k) repeats"
  unfolding BackupSchedule_Reconcile_def watched_kinds
  by (intro faults_intro; (rule faults_mono [OF faults_run] faults_mono [OF faults_invalid_schedule])?; simp)

end
