(* ===== verification/FaultProperties.thy ===== *)
theory FaultProperties
  imports Faults Fixtures
begin

text \<open>
  No failure is lost: whatever API call of a reconcile fails, the request comes back.
\<close>

text \<open>C15. A reconcile during which an API call failed returns an error or a delay, so the work queue holds
  the request again: this is so for every call of every reconciler, also for the errors the code only logs
  (a failed status update of the failure paths, the retention and the children of a schedule), for every
  client and every world. Only the answer that a read object does not exist is not a failure.\<close>
theorem failures_are_retried:
  "\<forall>run \<in> set [GameServer_Reconcile L (watched C) k, GameTemplate_Reconcile (watched C) k,
      Backup_Reconcile L (watched C) k, BackupSchedule_Reconcile L (map_option watch_clock injected) (watched C) k].
    failures s < failures (snd (run_state run s)) \<longrightarrow> asks_again (result run s)"
  using server_faults [of L C k] template_faults [of C k] backup_faults [of L C k]
    schedule_faults [of L injected C k]
  unfolding faults_def result_def by simp

text \<open>The witness: the template is missing, and the status update that should say so is answered with a
  conflict.\<close>

definition conflicting_client :: "int client" where
  "conflicting_client = (demo_client (Some demo_server) None None [] None None None None None)
     \<lparr>GameServers := (static_ops (Some demo_server) [])
        \<lparr>opStatusUpdate := \<lambda>a w. (Inl (GoError OtherReason ''the object has been modified''), w)\<rparr>\<rparr>"

theorem failures_are_retried_witness:
  "let run = GameServer_Reconcile demo_lib (watched conflicting_client) (''games'', ''midgard'');
       s = \<lparr>world = (0, 0), trace = []\<rparr>
   in failures (snd (run_state run s)) = 1 \<and> result run s = (Result (30 * Second), None) \<and> asks_again (result run s)"
proof -
  let ?run = "GameServer_Reconcile demo_lib (watched conflicting_client) (''games'', ''midgard'')"
  let ?s = "\<lparr>world = (0, 0), trace = []\<rparr> :: (int \<times> nat) sys"
  have "failures (snd (run_state ?run ?s)) = 1 \<and> result ?run ?s = (Result (30 * Second), None)"
    by (simp add: GameServer_Reconcile_def report_failure_def set_condition_now_def updateStatus_def
      conflicting_client_def demo_client_def static_ops_def watch_ops_def watch_clock_def tick_def Get_def StatusUpdate_def
      call_obj_def Now_def emit_def failures_def result_def return_def IsNotFound_def)
  then show ?thesis
    using failures_are_retried [of demo_lib conflicting_client "(''games'', ''midgard'')" None ?s]
    by (simp add: failures_def Let_def)
qed

end
