(* ===== verification/Shared.thy ===== *)
theory Shared
  imports Operator
begin

text \<open>
  A cluster that is shared: between two calls of a run anybody else may act, other runs of the operator
  included; reads may be answered from a cache that lags behind; and a call may fail, with its effect or
  without. \<open>shared_server\<close> is this contract, with the interference \<open>R\<close> of the others as a parameter. Under it a
  run is a path of steps of the others and steps of its own, and every step of its own is harmless.
\<close>

section \<open>Steps of the operator's own\<close>

definition backups_same :: "(key, backup) fmap \<Rightarrow> (key, backup) fmap \<Rightarrow> bool" where
  "backups_same m m' \<longleftrightarrow> (\<forall>k b b'. fmlookup m k = Some b \<longrightarrow> fmlookup m' k = Some b' \<longrightarrow> same_backup_object b b')"

lemma backups_same_refl [simp]: "backups_same m m"
  by (simp add: backups_same_def)

text \<open>What one call of a reconciler may do.\<close>

definition own_step :: "cluster \<Rightarrow> cluster \<Rightarrow> bool" where
  "own_step c c' \<longleftrightarrow>
     fmrel same_object (clGameServers c) (clGameServers c')
     \<and> fmrel same_template (clGameTemplates c) (clGameTemplates c')
     \<and> fmrel same_schedule (clBackupSchedules c) (clBackupSchedules c')
     \<and> backups_same (clBackups c) (clBackups c')
     \<and> grown (=) (clVolumeSnapshots c) (clVolumeSnapshots c')
     \<and> grown same_claim (clPVCs c) (clPVCs c')
     \<and> grown (\<lambda>_ _. True) (clDeployments c) (clDeployments c')
     \<and> grown (\<lambda>_ _. True) (clServices c) (clServices c')
     \<and> grown (=) (clServiceAccounts c) (clServiceAccounts c')
     \<and> deployments_safe (clDeployments c) (clDeployments c')"

lemma own_stepI:
  "fmrel same_object (clGameServers c) m1 \<Longrightarrow> own_step c (c\<lparr>clGameServers := m1\<rparr>)"
  "fmrel same_template (clGameTemplates c) m2 \<Longrightarrow> own_step c (c\<lparr>clGameTemplates := m2\<rparr>)"
  "fmrel same_schedule (clBackupSchedules c) m3 \<Longrightarrow> own_step c (c\<lparr>clBackupSchedules := m3\<rparr>)"
  "backups_same (clBackups c) m4 \<Longrightarrow> own_step c (c\<lparr>clBackups := m4\<rparr>)"
  "grown (=) (clVolumeSnapshots c) m5 \<Longrightarrow> own_step c (c\<lparr>clVolumeSnapshots := m5\<rparr>)"
  "grown same_claim (clPVCs c) m6 \<Longrightarrow> own_step c (c\<lparr>clPVCs := m6\<rparr>)"
  "grown (\<lambda>_ _. True) (clDeployments c) m7 \<Longrightarrow> deployments_safe (clDeployments c) m7 \<Longrightarrow>
     own_step c (c\<lparr>clDeployments := m7\<rparr>)"
  "grown (\<lambda>_ _. True) (clServices c) m8 \<Longrightarrow> own_step c (c\<lparr>clServices := m8\<rparr>)"
  "grown (=) (clServiceAccounts c) m9 \<Longrightarrow> own_step c (c\<lparr>clServiceAccounts := m9\<rparr>)"
  unfolding own_step_def by simp_all

text \<open>A path of steps of the others and of own ones.\<close>

definition goes :: "(cluster \<Rightarrow> cluster \<Rightarrow> bool) \<Rightarrow> cluster \<Rightarrow> cluster \<Rightarrow> bool" where
  "goes R = (\<lambda>c c'. R c c' \<or> own_step c c')\<^sup>*\<^sup>*"

lemma goes_refl [simp]: "goes R c c"
  by (simp add: goes_def)

lemma goes_trans: "goes R c c' \<Longrightarrow> goes R c' c'' \<Longrightarrow> goes R c c''"
  unfolding goes_def by (rule rtranclp_trans)

lemma others_go: "R\<^sup>*\<^sup>* c c' \<Longrightarrow> goes R c c'"
  unfolding goes_def by (erule rtranclp_mono [THEN predicate2D, rotated]) blast

lemma own_goes: "own_step c c' \<Longrightarrow> goes R c c'"
  unfolding goes_def by blast

section \<open>The contract\<close>

text \<open>A call: the others act, and then it happens or not.\<close>

definition call :: "(cluster \<Rightarrow> cluster \<Rightarrow> bool) \<Rightarrow> (cluster \<Rightarrow> cluster \<Rightarrow> bool) \<Rightarrow> cluster \<Rightarrow> cluster \<Rightarrow> bool" where
  "call R effect c c' \<longleftrightarrow> (\<exists>c1. R\<^sup>*\<^sup>* c c1 \<and> (c' = c1 \<or> effect c1 c'))"

lemma call_goes: "call R effect c c' \<Longrightarrow> (\<And>c1. goes R c c1 \<Longrightarrow> effect c1 c' \<Longrightarrow> own_step c1 c') \<Longrightarrow> goes R c c'"
  unfolding call_def by (blast intro: goes_trans others_go own_goes)

text \<open>A program all of whose steps are of these two sorts.\<close>

definition steps :: "(cluster \<Rightarrow> cluster \<Rightarrow> bool) \<Rightarrow> ('w \<Rightarrow> cluster) \<Rightarrow> ('w, 'a) io \<Rightarrow> bool" where
  "steps R view m \<longleftrightarrow> (\<forall>s. goes R (view (world s)) (view (world (snd (run_state m s)))))"

named_theorems steps_intro

lemma stepsI: "(\<And>s. goes R (view (world s)) (view (world (snd (run_state m s))))) \<Longrightarrow> steps R view m"
  by (simp add: steps_def)

lemma steps_return [steps_intro]: "steps R view (return a)"
  by (simp add: steps_def return_def)

lemma steps_bind [steps_intro]:
  assumes "steps R view m" and "\<And>a. steps R view (f a)"
  shows "steps R view (State_Monad.bind m f)"
proof (rule stepsI)
  fix s :: "'a sys"
  obtain a s' where "run_state m s = (a, s')" by fastforce
  with assms(1) assms(2) [of a] show "goes R (view (world s)) (view (world (snd (run_state (State_Monad.bind m f) s))))"
    unfolding steps_def by (metis goes_trans snd_conv run_state_bind [of m f s] split_conv)
qed

lemma steps_cases [steps_intro]:
  "(\<And>e. r = Inl e \<Longrightarrow> steps R view (f e)) \<Longrightarrow> (\<And>x. r = Inr x \<Longrightarrow> steps R view (g x)) \<Longrightarrow>
    steps R view (case r of Inl e \<Rightarrow> f e | Inr x \<Rightarrow> g x)"
  "(q = None \<Longrightarrow> steps R view h) \<Longrightarrow> (\<And>x. q = Some x \<Longrightarrow> steps R view (k x)) \<Longrightarrow>
    steps R view (case q of None \<Rightarrow> h | Some x \<Rightarrow> k x)"
  "(b \<Longrightarrow> steps R view m) \<Longrightarrow> (\<not> b \<Longrightarrow> steps R view n) \<Longrightarrow> steps R view (if b then m else n)"
  "(\<And>x y. p = (x, y) \<Longrightarrow> steps R view (l x y)) \<Longrightarrow> steps R view (case p of (x, y) \<Rightarrow> l x y)"
  by ((cases r; simp), (cases q; simp), simp, (cases p; simp))

locale shared_kind =
  fixes ops :: "('w, 'o) ops"
    and view :: "'w \<Rightarrow> cluster"
    and sel :: "cluster \<Rightarrow> (key, 'o) fmap"
    and upd :: "((key, 'o) fmap \<Rightarrow> (key, 'o) fmap) \<Rightarrow> cluster \<Rightarrow> cluster"
    and meta :: "'o \<Rightarrow> object_meta"
    and stored :: "'o option \<Rightarrow> 'o \<Rightarrow> 'o \<Rightarrow> bool"
    and put_status :: "'o \<Rightarrow> 'o \<Rightarrow> 'o"
    and R :: "cluster \<Rightarrow> cluster \<Rightarrow> bool"
  assumes get_reads: "R\<^sup>*\<^sup>* (view w) (view (snd (opGet ops k w)))"
    and get_was: "opGet ops k w = (Inr x, w') \<Longrightarrow>
      object_key (meta x) = k \<and> (\<exists>c. goes R c (view w') \<and> fmlookup (sel c) k = Some x)"
    and list_reads: "R\<^sup>*\<^sup>* (view w) (view (snd (opList ops ns labels w)))"
    and create_call: "call R (\<lambda>c c'. \<exists>y. fmlookup (sel c) (object_key (meta x)) = None \<and> stored None x y
        \<and> c' = upd (fmupd (object_key (meta x)) y) c) (view w) (view (snd (opCreate ops x w)))"
    and update_call: "call R (\<lambda>c c'. \<exists>z y. fmlookup (sel c) (object_key (meta x)) = Some z \<and> stored (Some z) x y
        \<and> c' = upd (fmupd (object_key (meta x)) y) c) (view w) (view (snd (opUpdate ops x w)))"
    and status_call: "call R (\<lambda>c c'. \<exists>z. fmlookup (sel c) (object_key (meta x)) = Some z
        \<and> c' = upd (fmupd (object_key (meta x)) (put_status x z)) c) (view w) (view (snd (opStatusUpdate ops x w)))"
    and delete_call: "call R (\<lambda>c c'. c' = upd (fmdrop (object_key (meta x))) c) (view w) (view (snd (opDelete ops x w)))"
begin

lemma steps_reads: "steps R view (Get mk ops k)" "steps R view (List_objs mk ops ns labels)"
  by (rule stepsI; use others_go [OF get_reads] others_go [OF list_reads] in
    \<open>simp add: Get_def List_objs_def emit_def split: prod.split sum.split; metis snd_conv\<close>)+

lemma steps_Create:
  assumes "\<And>c y. fmlookup (sel c) (object_key (meta x)) = None \<Longrightarrow> stored None x y \<Longrightarrow>
    own_step c (upd (fmupd (object_key (meta x)) y) c)"
  shows "steps R view (Create mk ops x)"
proof (rule stepsI)
  fix s :: "'w sys"
  have "goes R (view (world s)) (view (snd (opCreate ops x (world s))))"
    by (rule call_goes [OF create_call]) (metis assms)
  then show "goes R (view (world s)) (view (world (snd (run_state (Create mk ops x) s))))"
    by (simp add: Create_def call_obj_def emit_def split_beta)
qed

lemma steps_Update:
  assumes "\<And>c z y. fmlookup (sel c) (object_key (meta x)) = Some z \<Longrightarrow> stored (Some z) x y \<Longrightarrow>
    own_step c (upd (fmupd (object_key (meta x)) y) c)"
  shows "steps R view (Update mk ops x)"
proof (rule stepsI)
  fix s :: "'w sys"
  have "goes R (view (world s)) (view (snd (opUpdate ops x (world s))))"
    by (rule call_goes [OF update_call]) (metis assms)
  then show "goes R (view (world s)) (view (world (snd (run_state (Update mk ops x) s))))"
    by (simp add: Update_def call_obj_def emit_def split_beta)
qed

lemma steps_StatusUpdate:
  assumes "\<And>c z. fmlookup (sel c) (object_key (meta x)) = Some z \<Longrightarrow>
    own_step c (upd (fmupd (object_key (meta x)) (put_status x z)) c)"
  shows "steps R view (StatusUpdate mk ops x)"
proof (rule stepsI)
  fix s :: "'w sys"
  have "goes R (view (world s)) (view (snd (opStatusUpdate ops x (world s))))"
    by (rule call_goes [OF status_call]) (metis assms)
  then show "goes R (view (world s)) (view (world (snd (run_state (StatusUpdate mk ops x) s))))"
    by (simp add: StatusUpdate_def call_obj_def emit_def split_beta)
qed

lemma steps_Delete:
  assumes "\<And>c. own_step c (upd (fmdrop (object_key (meta x))) c)"
  shows "steps R view (Delete mk ops x)"
proof (rule stepsI)
  fix s :: "'w sys"
  have "goes R (view (world s)) (view (snd (opDelete ops x (world s))))"
    by (rule call_goes [OF delete_call]) (metis assms)
  then show "goes R (view (world s)) (view (world (snd (run_state (Delete mk ops x) s))))"
    by (simp add: Delete_def emit_def split_beta)
qed

end

text \<open>The shared cluster: the kinds, a clock, and others that leave the specification of a claim that exists
  as it is (and do not delete the claim).\<close>

locale shared_server =
  servers: shared_kind "GameServers C" view clGameServers clGameServers_update gsMeta any_stored
    "\<lambda>x z. z\<lparr>gsStatus := gsStatus x\<rparr>" R +
  templates: shared_kind "GameTemplates C" view clGameTemplates clGameTemplates_update tplMeta any_stored
    "\<lambda>x z. z\<lparr>tplStatus := tplStatus x\<rparr>" R +
  backups: shared_kind "Backups C" view clBackups clBackups_update bMeta backup_stored
    "\<lambda>x z. z\<lparr>bStatus := bStatus x\<rparr>" R +
  schedules: shared_kind "BackupSchedules C" view clBackupSchedules clBackupSchedules_update bsMeta any_stored
    "\<lambda>x z. z\<lparr>bsStatus := bsStatus x\<rparr>" R +
  snapshots: shared_kind "VolumeSnapshots C" view clVolumeSnapshots clVolumeSnapshots_update vsMeta snapshot_stored
    no_status R +
  claims: shared_kind "PVCs C" view clPVCs clPVCs_update pvcMeta pvc_stored no_status R +
  deployments: shared_kind "Deployments C" view clDeployments clDeployments_update depMeta deployment_stored
    no_status R +
  services: shared_kind "Services C" view clServices clServices_update svcMeta service_stored no_status R +
  accounts: shared_kind "ServiceAccounts C" view clServiceAccounts clServiceAccounts_update saMeta account_stored
    no_status R
  for C :: "'w client" and view :: "'w \<Rightarrow> cluster" and R :: "cluster \<Rightarrow> cluster \<Rightarrow> bool" +
  assumes clock_ticks: "R\<^sup>*\<^sup>* (view w) (view (snd (Clock C w)))"
    and claims_stay: "R c c' \<Longrightarrow> grown same_claim (clPVCs c) (clPVCs c')"
begin

text \<open>A claim that was there once is there, with its specification.\<close>

lemma claim_was:
  assumes "goes R c c'" and "fmlookup (clPVCs c) k = Some x"
  shows "\<exists>z. fmlookup (clPVCs c') k = Some z \<and> pvcSpec z = pvcSpec x"
proof -
  have "grown same_claim (clPVCs c) (clPVCs c')"
    using assms(1) unfolding goes_def
  proof induction
    case (step c1 c2)
    then have "grown same_claim (clPVCs c1) (clPVCs c2)" using claims_stay by (auto simp: own_step_def)
    with step.IH show ?case by (rule grown_trans [rotated]) simp
  qed simp
  with assms(2) show ?thesis unfolding grown_def by blast
qed

lemma steps_Now [steps_intro]: "steps R view (Now (Clock C))"
  by (rule stepsI) (use others_go [OF clock_ticks] in \<open>simp add: Now_def emit_def split: prod.split; metis snd_conv\<close>)

lemmas reads_step [steps_intro] = servers.steps_reads templates.steps_reads backups.steps_reads schedules.steps_reads
  snapshots.steps_reads claims.steps_reads deployments.steps_reads services.steps_reads accounts.steps_reads

text \<open>The claim: what is updated is what was read, with other labels.\<close>

lemma applyPVC_steps [steps_intro]: "steps R view (applyPVC C p)"
proof (rule stepsI)
  fix s :: "'w sys"
  let ?k = "object_key (pvcMeta p)"
  obtain r w' where r: "opGet (PVCs C) ?k (world s) = (r, w')" by fastforce
  then have read: "goes R (view (world s)) (view w')" using others_go [OF claims.get_reads [of "world s" ?k]] by simp
  have new: "goes R (view w') (view (snd (opCreate (PVCs C) p w')))"
    by (rule call_goes [OF claims.create_call])
      (auto simp: cluster_put intro!: own_stepI grown_put)
  have old: "goes R (view w') (view (snd (opUpdate (PVCs C) (x\<lparr>pvcMeta := (pvcMeta x)\<lparr>mLabels := ls\<rparr>\<rparr>) w')))"
    if x: "r = Inr x" for x ls
  proof (rule call_goes [OF claims.update_call])
    fix c1 assume c1: "goes R (view w') c1"
    obtain c where k: "object_key (pvcMeta x) = ?k" and c: "goes R c (view w')" "fmlookup (clPVCs c) ?k = Some x"
      using claims.get_was [OF r [unfolded x]] by blast
    from claim_was [OF goes_trans [OF c(1) c1] c(2)]
    obtain z where z: "fmlookup (clPVCs c1) ?k = Some z" "pvcSpec z = pvcSpec x" by blast
    have key: "object_key (pvcMeta (x\<lparr>pvcMeta := (pvcMeta x)\<lparr>mLabels := ls\<rparr>\<rparr>)) = ?k" using k by (simp add: object_key_def)
    assume "\<exists>z y. fmlookup (clPVCs c1) (object_key (pvcMeta (x\<lparr>pvcMeta := (pvcMeta x)\<lparr>mLabels := ls\<rparr>\<rparr>))) = Some z
        \<and> pvc_stored (Some z) (x\<lparr>pvcMeta := (pvcMeta x)\<lparr>mLabels := ls\<rparr>\<rparr>) y
        \<and> view (snd (opUpdate (PVCs C) (x\<lparr>pvcMeta := (pvcMeta x)\<lparr>mLabels := ls\<rparr>\<rparr>) w'))
            = clPVCs_update (fmupd (object_key (pvcMeta (x\<lparr>pvcMeta := (pvcMeta x)\<lparr>mLabels := ls\<rparr>\<rparr>))) y) c1"
    then obtain y where y: "pvcSpec y = pvcSpec x"
      and v: "view (snd (opUpdate (PVCs C) (x\<lparr>pvcMeta := (pvcMeta x)\<lparr>mLabels := ls\<rparr>\<rparr>) w'))
          = c1\<lparr>clPVCs := fmupd ?k y (clPVCs c1)\<rparr>"
      unfolding key by (auto simp: pvc_stored_def cluster_put)
    show "own_step c1 (view (snd (opUpdate (PVCs C) (x\<lparr>pvcMeta := (pvcMeta x)\<lparr>mLabels := ls\<rparr>\<rparr>) w')))"
      unfolding v by (intro own_stepI grown_put) (use z y in auto)
  qed
  show "goes R (view (world s)) (view (world (snd (run_state (applyPVC C p) s))))"
    using r goes_trans [OF read new] goes_trans [OF read old] read
    by (auto simp: applyPVC_def Get_def Create_def Update_def call_obj_def emit_def return_def split: sum.splits prod.splits)
      (metis snd_conv)+
qed

end

context shared_server
begin

text \<open>The other calls of the reconcilers are harmless whatever the cluster holds.\<close>

lemma status_steps [steps_intro]:
  "steps R view (StatusUpdate OGameServer (GameServers C) gs)"
  "steps R view (StatusUpdate OGameTemplate (GameTemplates C) tpl)"
  "steps R view (StatusUpdate OBackup (Backups C) b)"
  "steps R view (StatusUpdate OBackupSchedule (BackupSchedules C) bs)"
  by (rule servers.steps_StatusUpdate templates.steps_StatusUpdate backups.steps_StatusUpdate
      schedules.steps_StatusUpdate,
    auto simp: cluster_put backups_same_def intro!: own_stepI same_put)+

lemma create_steps [steps_intro]:
  "steps R view (Create OBackup (Backups C) b)"
  "steps R view (Create OVolumeSnapshot (VolumeSnapshots C) vs)"
  "steps R view (Create OService (Services C) svc)"
  "steps R view (Create OServiceAccount (ServiceAccounts C) sa)"
  by (rule backups.steps_Create snapshots.steps_Create services.steps_Create accounts.steps_Create,
    auto simp: cluster_put backups_same_def intro!: own_stepI grown_put)+

lemma update_steps [steps_intro]:
  "steps R view (Update OService (Services C) svc)" "steps R view (Delete OBackup (Backups C) b)"
  by (rule services.steps_Update backups.steps_Delete,
    auto simp: cluster_put backups_same_def intro!: own_stepI grown_put)+

lemma deployment_steps [steps_intro]:
  assumes "hardened d"
  shows "steps R view (applyDeployment C d)"
proof -
  have kept: "hardened y" if "depSpec y = depSpec d" for y using assms that by (simp add: hardened_def)
  have "steps R view (Create ODeployment (Deployments C) d)"
    by (rule deployments.steps_Create)
      (auto simp: cluster_put deployment_stored_def deployments_safe_def intro!: own_stepI grown_put kept)
  moreover have "steps R view (Update ODeployment (Deployments C)
      (x\<lparr>depMeta := (depMeta x)\<lparr>mLabels := ls\<rparr>, depSpec := depSpec d\<rparr>))" for x ls
    by (rule deployments.steps_Update)
      (auto simp: cluster_put deployment_stored_def deployments_safe_def intro!: own_stepI grown_put kept)
  ultimately show ?thesis
    unfolding applyDeployment_def Let_def by (intro steps_intro)
qed

lemma server_steps_aux [steps_intro]:
  "steps R view (set_condition_now C gs t st reason msg)"
  "steps R view (set_backup_condition_now C b t st reason msg)"
  "steps R view (set_schedule_condition_now C bs t st reason msg)"
  "steps R view (applyService C svc)" "steps R view (ensureServiceAccount C gs)"
  "steps R view (resolveRestoreSource C gs)" "steps R view (report_failure C gs ct reason msg ph)"
  unfolding set_condition_now_def set_backup_condition_now_def set_schedule_condition_now_def
    applyService_def ensureServiceAccount_def resolveRestoreSource_def report_failure_def updateStatus_def Let_def
  by (intro steps_intro)+

lemma services_steps [steps_intro]: "steps R view (apply_services L C gs svcs applied)"
proof (induction svcs arbitrary: applied)
  case (Cons svc svcs)
  show ?case unfolding apply_services.simps by (intro steps_intro Cons.IH)
qed (simp add: steps_return)

lemma built_steps [steps_intro]:
  "steps R view (applyDeployment C (BuildDeployment L gs tpl\<lparr>depMeta := m\<rparr>))"
  by (rule deployment_steps) (rule built_hardened [of _ L gs tpl], simp)

lemma report_steps [steps_intro]: "steps R view (report_status C gs tpl svcs)"
  unfolding report_status_def updateStatus_def Let_def by (intro steps_intro)

lemma workload_steps [steps_intro]: "steps R view (reconcile_workload L C gs tpl)"
  unfolding reconcile_workload_def Let_def by (intro built_steps steps_intro)

lemma GameServer_steps: "steps R view (GameServer_Reconcile L C k)"
  unfolding GameServer_Reconcile_def reconcile_resolved_def reconcile_storage_def reconcile_pvc_def updateStatus_def Let_def
  by (intro steps_intro)

lemma GameTemplate_steps: "steps R view (GameTemplate_Reconcile C k)"
  unfolding GameTemplate_Reconcile_def Let_def by (intro steps_intro)

lemma Backup_steps: "steps R view (Backup_Reconcile L C k)"
  unfolding Backup_Reconcile_def reconcile_snapshot_def mirror_snapshot_def backup_waiting_def backup_missing_server_def
    updateBackupStatus_def Let_def
  by (intro steps_intro)

lemma retention_steps [steps_intro]: "steps R view (retention_loop C keep kept bs)"
proof (induction bs arbitrary: kept)
  case (Cons b bs)
  show ?case unfolding retention_loop.simps by (intro steps_intro Cons.IH)
qed (simp add: steps_return)

lemma BackupSchedule_steps:
  assumes "\<And>f w. injected = Some f \<Longrightarrow> R\<^sup>*\<^sup>* (view w) (view (snd (f w)))"
  shows "steps R view (BackupSchedule_Reconcile L injected C k)"
proof -
  have "steps R view (schedule_now injected C)"
  proof (cases injected)
    case (Some f)
    have "goes R (view w) (view w')" if "f w = (t, w')" for w w' t
      using others_go [OF assms [OF Some, of w]] that by simp
    then show ?thesis by (auto simp: Some schedule_now_def Now_def emit_def split: prod.split intro: stepsI)
  qed (simp add: schedule_now_def steps_Now)
  then show ?thesis
    unfolding BackupSchedule_Reconcile_def invalid_schedule_def run_schedule_def finish_schedule_def spawnBackup_def
      applyRetention_def refreshChildStatus_def list_children_def Let_def
    by (intro steps_intro)
qed

end

end
