(* ===== verification/SharedProperties.thy ===== *)
theory SharedProperties
  imports Shared OperatorProperties
begin

text \<open>
  Safety on a shared cluster, and an instance of its contract: the store of theory \<open>Store\<close>, with pods that
  become ready between any two calls, and answers that get lost.
\<close>

section \<open>A busy store\<close>

definition lost :: go_error where
  "lost = GoError OtherReason ''the request timed out''"

text \<open>Before every call the others act; when the server is down, reads fail and writes happen unanswered.\<close>

definition disturb_ops :: "('w \<Rightarrow> 'w) \<Rightarrow> ('w \<Rightarrow> bool) \<Rightarrow> ('w, 'o) ops \<Rightarrow> ('w, 'o) ops" where
  "disturb_ops others down ops =
     \<lparr>opGet = (\<lambda>k w. let w = others w in if down w then (Inl lost, w) else opGet ops k w),
      opList = (\<lambda>ns ls w. let w = others w in if down w then (Inl lost, w) else opList ops ns ls w),
      opCreate = (\<lambda>x w. let (r, w') = opCreate ops x (others w) in (if down w' then Inl lost else r, w')),
      opUpdate = (\<lambda>x w. let (r, w') = opUpdate ops x (others w) in (if down w' then Inl lost else r, w')),
      opStatusUpdate = (\<lambda>x w. let (r, w') = opStatusUpdate ops x (others w) in (if down w' then Inl lost else r, w')),
      opDelete = (\<lambda>x w. let (r, w') = opDelete ops x (others w) in (if down w' then Some lost else r, w'))\<rparr>"

lemma disturb_shared:
  fixes view :: "'w \<Rightarrow> cluster"
  assumes kind: "api_kind ops view sel upd meta stored put_status"
    and missing: "\<And>x w. fmlookup (sel (view w)) (object_key (meta x)) = None \<Longrightarrow>
      view (snd (opUpdate ops x w)) = view w \<and> view (snd (opStatusUpdate ops x w)) = view w
      \<and> view (snd (opDelete ops x w)) = view w"
    and others: "\<And>w. R\<^sup>*\<^sup>* (view w) (view (others w))"
  shows "shared_kind (disturb_ops others down ops) view sel upd meta stored put_status R"
proof
  note kinds = api_kind.get_found [OF kind] api_kind.get_missing [OF kind]
  fix w :: 'w and k x ns labels
  let ?w = "others w"
  show "R\<^sup>*\<^sup>* (view w) (view (snd (opGet (disturb_ops others down ops) k w)))"
    using others [of w] kinds(1) [of ?w k] kinds(2) [of ?w k]
    by (cases "fmlookup (sel (view ?w)) k") (auto simp: disturb_ops_def Let_def)
  show "R\<^sup>*\<^sup>* (view w) (view (snd (opList (disturb_ops others down ops) ns labels w)))"
    using others [of w] api_kind.list_all_selected [OF kind, of ns labels ?w] by (auto simp: disturb_ops_def Let_def)
  show "object_key (meta x) = k \<and> (\<exists>c. goes R c (view w') \<and> fmlookup (sel c) k = Some x)"
    if "opGet (disturb_ops others down ops) k w = (Inr x, w')" for w'
  proof (cases "fmlookup (sel (view ?w)) k")
    case (Some y)
    with kinds(1) [of ?w k] that have "x = y" "view w' = view ?w" by (auto simp: disturb_ops_def Let_def split: if_splits)
    with Some api_kind.keyed [OF kind Some] show ?thesis by (auto intro: exI [of _ "view ?w"])
  qed (use kinds(2) [of ?w k] that in \<open>auto simp: disturb_ops_def Let_def split: if_splits\<close>)
  show "call R (\<lambda>c c'. \<exists>y. fmlookup (sel c) (object_key (meta x)) = None \<and> stored None x y
      \<and> c' = upd (fmupd (object_key (meta x)) y) c) (view w) (view (snd (opCreate (disturb_ops others down ops) x w)))"
    unfolding call_def using others [of w] api_kind.create_new [OF kind, of ?w x] api_kind.create_existing [OF kind, of ?w x]
    by (intro exI [of _ "view ?w"]; cases "fmlookup (sel (view ?w)) (object_key (meta x))")
      (auto simp: disturb_ops_def Let_def split_beta)
  show "call R (\<lambda>c c'. \<exists>z y. fmlookup (sel c) (object_key (meta x)) = Some z \<and> stored (Some z) x y
      \<and> c' = upd (fmupd (object_key (meta x)) y) c) (view w) (view (snd (opUpdate (disturb_ops others down ops) x w)))"
    unfolding call_def using others [of w] api_kind.update_existing [OF kind, of ?w x] missing [of ?w x]
    by (intro exI [of _ "view ?w"]; cases "fmlookup (sel (view ?w)) (object_key (meta x))")
      (auto simp: disturb_ops_def Let_def split_beta)
  show "call R (\<lambda>c c'. \<exists>z. fmlookup (sel c) (object_key (meta x)) = Some z
      \<and> c' = upd (fmupd (object_key (meta x)) (put_status x z)) c) (view w)
      (view (snd (opStatusUpdate (disturb_ops others down ops) x w)))"
    unfolding call_def using others [of w] api_kind.status_existing [OF kind, of ?w x] missing [of ?w x]
    by (intro exI [of _ "view ?w"]; cases "fmlookup (sel (view ?w)) (object_key (meta x))")
      (auto simp: disturb_ops_def Let_def split_beta)
  show "call R (\<lambda>c c'. c' = upd (fmdrop (object_key (meta x))) c) (view w)
      (view (snd (opDelete (disturb_ops others down ops) x w)))"
    unfolding call_def using others [of w] api_kind.delete_existing [OF kind, of ?w x] missing [of ?w x]
    by (intro exI [of _ "view ?w"]; cases "fmlookup (sel (view ?w)) (object_key (meta x))")
      (auto simp: disturb_ops_def Let_def split_beta)
qed

definition disturb :: "('w \<Rightarrow> 'w) \<Rightarrow> ('w \<Rightarrow> bool) \<Rightarrow> 'w client \<Rightarrow> 'w client" where
  "disturb others down C =
     \<lparr>GameServers = disturb_ops others down (GameServers C), GameTemplates = disturb_ops others down (GameTemplates C),
      Backups = disturb_ops others down (Backups C), BackupSchedules = disturb_ops others down (BackupSchedules C),
      VolumeSnapshots = disturb_ops others down (VolumeSnapshots C), PVCs = disturb_ops others down (PVCs C),
      Deployments = disturb_ops others down (Deployments C), Services = disturb_ops others down (Services C),
      ServiceAccounts = disturb_ops others down (ServiceAccounts C), Clock = Clock C\<rparr>"

text \<open>The others: every pod becomes ready.\<close>

definition all_ready :: "cluster \<Rightarrow> cluster" where
  "all_ready c = c\<lparr>clDeployments := fmmap (\<lambda>d. d\<lparr>depReadyReplicas := 1\<rparr>) (clDeployments c)\<rparr>"

abbreviation pods_ready :: "cluster \<Rightarrow> cluster \<Rightarrow> bool" where
  "pods_ready c c' \<equiv> c' = all_ready c"

text \<open>The server is down in the third second.\<close>

definition busy_client :: "(cluster \<times> gotime) client" where
  "busy_client = disturb (\<lambda>(c, t). (all_ready c, t)) (\<lambda>(c, t). t div Second = 2) store_client"

lemma all_ready_view: "store_view (all_ready c, t) = all_ready (store_view (c, t))"
proof -
  have "keyed_view depMeta (fmmap (\<lambda>d. d\<lparr>depReadyReplicas := 1\<rparr>) m) = fmmap (\<lambda>d. d\<lparr>depReadyReplicas := 1\<rparr>) (keyed_view depMeta m)" for m
    by (rule fmap_ext) (simp add: keyed_view_lookup split: option.split)
  then show ?thesis by (simp add: store_view_def keyed_cluster_def all_ready_def)
qed

interpretation busy: shared_server busy_client store_view pods_ready
proof -
  have others: "pods_ready\<^sup>*\<^sup>* (store_view w) (store_view (case w of (c, t) \<Rightarrow> (all_ready c, t)))" for w
    by (cases w) (auto simp: all_ready_view)
  note disturbed = disturb_shared [where R = pods_ready and view = store_view and others = "\<lambda>(c, t). (all_ready c, t)",
      OF _ _ others]
  show "shared_server busy_client store_view pods_ready"
    unfolding shared_server_def shared_server_axioms_def busy_client_def disturb_def client.simps
    by (intro conjI allI impI disturbed store.servers.api_kind_axioms store.templates.api_kind_axioms
        store.backups.api_kind_axioms store.schedules.api_kind_axioms store.snapshots.api_kind_axioms
        store.claims.api_kind_axioms store.deployments.api_kind_axioms store.services.api_kind_axioms
        store.accounts.api_kind_axioms)
      (auto simp: store_client_def store_ops_def store_view_def keyed_cluster_def Let_def all_ready_def grown_def)
qed

section \<open>Properties\<close>

lemma own_step_keeps:
  assumes "own_step c c'"
  shows "grown same_claim (clPVCs c) (clPVCs c')" and "all_hardened c \<Longrightarrow> all_hardened c'"
  using assms unfolding own_step_def deployments_safe_def all_hardened_def by blast+

lemma goes_keeps:
  assumes "goes R c c'" and "\<And>c c'. R c c' \<Longrightarrow> grown same_claim (clPVCs c) (clPVCs c')"
    and "\<And>c c'. R c c' \<Longrightarrow> all_hardened c \<Longrightarrow> all_hardened c'"
  shows "grown same_claim (clPVCs c) (clPVCs c') \<and> (all_hardened c \<longrightarrow> all_hardened c')"
  using assms(1) unfolding goes_def
proof induction
  case (step c1 c2)
  have claims: "grown same_claim (clPVCs c1) (clPVCs c2)"
    and hard: "all_hardened c1 \<Longrightarrow> all_hardened c2"
    using step.hyps(2) assms(2,3) [of c1 c2] own_step_keeps [of c1 c2] by blast+
  have "grown same_claim (clPVCs c) (clPVCs c2)"
    by (rule grown_trans [OF _ _ claims]) (use step.IH in simp_all)
  with step.IH hard show ?case by blast
qed simp

text \<open>The runs of the four reconcilers.\<close>

definition reconciles :: "lib \<Rightarrow> 'w client \<Rightarrow> ('w \<Rightarrow> gotime \<times> 'w) option \<Rightarrow> key \<Rightarrow> ('w, outcome) io list" where
  "reconciles L C injected k =
     [GameServer_Reconcile L C k, GameTemplate_Reconcile C k, Backup_Reconcile L C k,
      BackupSchedule_Reconcile L injected C k]"

text \<open>C9. The operator is safe on a cluster that it shares. Between any two calls of a run others may act (\<open>R\<close>:
  users, storage, pods, and other runs of the operator, whose steps are own steps as well), reads may be stale,
  calls may fail, and a write that was reported failed may have happened. Then all that happens to the cluster
  during a run of any reconciler is steps of the others and own steps; an own step leaves the specifications of
  the users, snapshots, accounts and the specification of every claim as they are and makes only hardened
  Deployments. So if the others neither touch claims nor weaken Deployments, every world is kept and all
  Deployments stay hardened.\<close>
theorem shared_cluster_is_safe:
  assumes "shared_server C view R" and "run \<in> set (reconciles L C injected k)"
    and "\<forall>f w. injected = Some f \<longrightarrow> R\<^sup>*\<^sup>* (view w) (view (snd (f w)))"
    and "\<forall>c c'. R c c' \<longrightarrow> all_hardened c \<longrightarrow> all_hardened c'"
  shows "(\<lambda>c c'. R c c' \<or> own_step c c')\<^sup>*\<^sup>* (view (world s)) (cluster_after view run s)
    \<and> grown same_claim (clPVCs (view (world s))) (clPVCs (cluster_after view run s))
    \<and> (all_hardened (view (world s)) \<longrightarrow> all_hardened (cluster_after view run s))"
proof -
  have "steps R view (BackupSchedule_Reconcile L injected C k)"
    by (rule shared_server.BackupSchedule_steps [OF assms(1)]) (use assms(3) in blast)
  with assms(2) have "steps R view run"
    using shared_server.GameServer_steps [OF assms(1), of L k] shared_server.GameTemplate_steps [OF assms(1), of k]
      shared_server.Backup_steps [OF assms(1), of L k]
    by (auto simp: reconciles_def)
  then have path: "goes R (view (world s)) (cluster_after view run s)"
    by (simp add: steps_def cluster_after_def)
  from goes_keeps [OF this] shared_server.claims_stay [OF assms(1)] assms(4) path show ?thesis
    unfolding goes_def by blast
qed

theorem shared_cluster_is_safe_witness:
  "all_hardened (cluster_after store_view (GameServer_Reconcile demo_lib busy_client (''games'', ''midgard''))
     (in_store demo_cluster))"
proof -
  have "all_hardened (all_ready c)" if "all_hardened c" for c
    unfolding all_hardened_def
  proof (intro allI impI)
    fix k d assume "fmlookup (clDeployments (all_ready c)) k = Some d"
    then obtain d0 where "fmlookup (clDeployments c) k = Some d0" "depSpec d = depSpec d0" by (auto simp: all_ready_def)
    with that show "hardened d" unfolding all_hardened_def hardened_def by metis
  qed
  then have "\<forall>c c'. pods_ready c c' \<longrightarrow> all_hardened c \<longrightarrow> all_hardened c'" by blast
  moreover have "GameServer_Reconcile demo_lib busy_client (''games'', ''midgard'')
      \<in> set (reconciles demo_lib busy_client None (''games'', ''midgard''))" by (simp add: reconciles_def)
  moreover have "all_hardened (store_view (world (in_store demo_cluster)))"
    using demo_start_view by (simp add: all_hardened_def demo_cluster_def in_store_def store_view_def keyed_cluster_def keyed_view_def)
  ultimately show ?thesis
    using shared_cluster_is_safe [OF busy.shared_server_axioms, of "GameServer_Reconcile demo_lib busy_client (''games'', ''midgard'')" demo_lib None
      "(''games'', ''midgard'')" "in_store demo_cluster"] by simp
qed

end
