(* ===== verification/Go_Memory.thy ===== *)
theory Go_Memory
  imports Config
begin

text \<open>
  Go's memory as far as copying a value is concerned: the heads of pointers, slices and maps are values
  that hold an address, and what they refer to lies in a cell of the memory. A type says which fields of a
  struct are such heads. On it rest what a value holds (\<open>content\<close>), which cells it reaches
  (\<open>reach\<close>), and what it means that a function copies deeply: the copy holds the same and reaches only
  cells that were allocated for it.
\<close>

section \<open>Values, types and cells\<close>

datatype basic = StrV string | IntV int | BoolV bool

text \<open>A slice is the address of an array, an offset and a length; nil pointers, slices and maps are \<open>None\<close>.\<close>

datatype gval = Basic basic | Struct "(string \<times> gval) list" | Ptr "nat option"
  | SliceV "(nat \<times> nat \<times> nat) option" | MapV "nat option"

datatype gtype = TBasic | TStruct "(string \<times> gtype) list" | TPtr gtype | TSlice gtype | TMap gtype

datatype cell = Cell gval | Arr "gval list" | Dict "(string, gval) fmap"

record mem =
  limit :: nat
  cells :: "nat \<Rightarrow> cell"

text \<open>What a value holds, with the memory read away.\<close>

datatype tree = TrBasic basic | TrStruct "(string \<times> tree) list" | TrNil | TrPtr tree | TrSlice "tree list"
  | TrMap "(string, tree) fmap"

section \<open>Reading a value\<close>

definition window :: "nat \<Rightarrow> nat \<Rightarrow> 'a list \<Rightarrow> 'a list" where
  "window off len xs = take len (drop off xs)"

definition cell_value :: "cell \<Rightarrow> gval option" where
  "cell_value c = (case c of Cell v \<Rightarrow> Some v | _ \<Rightarrow> None)"

definition cell_array :: "cell \<Rightarrow> gval list" where
  "cell_array c = (case c of Arr vs \<Rightarrow> vs | _ \<Rightarrow> [])"

definition cell_dict :: "cell \<Rightarrow> (string, gval) fmap option" where
  "cell_dict c = (case c of Dict d \<Rightarrow> Some d | _ \<Rightarrow> None)"

lemma cell_simps [simp]:
  "cell_value (Cell v) = Some v" "cell_array (Arr vs) = vs" "cell_dict (Dict d) = Some d"
  by (simp_all add: cell_value_def cell_array_def cell_dict_def)

text \<open>A value of a type, all of whose addresses are allocated and hold what the type says.\<close>

fun well_typed :: "gtype \<Rightarrow> mem \<Rightarrow> gval \<Rightarrow> bool"
  and fields_typed :: "(string \<times> gtype) list \<Rightarrow> mem \<Rightarrow> (string \<times> gval) list \<Rightarrow> bool" where
  "well_typed TBasic m v = (case v of Basic _ \<Rightarrow> True | _ \<Rightarrow> False)"
| "well_typed (TStruct ts) m v = (case v of Struct fs \<Rightarrow> fields_typed ts m fs | _ \<Rightarrow> False)"
| "well_typed (TPtr t) m v =
     (case v of
        Ptr None \<Rightarrow> True
      | Ptr (Some a) \<Rightarrow> a < limit m \<and> (case cell_value (cells m a) of Some x \<Rightarrow> well_typed t m x | None \<Rightarrow> False)
      | _ \<Rightarrow> False)"
| "well_typed (TSlice t) m v =
     (case v of
        SliceV None \<Rightarrow> True
      | SliceV (Some (a, off, len)) \<Rightarrow> a < limit m \<and> off + len \<le> length (cell_array (cells m a))
          \<and> list_all (\<lambda>x. well_typed t m x) (window off len (cell_array (cells m a)))
      | _ \<Rightarrow> False)"
| "well_typed (TMap t) m v =
     (case v of
        MapV None \<Rightarrow> True
      | MapV (Some a) \<Rightarrow> a < limit m
          \<and> (case cell_dict (cells m a) of Some d \<Rightarrow> fmpred (\<lambda>_ x. well_typed t m x) d | None \<Rightarrow> False)
      | _ \<Rightarrow> False)"
| "fields_typed [] m fs = (fs = [])"
| "fields_typed ((n, t) # ts) m fs =
     (case fs of [] \<Rightarrow> False | f # fs' \<Rightarrow> fst f = n \<and> well_typed t m (snd f) \<and> fields_typed ts m fs')"

fun content :: "gtype \<Rightarrow> mem \<Rightarrow> gval \<Rightarrow> tree"
  and fields_content :: "(string \<times> gtype) list \<Rightarrow> mem \<Rightarrow> (string \<times> gval) list \<Rightarrow> (string \<times> tree) list" where
  "content TBasic m v = (case v of Basic b \<Rightarrow> TrBasic b | _ \<Rightarrow> TrNil)"
| "content (TStruct ts) m v = (case v of Struct fs \<Rightarrow> TrStruct (fields_content ts m fs) | _ \<Rightarrow> TrNil)"
| "content (TPtr t) m v =
     (case v of
        Ptr (Some a) \<Rightarrow> (case cell_value (cells m a) of Some x \<Rightarrow> TrPtr (content t m x) | None \<Rightarrow> TrNil)
      | _ \<Rightarrow> TrNil)"
| "content (TSlice t) m v =
     (case v of
        SliceV (Some (a, off, len)) \<Rightarrow>
          TrSlice (map (\<lambda>x. content t m x) (window off len (cell_array (cells m a))))
      | _ \<Rightarrow> TrNil)"
| "content (TMap t) m v =
     (case v of
        MapV (Some a) \<Rightarrow>
          (case cell_dict (cells m a) of Some d \<Rightarrow> TrMap (fmmap (\<lambda>x. content t m x) d) | None \<Rightarrow> TrNil)
      | _ \<Rightarrow> TrNil)"
| "fields_content [] m fs = []"
| "fields_content ((n, t) # ts) m fs =
     (case fs of [] \<Rightarrow> [] | f # fs' \<Rightarrow> (n, content t m (snd f)) # fields_content ts m fs')"

fun reach :: "gtype \<Rightarrow> mem \<Rightarrow> gval \<Rightarrow> nat set"
  and fields_reach :: "(string \<times> gtype) list \<Rightarrow> mem \<Rightarrow> (string \<times> gval) list \<Rightarrow> nat set" where
  "reach TBasic m v = {}"
| "reach (TStruct ts) m v = (case v of Struct fs \<Rightarrow> fields_reach ts m fs | _ \<Rightarrow> {})"
| "reach (TPtr t) m v =
     (case v of
        Ptr (Some a) \<Rightarrow> insert a (case cell_value (cells m a) of Some x \<Rightarrow> reach t m x | None \<Rightarrow> {})
      | _ \<Rightarrow> {})"
| "reach (TSlice t) m v =
     (case v of
        SliceV (Some (a, off, len)) \<Rightarrow>
          insert a (\<Union> (set (map (\<lambda>x. reach t m x) (window off len (cell_array (cells m a))))))
      | _ \<Rightarrow> {})"
| "reach (TMap t) m v =
     (case v of
        MapV (Some a) \<Rightarrow>
          insert a (case cell_dict (cells m a) of Some d \<Rightarrow> \<Union> ((\<lambda>x. reach t m x) ` fmran' d) | None \<Rightarrow> {})
      | _ \<Rightarrow> {})"
| "fields_reach [] m fs = {}"
| "fields_reach ((n, t) # ts) m fs =
     (case fs of [] \<Rightarrow> {} | f # fs' \<Rightarrow> reach t m (snd f) \<union> fields_reach ts m fs')"

text \<open>The types without a head: a copy of the value is a deep copy.\<close>

fun pointer_free :: "gtype \<Rightarrow> bool" and fields_free :: "(string \<times> gtype) list \<Rightarrow> bool" where
  "pointer_free TBasic = True"
| "pointer_free (TStruct ts) = fields_free ts"
| "pointer_free (TPtr t) = False"
| "pointer_free (TSlice t) = False"
| "pointer_free (TMap t) = False"
| "fields_free [] = True"
| "fields_free ((n, t) # ts) = (pointer_free t \<and> fields_free ts)"

section \<open>What is not written stays\<close>

text \<open>A memory that agrees on the cells a value reaches has the value as it is.\<close>

lemma agree:
  "(\<forall>a \<in> reach t m v. cells m' a = cells m a) \<Longrightarrow> limit m \<le> limit m' \<Longrightarrow>
    content t m' v = content t m v \<and> reach t m' v = reach t m v \<and> (well_typed t m v \<longrightarrow> well_typed t m' v)"
  "(\<forall>a \<in> fields_reach ts m fs. cells m' a = cells m a) \<Longrightarrow> limit m \<le> limit m' \<Longrightarrow>
    fields_content ts m' fs = fields_content ts m fs \<and> fields_reach ts m' fs = fields_reach ts m fs
    \<and> (fields_typed ts m fs \<longrightarrow> fields_typed ts m' fs)"
proof (induction t m v and ts m fs rule: reach_fields_reach.induct)
  case (4 t m v)
  then show ?case
    by (cases v) (auto simp: list_all_iff split: option.splits)
next
  case (5 t m v)
  show ?case
  proof (cases "\<exists>a d. v = MapV (Some a) \<and> cell_dict (cells m a) = Some d")
    case True
    then obtain a d where v: "v = MapV (Some a)" and d: "cell_dict (cells m a) = Some d" by blast
    have each: "content t m' x = content t m x \<and> reach t m' x = reach t m x
        \<and> (well_typed t m x \<longrightarrow> well_typed t m' x)" if "x \<in> fmran' d" for x
      using "5.IH" [OF v refl d] "5.prems" that by (auto simp: v d)
    have "cells m' a = cells m a" using "5.prems"(1) by (simp add: v)
    moreover have "fmmap (content t m') d = fmmap (content t m) d"
      using each by (intro fmap.map_cong0) blast
    moreover have "(\<Union>x\<in>fmran' d. reach t m' x) = (\<Union>x\<in>fmran' d. reach t m x)" using each by simp
    ultimately show ?thesis
      using each "5.prems"(2) by (auto simp: v d fmpred_iff intro: fmran'I)
  qed (use "5.prems" in \<open>auto split: gval.splits option.splits\<close>)
qed (auto split: gval.splits option.splits list.splits)

lemma reach_allocated:
  "well_typed t m v \<Longrightarrow> reach t m v \<subseteq> {..<limit m}"
  "fields_typed ts m fs \<Longrightarrow> fields_reach ts m fs \<subseteq> {..<limit m}"
proof (induction t m v and ts m fs rule: reach_fields_reach.induct)
  case (4 t m v)
  then show ?case
    by (cases v) (auto simp: list_all_iff split: option.splits, force)
next
  case (5 t m v)
  then show ?case
    by (cases v) (auto simp: fmpred_iff split: option.splits cell.splits, metis fmran'E lessThan_iff subset_iff)
qed (auto split: gval.splits option.splits list.splits)

lemma pointer_free_typed:
  "pointer_free t \<Longrightarrow> well_typed t m v \<Longrightarrow> reach t m v = {}"
  "fields_free ts \<Longrightarrow> fields_typed ts m fs \<Longrightarrow> fields_reach ts m fs = {}"
  by (induction t m v and ts m fs rule: reach_fields_reach.induct)
    (auto split: gval.splits option.splits list.splits)

text \<open>A memory that has grown: new cells, the old ones as they were.\<close>

definition grows :: "mem \<Rightarrow> mem \<Rightarrow> bool" where
  "grows m m' \<longleftrightarrow> limit m \<le> limit m' \<and> (\<forall>a < limit m. cells m' a = cells m a)"

lemma grows_refl [simp]: "grows m m"
  by (simp add: grows_def)

lemma grows_trans: "grows m m' \<Longrightarrow> grows m' m'' \<Longrightarrow> grows m m''"
  by (simp add: grows_def)

lemma grown_value:
  assumes "grows m m'" and "well_typed t m v"
  shows "content t m' v = content t m v" and "reach t m' v = reach t m v" and "well_typed t m' v"
proof -
  have "\<forall>a \<in> reach t m v. cells m' a = cells m a" "limit m \<le> limit m'"
    using reach_allocated(1) [OF assms(2)] assms(1) by (auto simp: grows_def)
  from agree(1) [OF this] assms(2)
  show "content t m' v = content t m v" "reach t m' v = reach t m v" "well_typed t m' v" by simp_all
qed

end
