(* ===== verification/Go_Copy.thy ===== *)
theory Go_Copy
  imports Go_Memory
begin

text \<open>
  Programs on the memory, and the ways Go code copies a field: the assignment, a new variable behind a
  pointer, the built-in \<open>copy\<close>, the loop over the elements of a slice, the loop over the entries of a map, and
  the copy of a struct field by field. Each is shown to copy deeply.
\<close>

section \<open>Programs on the memory\<close>

type_synonym 'a gomem = "(mem, 'a) state"

definition alloc :: "cell \<Rightarrow> nat gomem" where
  "alloc c = State (\<lambda>m. (limit m, m\<lparr>limit := Suc (limit m), cells := (cells m)(limit m := c)\<rparr>))"

definition load :: "nat \<Rightarrow> cell gomem" where
  "load a = State (\<lambda>m. (cells m a, m))"

definition store :: "nat \<Rightarrow> cell \<Rightarrow> unit gomem" where
  "store a c = State (\<lambda>m. ((), m\<lparr>cells := (cells m)(a := c)\<rparr>))"

text \<open>A function that copies the value of a variable: \<open>DeepCopyInto\<close> without its two pointers, from what
  \<open>*in\<close> holds to what \<open>*out\<close> holds in the end.\<close>

type_synonym copier = "gval \<Rightarrow> gval gomem"

definition copies :: "gtype \<Rightarrow> mem \<Rightarrow> gval \<Rightarrow> gval \<Rightarrow> mem \<Rightarrow> bool" where
  "copies t m v v' m' \<longleftrightarrow> grows m m' \<and> well_typed t m' v' \<and> content t m' v' = content t m v
     \<and> reach t m' v' \<inter> {..<limit m} = {}"

definition deep_copier :: "gtype \<Rightarrow> copier \<Rightarrow> bool" where
  "deep_copier t f \<longleftrightarrow> (\<forall>m v. well_typed t m v \<longrightarrow> copies t m v (fst (run_state (f v) m)) (snd (run_state (f v) m)))"

lemma deep_copierI:
  assumes "\<And>m v. well_typed t m v \<Longrightarrow> copies t m v (fst (run_state (f v) m)) (snd (run_state (f v) m))"
  shows "deep_copier t f"
  using assms by (simp add: deep_copier_def)

lemma deep_copierD:
  assumes "deep_copier t f" and "well_typed t m v" and "run_state (f v) m = (v', m')"
  shows "grows m m'" and "well_typed t m' v'" and "content t m' v' = content t m v"
    and "reach t m' v' \<inter> {..<limit m} = {}"
proof -
  have "copies t m v (fst (run_state (f v) m)) (snd (run_state (f v) m))"
    using assms(1,2) unfolding deep_copier_def by blast
  then show "grows m m'" "well_typed t m' v'" "content t m' v' = content t m v" "reach t m' v' \<inter> {..<limit m} = {}"
    unfolding assms(3) by (simp_all add: copies_def)
qed

section \<open>The ways a field is copied\<close>

text \<open>\<open>new(T)\<close> and \<open>make([]T, n)\<close> hold zero values, which are overwritten before they are read.\<close>

definition zero_val :: gval where "zero_val = Basic (IntV 0)"

definition assign :: copier where
  "assign v = State_Monad.return v"

text \<open>A copy in a new variable, of what a pointer that is not nil points to.\<close>

definition new_copy :: "copier \<Rightarrow> nat option \<Rightarrow> nat option gomem" where
  "new_copy f p =
     (case p of
        None \<Rightarrow> State_Monad.return None
      | Some a \<Rightarrow> do {
          out \<leftarrow> alloc (Cell zero_val);
          src \<leftarrow> load a;
          x \<leftarrow> f (case cell_value src of Some x \<Rightarrow> x | None \<Rightarrow> zero_val);
          store out (Cell x);
          State_Monad.return (Some out) })"

definition copy_ptr :: "copier \<Rightarrow> copier" where
  "copy_ptr f v =
     (case v of
        Ptr p \<Rightarrow> do { out \<leftarrow> new_copy f p; State_Monad.return (Ptr out) }
      | _ \<Rightarrow> State_Monad.return v)"

text \<open>The guard before a pointer that has a copy function of its own.\<close>

definition unless_nil :: "copier \<Rightarrow> copier" where
  "unless_nil f v = (case v of Ptr None \<Rightarrow> State_Monad.return v | _ \<Rightarrow> f v)"

text \<open>The built-in \<open>copy\<close> of a slice, and the loop over its elements.\<close>

definition copy_slice :: copier where
  "copy_slice v =
     (case v of
        SliceV (Some (a, off, len)) \<Rightarrow> do {
          out \<leftarrow> alloc (Arr (replicate len zero_val));
          src \<leftarrow> load a;
          store out (Arr (window off len (cell_array src)));
          State_Monad.return (SliceV (Some (out, 0, len))) }
      | _ \<Rightarrow> State_Monad.return v)"

primrec copy_elems :: "copier \<Rightarrow> nat \<Rightarrow> nat \<Rightarrow> nat \<Rightarrow> nat \<Rightarrow> nat \<Rightarrow> unit gomem" where
  "copy_elems f a off out i 0 = State_Monad.return ()"
| "copy_elems f a off out i (Suc k) = do {
     src \<leftarrow> load a;
     x \<leftarrow> f (cell_array src ! (off + i));
     dst \<leftarrow> load out;
     store out (Arr ((cell_array dst)[i := x]));
     copy_elems f a off out (Suc i) k }"

definition copy_slice_each :: "copier \<Rightarrow> copier" where
  "copy_slice_each f v =
     (case v of
        SliceV (Some (a, off, len)) \<Rightarrow> do {
          out \<leftarrow> alloc (Arr (replicate len zero_val));
          copy_elems f a off out 0 len;
          State_Monad.return (SliceV (Some (out, 0, len))) }
      | _ \<Rightarrow> State_Monad.return v)"

text \<open>The loop over a map, in the order of the runtime.\<close>

primrec copy_entries :: "nat \<Rightarrow> nat \<Rightarrow> string list \<Rightarrow> unit gomem" where
  "copy_entries a out [] = State_Monad.return ()"
| "copy_entries a out (key # keys) = do {
     src \<leftarrow> load a;
     dst \<leftarrow> load out;
     (case (cell_dict src, cell_dict dst) of
        (Some d, Some d') \<Rightarrow> (case fmlookup d key of
            Some val \<Rightarrow> store out (Dict (fmupd key val d'))
          | None \<Rightarrow> State_Monad.return ())
      | _ \<Rightarrow> State_Monad.return ());
     copy_entries a out keys }"

definition copy_map :: "(string fset \<Rightarrow> string list) \<Rightarrow> copier" where
  "copy_map order v =
     (case v of
        MapV (Some a) \<Rightarrow> do {
          out \<leftarrow> alloc (Dict fmempty);
          src \<leftarrow> load a;
          copy_entries a out (case cell_dict src of Some d \<Rightarrow> order (fmdom d) | None \<Rightarrow> []);
          State_Monad.return (MapV (Some out)) }
      | _ \<Rightarrow> State_Monad.return v)"

section \<open>Each of them copies deeply\<close>

lemma assign_deep: "pointer_free t \<Longrightarrow> deep_copier t assign"
  by (rule deep_copierI) (simp add: assign_def copies_def pointer_free_typed(1))

lemma nil_copies:
  "well_typed t m v \<Longrightarrow> reach t m v = {} \<Longrightarrow> copies t m v v m"
  by (simp add: copies_def)

lemma copy_ptr_deep:
  assumes f: "deep_copier t f"
  shows "deep_copier (TPtr t) (copy_ptr f)"
proof (rule deep_copierI)
  fix m v assume v: "well_typed (TPtr t) m v"
  show "copies (TPtr t) m v (fst (run_state (copy_ptr f v) m)) (snd (run_state (copy_ptr f v) m))"
  proof (cases "\<exists>a. v = Ptr (Some a)")
    case True
    then obtain a x where a: "v = Ptr (Some a)" "a < limit m" "cells m a = Cell x" "well_typed t m x"
      using v by (auto split: option.splits simp: cell_value_def split: cell.splits)
    let ?m = "m\<lparr>limit := Suc (limit m), cells := (cells m)(limit m := Cell zero_val)\<rparr>"
    have grow: "grows m ?m" by (simp add: grows_def)
    obtain x' m' where run: "run_state (f x) ?m = (x', m')" by fastforce
    note x = grown_value [OF grow a(4)]
    note c = deep_copierD [OF f x(3) run]
    let ?m' = "m'\<lparr>cells := (cells m')(limit m := Cell x')\<rparr>"
    have lim: "Suc (limit m) \<le> limit m'" using c(1) by (simp add: grows_def)
    have fresh: "limit m \<notin> reach t m' x'" using c(4) by auto
    then have agree: "content t ?m' x' = content t m' x'" "reach t ?m' x' = reach t m' x'" "well_typed t ?m' x'"
      using agree(1) [of t m' x' ?m'] c(2) by auto
    have "grows m ?m'" using c(1) by (auto simp: grows_def)
    moreover have "run_state (copy_ptr f v) m = (Ptr (Some (limit m)), ?m')"
      using a run by (simp add: copy_ptr_def new_copy_def alloc_def load_def store_def)
    ultimately show ?thesis
      using a lim agree c x by (auto simp: copies_def)
  qed (use v in \<open>auto simp: copy_ptr_def new_copy_def intro!: nil_copies split: gval.splits option.splits\<close>)
qed

lemma unless_nil_deep:
  assumes "deep_copier (TPtr t) f"
  shows "deep_copier (TPtr t) (unless_nil f)"
proof (rule deep_copierI)
  fix m v assume v: "well_typed (TPtr t) m v"
  show "copies (TPtr t) m v (fst (run_state (unless_nil f v) m)) (snd (run_state (unless_nil f v) m))"
  proof (cases "v = Ptr None")
    case False
    then have "unless_nil f v = f v" by (simp add: unless_nil_def split: gval.splits option.splits)
    with assms v show ?thesis by (simp add: deep_copier_def)
  qed (use v in \<open>simp add: unless_nil_def nil_copies\<close>)
qed

text \<open>The loop over the elements: the first \<open>i\<close> cells of the new array are copies of the first \<open>i\<close> elements.\<close>

definition elems_copied :: "gtype \<Rightarrow> mem \<Rightarrow> gval list \<Rightarrow> nat \<Rightarrow> nat \<Rightarrow> mem \<Rightarrow> bool" where
  "elems_copied t m0 xs out i m \<longleftrightarrow> grows m0 m \<and> limit m0 \<le> out \<and> out < limit m
     \<and> (\<exists>ds. cells m out = Arr ds \<and> length ds = length xs
          \<and> (\<forall>j < i. well_typed t m (ds ! j) \<and> content t m (ds ! j) = content t m0 (xs ! j)
               \<and> reach t m (ds ! j) \<inter> insert out {..<limit m0} = {}))"

lemma elem_step:
  assumes f: "deep_copier t f" and inv: "elems_copied t m0 xs out i m" and i: "i < length xs"
    and x: "well_typed t m0 (xs ! i)" and run: "run_state (f (xs ! i)) m = (x', m')"
  shows "elems_copied t m0 xs out (Suc i) (m'\<lparr>cells := (cells m')(out := Arr ((cell_array (cells m' out))[i := x']))\<rparr>)"
proof -
  from inv obtain ds where m0: "grows m0 m" and out: "limit m0 \<le> out" "out < limit m"
    and ds: "cells m out = Arr ds" "length ds = length xs"
    and old: "\<And>j. j < i \<Longrightarrow> well_typed t m (ds ! j) \<and> content t m (ds ! j) = content t m0 (xs ! j)
        \<and> reach t m (ds ! j) \<inter> insert out {..<limit m0} = {}"
    unfolding elems_copied_def by blast
  note c = deep_copierD [OF f grown_value(3) [OF m0 x] run]
  let ?m = "m'\<lparr>cells := (cells m')(out := Arr (ds[i := x']))\<rparr>"
  have at: "cells m' out = Arr ds" using c(1) out ds by (simp add: grows_def)
  have keep: "well_typed t ?m y \<and> content t ?m y = content t m' y \<and> reach t ?m y = reach t m' y"
    if "well_typed t m' y" "out \<notin> reach t m' y" for y
    using agree(1) [of t m' y ?m] that by auto
  have "well_typed t ?m (ds[i := x'] ! j) \<and> content t ?m (ds[i := x'] ! j) = content t m0 (xs ! j)
      \<and> reach t ?m (ds[i := x'] ! j) \<inter> insert out {..<limit m0} = {}" if "j < Suc i" for j
  proof (cases "j = i")
    case True
    have "out \<notin> reach t m' x'" using c(4) out by auto
    with keep [OF c(2)] have "well_typed t ?m x'" "content t ?m x' = content t m' x'" "reach t ?m x' = reach t m' x'" by simp_all
    moreover have "reach t m' x' \<inter> insert out {..<limit m0} = {}" using c(4) out m0 by (auto simp: grows_def)
    moreover have "content t m' x' = content t m0 (xs ! i)" using c(3) grown_value(1) [OF m0 x] by simp
    ultimately show ?thesis using True i ds(2) by simp
  next
    case False
    with that have "j < i" by simp
    note o = old [OF this] and g = grown_value [OF c(1), of t "ds ! j"]
    have "out \<notin> reach t m' (ds ! j)" using o g(2) by auto
    with o g keep [of "ds ! j"] False show ?thesis by auto
  qed
  moreover have "grows m0 ?m" using m0 c(1) out by (auto simp: grows_def)
  moreover have "out < limit ?m" using c(1) out by (simp add: grows_def)
  ultimately show ?thesis
    unfolding elems_copied_def using out ds at by (intro conjI exI [of _ "ds[i := x']"]) simp_all
qed

lemma copy_elems_copies:
  assumes f: "deep_copier t f" and a: "a < limit m0" "off + length xs \<le> length (cell_array (cells m0 a))"
    and xs: "xs = window off (length xs) (cell_array (cells m0 a))" and typed: "list_all (well_typed t m0) xs"
  shows "elems_copied t m0 xs out i m \<Longrightarrow> i + k = length xs \<Longrightarrow>
    elems_copied t m0 xs out (length xs) (snd (run_state (copy_elems f a off out i k) m))"
proof (induction k arbitrary: i m)
  case (Suc k)
  have i: "i < length xs" using Suc.prems(2) by simp
  have "cells m a = cells m0 a" using Suc.prems(1) a(1) by (simp add: elems_copied_def grows_def)
  moreover have "xs ! i = cell_array (cells m0 a) ! (off + i)"
    using i a(2) by (subst xs) (simp add: window_def)
  ultimately have src: "cell_array (cells m a) ! (off + i) = xs ! i" by simp
  obtain x' m' where run: "run_state (f (xs ! i)) m = (x', m')" by fastforce
  have "well_typed t m0 (xs ! i)" using typed i by (simp add: list_all_length)
  from Suc.IH [OF elem_step [OF f Suc.prems(1) i this run]] Suc.prems(2) show ?case
    by (simp add: load_def store_def src run)
qed simp

lemma copy_slice_each_deep:
  assumes f: "deep_copier t f"
  shows "deep_copier (TSlice t) (copy_slice_each f)"
proof (rule deep_copierI)
  fix m v assume v: "well_typed (TSlice t) m v"
  show "copies (TSlice t) m v (fst (run_state (copy_slice_each f v) m)) (snd (run_state (copy_slice_each f v) m))"
  proof (cases "\<exists>h. v = SliceV (Some h)")
    case True
    then obtain a off len where v': "v = SliceV (Some (a, off, len))" by (metis prod_cases3)
    let ?xs = "window off len (cell_array (cells m a))"
    have a: "a < limit m" "off + length ?xs \<le> length (cell_array (cells m a))" "list_all (well_typed t m) ?xs"
      and len: "length ?xs = len"
      using v v' by (auto simp: window_def)
    let ?m = "m\<lparr>limit := Suc (limit m), cells := (cells m)(limit m := Arr (replicate len zero_val))\<rparr>"
    let ?m' = "snd (run_state (copy_elems f a off (limit m) 0 len) ?m)"
    have "elems_copied t m ?xs (limit m) 0 ?m" by (simp add: elems_copied_def grows_def len)
    from copy_elems_copies [OF f a(1,2) _ a(3) this, of len, unfolded len]
    have inv: "elems_copied t m ?xs (limit m) len ?m'" by simp
    then obtain ds where ds: "cells ?m' (limit m) = Arr ds" "length ds = len"
      and each: "\<And>j. j < len \<Longrightarrow> well_typed t ?m' (ds ! j) \<and> content t ?m' (ds ! j) = content t m (?xs ! j)
        \<and> reach t ?m' (ds ! j) \<inter> insert (limit m) {..<limit m} = {}"
      and grow: "grows m ?m'" "limit m < limit ?m'"
      unfolding elems_copied_def len by blast
    have run: "run_state (copy_slice_each f v) m = (SliceV (Some (limit m, 0, len)), ?m')"
      by (simp add: v' copy_slice_each_def alloc_def split_beta)
    have "list_all (well_typed t ?m') ds" using each ds(2) by (simp add: list_all_length)
    moreover have "map (content t ?m') ds = map (content t m) ?xs"
      by (rule nth_equalityI) (use each ds(2) len in simp_all)
    moreover have "reach t ?m' d \<inter> {..<limit m} = {}" if "d \<in> set ds" for d
      using that each ds(2) by (auto simp: in_set_conv_nth)
    ultimately show ?thesis
      unfolding run using grow ds by (auto simp: copies_def v' window_def)
  qed (use v in \<open>auto simp: copy_slice_each_def intro!: nil_copies split: gval.splits option.splits\<close>)
qed


lemma copy_slice_deep:
  assumes free: "pointer_free t"
  shows "deep_copier (TSlice t) copy_slice"
proof (rule deep_copierI)
  fix m v assume v: "well_typed (TSlice t) m v"
  show "copies (TSlice t) m v (fst (run_state (copy_slice v) m)) (snd (run_state (copy_slice v) m))"
  proof (cases "\<exists>h. v = SliceV (Some h)")
    case True
    then obtain a off len where v': "v = SliceV (Some (a, off, len))" by (metis prod_cases3)
    let ?xs = "window off len (cell_array (cells m a))"
    have a: "a < limit m" "list_all (well_typed t m) ?xs" and len: "length ?xs = len"
      using v v' by (auto simp: window_def)
    let ?m = "m\<lparr>limit := Suc (limit m), cells := (cells m)(limit m := Arr ?xs)\<rparr>"
    have grow: "grows m ?m" by (simp add: grows_def)
    have "well_typed t ?m x \<and> content t ?m x = content t m x \<and> reach t ?m x = {}" if "x \<in> set ?xs" for x
      using that a(2) grown_value [OF grow, of t x] pointer_free_typed(1) [OF free, of m x] by (simp add: list_all_iff)
    moreover have "run_state (copy_slice v) m = (SliceV (Some (limit m, 0, len)), ?m)"
      using a(1) by (simp add: v' copy_slice_def alloc_def load_def store_def fun_upd_idem_iff)
    moreover have "window 0 len ?xs = ?xs" by (simp add: window_def)
    ultimately show ?thesis
      using grow by (auto simp: copies_def v' len list_all_iff)
  qed (use v in \<open>auto simp: copy_slice_def intro!: nil_copies split: gval.splits option.splits\<close>)
qed

lemma copy_entries_copies:
  assumes "cells m a = Dict d" and "a \<noteq> out" and "cells m out = Dict d'" and "set keys \<subseteq> fset (fmdom d)"
  shows "run_state (copy_entries a out keys) m =
    ((), m\<lparr>cells := (cells m)(out := Dict (d' ++\<^sub>f fmrestrict_set (set keys) d))\<rparr>)"
  using assms
proof (induction keys arbitrary: m d')
  case Nil
  have "d' ++\<^sub>f fmrestrict_set {} d = d'" by (rule fmap_ext) simp
  with Nil.prems(3) show ?case by (simp add: fun_upd_idem)
next
  case (Cons key keys)
  then obtain val where val: "fmlookup d key = Some val" by (auto simp: fmdom'_alt_def [symmetric] fmlookup_dom'_iff)
  have upd: "fmupd key val d' ++\<^sub>f fmrestrict_set (set keys) d = d' ++\<^sub>f fmrestrict_set (insert key (set keys)) d"
    using val by (intro fmap_ext) (auto simp: fmlookup_dom_iff)
  let ?m = "m\<lparr>cells := (cells m)(out := Dict (fmupd key val d'))\<rparr>"
  have "run_state (copy_entries a out (key # keys)) m = run_state (copy_entries a out keys) ?m"
    using Cons.prems(1,3) by (simp add: load_def store_def val)
  also have "\<dots> = ((), ?m\<lparr>cells := (cells ?m)(out := Dict (fmupd key val d' ++\<^sub>f fmrestrict_set (set keys) d))\<rparr>)"
    using Cons.prems by (intro Cons.IH) simp_all
  also have "\<dots> = ((), m\<lparr>cells := (cells m)(out := Dict (d' ++\<^sub>f fmrestrict_set (set (key # keys)) d))\<rparr>)"
    unfolding upd by simp
  finally show ?case .
qed

lemma copy_map_deep:
  assumes "map_order order" and free: "pointer_free t"
  shows "deep_copier (TMap t) (copy_map order)"
proof (rule deep_copierI)
  fix m v assume v: "well_typed (TMap t) m v"
  show "copies (TMap t) m v (fst (run_state (copy_map order v) m)) (snd (run_state (copy_map order v) m))"
  proof (cases "\<exists>a. v = MapV (Some a)")
    case True
    then obtain a d where a: "v = MapV (Some a)" "a < limit m" "cells m a = Dict d"
      and d: "fmpred (\<lambda>_. well_typed t m) d"
      using v by (auto simp: cell_dict_def split: cell.splits)
    let ?m = "m\<lparr>limit := Suc (limit m), cells := (cells m)(limit m := Dict fmempty)\<rparr>"
    have set: "set (order (fmdom d)) = fset (fmdom d)" using assms by (simp add: map_order_def)
    have "fmrestrict_set (fset (fmdom d)) d = d" by (rule fmap_ext) (simp add: fmdom.rep_eq)
    then have "run_state (copy_entries a (limit m) (order (fmdom d))) ?m =
        ((), ?m\<lparr>cells := (cells ?m)(limit m := Dict d)\<rparr>)"
      using copy_entries_copies [of ?m a d "limit m" fmempty "order (fmdom d)"] a set by simp
    then have "run_state (copy_map order v) m =
        (MapV (Some (limit m)), ?m\<lparr>cells := (cells ?m)(limit m := Dict d)\<rparr>)"
      using a by (simp add: copy_map_def alloc_def load_def)
    moreover
    let ?m' = "?m\<lparr>cells := (cells ?m)(limit m := Dict d)\<rparr>"
    have grow: "grows m ?m'" by (simp add: grows_def)
    have each: "well_typed t ?m' x \<and> content t ?m' x = content t m x \<and> reach t ?m' x = {}" if "x \<in> fmran' d" for x
    proof -
      have x: "well_typed t m x" using d that by (auto simp: fmpred_iff elim: fmran'E)
      show ?thesis using grown_value [OF grow x] pointer_free_typed(1) [OF free x] by simp
    qed
    then have "fmmap (content t ?m') d = fmmap (content t m) d" by (intro fmap.map_cong0) blast
    moreover have "fmpred (\<lambda>_. well_typed t ?m') d" using each by (auto simp: fmpred_iff intro: fmran'I)
    moreover have "(\<Union>x\<in>fmran' d. reach t ?m' x) = {}" using each by simp
    ultimately show ?thesis using a grow by (simp add: copies_def)
  qed (use v in \<open>auto simp: copy_map_def intro!: nil_copies split: gval.splits option.splits\<close>)
qed


section \<open>Structs\<close>

definition get_field :: "string \<Rightarrow> gval \<Rightarrow> gval" where
  "get_field n v =
     (case v of Struct fs \<Rightarrow> (case map_of fs n of Some x \<Rightarrow> x | None \<Rightarrow> zero_val) | _ \<Rightarrow> zero_val)"

definition set_field :: "string \<Rightarrow> gval \<Rightarrow> gval \<Rightarrow> gval" where
  "set_field n x v =
     (case v of Struct fs \<Rightarrow> Struct (map (\<lambda>f. (fst f, if fst f = n then x else snd f)) fs) | _ \<Rightarrow> v)"

text \<open>The body of a generated \<open>DeepCopyInto\<close>: \<open>*out = *in\<close>, then the fields that need more, in order.\<close>

primrec copy_fields :: "(string \<times> copier) list \<Rightarrow> gval \<Rightarrow> gval \<Rightarrow> gval gomem" where
  "copy_fields [] inn out = State_Monad.return out"
| "copy_fields (step # steps) inn out = do {
     x \<leftarrow> snd step (get_field (fst step) inn);
     copy_fields steps inn (set_field (fst step) x out) }"

definition struct_copy :: "(string \<times> copier) list \<Rightarrow> copier" where
  "struct_copy steps inn = copy_fields steps inn inn"

lemma fields_nth:
  "fields_typed ts m fs \<longleftrightarrow> map fst fs = map fst ts \<and> (\<forall>i < length ts. well_typed (snd (ts ! i)) m (snd (fs ! i)))"
  "map fst fs = map fst ts \<Longrightarrow> fields_content ts m fs =
     map (\<lambda>i. (fst (ts ! i), content (snd (ts ! i)) m (snd (fs ! i)))) [0..<length ts]"
  "map fst fs = map fst ts \<Longrightarrow> fields_reach ts m fs = (\<Union>i \<in> {..<length ts}. reach (snd (ts ! i)) m (snd (fs ! i)))"
proof (induction ts arbitrary: fs)
  case (Cons t ts)
  obtain n u where t: "t = (n, u)" by (cases t)
  { case 1 show ?case
      using Cons.IH(1) by (cases fs) (auto simp: t All_less_Suc2) }
  { case 2 then show ?case
      using Cons.IH(2) by (cases fs) (simp_all add: t map_upt_Suc del: upt_Suc) }
  { case 3 then show ?case
      using Cons.IH(3) by (cases fs) (auto simp: t lessThan_Suc_eq_insert_0) }
qed simp_all

lemma copies_from:
  assumes "grows m0 m" and "well_typed t m0 v" and "copies t m v x m'"
  shows "copies t m0 v x m'"
  using assms grown_value(1) [OF assms(1,2)] grows_trans [OF assms(1)] by (fastforce simp: copies_def grows_def)

lemma copies_grows: "copies t m0 v x m \<Longrightarrow> grows m m' \<Longrightarrow> copies t m0 v x m'"
  using grown_value [of m m' t x] by (auto simp: copies_def dest: grows_trans)

lemma free_copies: "pointer_free t \<Longrightarrow> well_typed t m0 v \<Longrightarrow> grows m0 m \<Longrightarrow> copies t m0 v v m"
  using grown_value [of m0 m t v] pointer_free_typed(1) [of t m0 v] by (simp add: copies_def)

text \<open>After some steps: the fields of the names that are done are copies, the others those of \<open>*in\<close>.\<close>

definition fields_done :: "(string \<times> gtype) list \<Rightarrow> mem \<Rightarrow> (string \<times> gval) list \<Rightarrow> string set \<Rightarrow> gval \<Rightarrow> mem \<Rightarrow> bool" where
  "fields_done ts m0 fs N out m \<longleftrightarrow> grows m0 m \<and> (\<exists>gs. out = Struct gs \<and> map fst gs = map fst ts
     \<and> (\<forall>i < length ts. if fst (ts ! i) \<in> N then copies (snd (ts ! i)) m0 (snd (fs ! i)) (snd (gs ! i)) m
          else snd (gs ! i) = snd (fs ! i)))"

lemma field_step:
  assumes dist: "distinct (map fst ts)" and fs: "fields_typed ts m0 fs" and i: "i < length ts"
    and f: "deep_copier (snd (ts ! i)) f" and inv: "fields_done ts m0 fs N out m"
    and run: "run_state (f (get_field (fst (ts ! i)) (Struct fs))) m = (x, m')"
  shows "fields_done ts m0 fs (insert (fst (ts ! i)) N) (set_field (fst (ts ! i)) x out) m'"
proof -
  let ?n = "fst (ts ! i)" and ?v = "snd (fs ! i)"
  have names: "map fst fs = map fst ts" and typed: "\<And>j. j < length ts \<Longrightarrow> well_typed (snd (ts ! j)) m0 (snd (fs ! j))"
    using fs by (simp_all add: fields_nth(1))
  have len: "length fs = length ts" using names map_eq_imp_length_eq by blast
  have at: "fst (fs ! j) = fst (ts ! j)" if "j < length ts" for j
    using names that len by (metis nth_map)
  have "map_of fs ?n = Some ?v"
    using dist names i len at [OF i] by (metis map_of_eq_Some_iff nth_mem prod.collapse)
  then have "get_field ?n (Struct fs) = ?v" by (simp add: get_field_def)
  note run = run [unfolded this]
  from inv obtain gs where grow: "grows m0 m" and out: "out = Struct gs" "map fst gs = map fst ts"
    and each: "\<And>j. j < length ts \<Longrightarrow> if fst (ts ! j) \<in> N then copies (snd (ts ! j)) m0 (snd (fs ! j)) (snd (gs ! j)) m
        else snd (gs ! j) = snd (fs ! j)"
    unfolding fields_done_def by blast
  note c = deep_copierD [OF f grown_value(3) [OF grow typed [OF i]] run]
  have new: "copies (snd (ts ! i)) m0 ?v x m'"
    by (rule copies_from [OF grow typed [OF i]]) (use c in \<open>simp add: copies_def\<close>)
  have glen: "length gs = length ts" using out(2) map_eq_imp_length_eq by blast
  have gat: "fst (gs ! j) = fst (ts ! j)" if "j < length ts" for j
    using out(2) that glen by (metis nth_map)
  let ?gs = "map (\<lambda>g. (fst g, if fst g = ?n then x else snd g)) gs"
  have "if fst (ts ! j) \<in> insert ?n N then copies (snd (ts ! j)) m0 (snd (fs ! j)) (snd (?gs ! j)) m'
      else snd (?gs ! j) = snd (fs ! j)" if j: "j < length ts" for j
  proof (cases "fst (ts ! j) = ?n")
    case True
    then have "j = i" using dist i j by (simp add: distinct_conv_nth) (metis nth_map length_map)
    with new glen gat [OF i] i show ?thesis by simp
  next
    case False
    with each [OF j] copies_grows [OF _ c(1)] j glen gat [OF j] show ?thesis by auto
  qed
  moreover have "map fst ?gs = map fst ts" by (simp add: comp_def out(2))
  ultimately show ?thesis
    unfolding fields_done_def out(1) set_field_def gval.case
    using grows_trans [OF grow c(1)] by (intro conjI exI [of _ ?gs]) simp_all
qed


lemma copy_fields_done:
  assumes dist: "distinct (map fst ts)" and fs: "fields_typed ts m0 fs"
  shows "fields_done ts m0 fs N out m \<Longrightarrow> \<forall>s \<in> set steps. \<exists>p \<in> set ts. fst s = fst p \<and> deep_copier (snd p) (snd s)
    \<Longrightarrow> fields_done ts m0 fs (N \<union> fst ` set steps) (fst (run_state (copy_fields steps (Struct fs) out) m))
      (snd (run_state (copy_fields steps (Struct fs) out) m))"
proof (induction steps arbitrary: N out m)
  case (Cons s steps)
  then obtain i where i: "i < length ts" "fst s = fst (ts ! i)" "deep_copier (snd (ts ! i)) (snd s)"
    by (auto simp: in_set_conv_nth)
  obtain x m' where run: "run_state (snd s (get_field (fst s) (Struct fs))) m = (x, m')" by fastforce
  from Cons.IH [OF field_step [OF dist fs i(1,3) Cons.prems(1) run [unfolded i(2)]]] Cons.prems(2) show ?case
    by (simp add: run) (simp add: i(2))
qed simp

text \<open>A struct is copied deeply if every field is: by a step of its name, or by the assignment if it has no
  heads.\<close>

fun fields_covered :: "(string \<times> gtype) list \<Rightarrow> (string \<times> copier) list \<Rightarrow> bool" where
  "fields_covered [] steps = (steps = [])"
| "fields_covered ((n, t) # ts) [] = (pointer_free t \<and> fields_covered ts [])"
| "fields_covered ((n, t) # ts) ((n', f) # steps) =
     (if n = n' then deep_copier t f \<and> fields_covered ts steps
      else pointer_free t \<and> fields_covered ts ((n', f) # steps))"

lemma covered_cases:
  "fields_covered ts steps \<Longrightarrow>
    (\<forall>p \<in> set ts. fst p \<in> fst ` set steps \<or> pointer_free (snd p))
    \<and> (\<forall>s \<in> set steps. \<exists>p \<in> set ts. fst s = fst p \<and> deep_copier (snd p) (snd s))"
  by (induction ts steps rule: fields_covered.induct) (auto split: if_splits)

lemma struct_deep:
  assumes "distinct (map fst ts)" and "fields_covered ts steps"
  shows "deep_copier (TStruct ts) (struct_copy steps)"
proof (rule deep_copierI)
  fix m v assume "well_typed (TStruct ts) m v"
  then obtain fs where v: "v = Struct fs" and fs: "fields_typed ts m fs" by (auto split: gval.splits)
  note cases = covered_cases [OF assms(2)]
  have names: "map fst fs = map fst ts" using fs by (simp add: fields_nth(1))
  have "fields_done ts m fs {} v m" using names by (simp add: fields_done_def v)
  from copy_fields_done [OF assms(1) fs this cases [THEN conjunct2]]
  obtain gs m' where run: "run_state (struct_copy steps v) m = (Struct gs, m')" and grow: "grows m m'"
    and gs: "map fst gs = map fst ts" and each: "\<And>i. i < length ts \<Longrightarrow> if fst (ts ! i) \<in> fst ` set steps
        then copies (snd (ts ! i)) m (snd (fs ! i)) (snd (gs ! i)) m' else snd (gs ! i) = snd (fs ! i)"
    unfolding fields_done_def struct_copy_def v by (auto simp: prod_eq_iff)
  have c: "copies (snd (ts ! i)) m (snd (fs ! i)) (snd (gs ! i)) m'" if "i < length ts" for i
  proof -
    have typed: "well_typed (snd (ts ! i)) m (snd (fs ! i))" using fs that by (simp add: fields_nth(1))
    have "fst (ts ! i) \<in> fst ` set steps \<or> pointer_free (snd (ts ! i))" using cases nth_mem [OF that] by blast
    with each [OF that] free_copies [OF _ typed grow] show ?thesis by (cases "fst (ts ! i) \<in> fst ` set steps") simp_all
  qed
  have "fields_typed ts m' gs" using c gs by (simp add: fields_nth(1) copies_def)
  moreover have "fields_content ts m' gs = fields_content ts m fs"
    using c by (simp add: fields_nth(2) gs names copies_def)
  moreover have "fields_reach ts m' gs \<inter> {..<limit m} = {}"
    using c by (auto simp: fields_nth(3) [OF gs] copies_def)
  ultimately show "copies (TStruct ts) m v (fst (run_state (struct_copy steps v) m)) (snd (run_state (struct_copy steps v) m))"
    unfolding run using grow by (simp add: v copies_def)
qed

end
