(* ===== verification/DeepCopy.thy ===== *)
theory DeepCopy
  imports Go_Copy
begin

text \<open>
  \<^verbatim>\<open>api/v1alpha1/zz_generated.deepcopy.go\<close>: the layout of every struct of the API package, its
  \<open>DeepCopyInto\<close> (the list of its steps after \<open>*out = *in\<close>), its \<open>DeepCopy\<close>, and the \<open>DeepCopyObject\<close> of
  the four kinds and their lists.

  The structs of the Kubernetes libraries are parameters: their layout and their \<open>DeepCopyInto\<close>. The contract
  is what those libraries document: a \<open>DeepCopyInto\<close> copies deeply, \<open>TypeMeta\<close> and \<open>LocalObjectReference\<close>
  hold only strings. A \<open>Time\<close> counts as a value (\<^verbatim>\<open>metav1.Time\<close> treats it as immutable).
\<close>

section \<open>The libraries\<close>

record go_libs =
  TypeMeta_type :: gtype
  ObjectMeta_type :: gtype
  ListMeta_type :: gtype
  Condition_type :: gtype
  Time_type :: gtype
  EnvVar_type :: gtype
  Toleration_type :: gtype
  Probe_type :: gtype
  ResourceRequirements_type :: gtype
  LocalObjectReference_type :: gtype
  ObjectMeta_DeepCopyInto :: copier
  ListMeta_DeepCopyInto :: copier
  Condition_DeepCopyInto :: copier
  EnvVar_DeepCopyInto :: copier
  Toleration_DeepCopyInto :: copier
  Probe_DeepCopyInto :: copier
  ResourceRequirements_DeepCopyInto :: copier
  Time_DeepCopy :: copier
  RangeOrder :: "string fset \<Rightarrow> string list"

definition libs_copy :: "go_libs \<Rightarrow> bool" where
  "libs_copy X \<longleftrightarrow> pointer_free (TypeMeta_type X) \<and> pointer_free (LocalObjectReference_type X)
     \<and> deep_copier (ObjectMeta_type X) (ObjectMeta_DeepCopyInto X)
     \<and> deep_copier (ListMeta_type X) (ListMeta_DeepCopyInto X)
     \<and> deep_copier (Condition_type X) (Condition_DeepCopyInto X)
     \<and> deep_copier (EnvVar_type X) (EnvVar_DeepCopyInto X)
     \<and> deep_copier (Toleration_type X) (Toleration_DeepCopyInto X)
     \<and> deep_copier (Probe_type X) (Probe_DeepCopyInto X)
     \<and> deep_copier (ResourceRequirements_type X) (ResourceRequirements_DeepCopyInto X)
     \<and> deep_copier (TPtr (Time_type X)) (Time_DeepCopy X) \<and> map_order (RangeOrder X)"

section \<open>The structs\<close>

definition TemplatePort_type :: gtype where
  "TemplatePort_type = TStruct
     [(''Name'', TBasic), (''ContainerPort'', TBasic), (''Protocol'', TBasic), (''ExposeAs'', TBasic),
      (''Primary'', TBasic)]"

definition TemplateStorage_type :: gtype where
  "TemplateStorage_type = TStruct
     [(''DataPath'', TBasic), (''SubPath'', TBasic), (''DefaultSize'', TBasic)]"

definition ConfigKey_type :: gtype where
  "ConfigKey_type = TStruct
     [(''Name'', TBasic), (''EnvVar'', TBasic), (''Description'', TBasic), (''Type'', TBasic),
      (''Enum'', TSlice TBasic), (''Default'', TBasic), (''Required'', TBasic)]"

definition ProbeSpec_type :: "go_libs \<Rightarrow> gtype" where
  "ProbeSpec_type X = TStruct
     [(''Liveness'', TPtr (Probe_type X)), (''Readiness'', TPtr (Probe_type X))]"

definition GameTemplateSpec_type :: "go_libs \<Rightarrow> gtype" where
  "GameTemplateSpec_type X = TStruct
     [(''Image'', TBasic), (''ImagePullPolicy'', TBasic), (''Ports'', TSlice TemplatePort_type),
      (''Env'', TSlice (EnvVar_type X)), (''ConfigKeys'', TSlice ConfigKey_type),
      (''Command'', TSlice TBasic), (''Args'', TSlice TBasic), (''Storage'', TemplateStorage_type),
      (''Probes'', TPtr (ProbeSpec_type X)), (''UpdateStrategy'', TBasic), (''SecurityProfile'', TBasic)]"

definition GameTemplateStatus_type :: "go_libs \<Rightarrow> gtype" where
  "GameTemplateStatus_type X = TStruct
     [(''ServersRegistered'', TBasic), (''Conditions'', TSlice (Condition_type X))]"

definition GameTemplate_type :: "go_libs \<Rightarrow> gtype" where
  "GameTemplate_type X = TStruct
     [(''TypeMeta'', TypeMeta_type X), (''ObjectMeta'', ObjectMeta_type X),
      (''Spec'', GameTemplateSpec_type X), (''Status'', GameTemplateStatus_type X)]"

definition GameTemplateList_type :: "go_libs \<Rightarrow> gtype" where
  "GameTemplateList_type X = TStruct
     [(''TypeMeta'', TypeMeta_type X), (''ListMeta'', ListMeta_type X),
      (''Items'', TSlice (GameTemplate_type X))]"

definition TemplateRef_type :: gtype where
  "TemplateRef_type = TStruct
     [(''Name'', TBasic)]"

definition RestoreFromSpec_type :: gtype where
  "RestoreFromSpec_type = TStruct
     [(''BackupName'', TBasic)]"

definition StorageOverride_type :: gtype where
  "StorageOverride_type = TStruct
     [(''ClassName'', TBasic), (''Size'', TBasic)]"

definition ExposureOverride_type :: gtype where
  "ExposureOverride_type = TStruct
     [(''PortName'', TBasic), (''ExposeAs'', TBasic), (''NodePort'', TBasic)]"

definition GameServerSpec_type :: "go_libs \<Rightarrow> gtype" where
  "GameServerSpec_type X = TStruct
     [(''TemplateRef'', TemplateRef_type), (''Config'', TMap TBasic),
      (''Storage'', StorageOverride_type), (''Resources'', ResourceRequirements_type X),
      (''NodeSelector'', TMap TBasic), (''Tolerations'', TSlice (Toleration_type X)),
      (''ExposeOverride'', TSlice ExposureOverride_type), (''Suspend'', TBasic),
      (''EnvOverride'', TSlice (EnvVar_type X)), (''RestoreFrom'', TPtr RestoreFromSpec_type)]"

definition GameServerStatus_type :: "go_libs \<Rightarrow> gtype" where
  "GameServerStatus_type X = TStruct
     [(''Phase'', TBasic), (''Address'', TBasic), (''ObservedGeneration'', TBasic),
      (''TemplateGeneration'', TBasic), (''ReadyReplicas'', TBasic),
      (''Conditions'', TSlice (Condition_type X))]"

definition GameServer_type :: "go_libs \<Rightarrow> gtype" where
  "GameServer_type X = TStruct
     [(''TypeMeta'', TypeMeta_type X), (''ObjectMeta'', ObjectMeta_type X),
      (''Spec'', GameServerSpec_type X), (''Status'', GameServerStatus_type X)]"

definition GameServerList_type :: "go_libs \<Rightarrow> gtype" where
  "GameServerList_type X = TStruct
     [(''TypeMeta'', TypeMeta_type X), (''ListMeta'', ListMeta_type X),
      (''Items'', TSlice (GameServer_type X))]"

definition GameServerRef_type :: gtype where
  "GameServerRef_type = TStruct
     [(''Name'', TBasic)]"

definition BackupSpec_type :: gtype where
  "BackupSpec_type = TStruct
     [(''GameServerRef'', GameServerRef_type), (''VolumeSnapshotClassName'', TBasic),
      (''RetainForever'', TBasic)]"

definition BackupStatus_type :: "go_libs \<Rightarrow> gtype" where
  "BackupStatus_type X = TStruct
     [(''Phase'', TBasic), (''VolumeSnapshotName'', TBasic), (''SnapshotHandle'', TBasic),
      (''RestoreSize'', TBasic), (''CreationTime'', TPtr (Time_type X)),
      (''ObservedGeneration'', TBasic), (''Conditions'', TSlice (Condition_type X))]"

definition Backup_type :: "go_libs \<Rightarrow> gtype" where
  "Backup_type X = TStruct
     [(''TypeMeta'', TypeMeta_type X), (''ObjectMeta'', ObjectMeta_type X), (''Spec'', BackupSpec_type),
      (''Status'', BackupStatus_type X)]"

definition BackupList_type :: "go_libs \<Rightarrow> gtype" where
  "BackupList_type X = TStruct
     [(''TypeMeta'', TypeMeta_type X), (''ListMeta'', ListMeta_type X),
      (''Items'', TSlice (Backup_type X))]"

definition BackupScheduleSpec_type :: gtype where
  "BackupScheduleSpec_type = TStruct
     [(''GameServerRef'', GameServerRef_type), (''Schedule'', TBasic), (''TimeZone'', TBasic),
      (''Keep'', TBasic), (''Suspend'', TBasic), (''VolumeSnapshotClassName'', TBasic)]"

definition BackupScheduleStatus_type :: "go_libs \<Rightarrow> gtype" where
  "BackupScheduleStatus_type X = TStruct
     [(''LastScheduleTime'', TPtr (Time_type X)), (''LastSuccessfulTime'', TPtr (Time_type X)),
      (''ActiveBackups'', TSlice (LocalObjectReference_type X)), (''ObservedGeneration'', TBasic),
      (''Conditions'', TSlice (Condition_type X))]"

definition BackupSchedule_type :: "go_libs \<Rightarrow> gtype" where
  "BackupSchedule_type X = TStruct
     [(''TypeMeta'', TypeMeta_type X), (''ObjectMeta'', ObjectMeta_type X),
      (''Spec'', BackupScheduleSpec_type), (''Status'', BackupScheduleStatus_type X)]"

definition BackupScheduleList_type :: "go_libs \<Rightarrow> gtype" where
  "BackupScheduleList_type X = TStruct
     [(''TypeMeta'', TypeMeta_type X), (''ListMeta'', ListMeta_type X),
      (''Items'', TSlice (BackupSchedule_type X))]"

section \<open>DeepCopyInto\<close>

definition TemplatePort_DeepCopyInto :: copier where
  "TemplatePort_DeepCopyInto = struct_copy []"

definition TemplateStorage_DeepCopyInto :: copier where
  "TemplateStorage_DeepCopyInto = struct_copy []"

definition ConfigKey_DeepCopyInto :: copier where
  "ConfigKey_DeepCopyInto = struct_copy
     [(''Enum'', copy_slice)]"

definition ProbeSpec_DeepCopyInto :: "go_libs \<Rightarrow> copier" where
  "ProbeSpec_DeepCopyInto X = struct_copy
     [(''Liveness'', copy_ptr (Probe_DeepCopyInto X)),
      (''Readiness'', copy_ptr (Probe_DeepCopyInto X))]"

definition GameTemplateSpec_DeepCopyInto :: "go_libs \<Rightarrow> copier" where
  "GameTemplateSpec_DeepCopyInto X = struct_copy
     [(''Ports'', copy_slice),
      (''Env'', copy_slice_each (EnvVar_DeepCopyInto X)),
      (''ConfigKeys'', copy_slice_each ConfigKey_DeepCopyInto),
      (''Command'', copy_slice),
      (''Args'', copy_slice),
      (''Storage'', assign),
      (''Probes'', copy_ptr (ProbeSpec_DeepCopyInto X))]"

definition GameTemplateStatus_DeepCopyInto :: "go_libs \<Rightarrow> copier" where
  "GameTemplateStatus_DeepCopyInto X = struct_copy
     [(''Conditions'', copy_slice_each (Condition_DeepCopyInto X))]"

definition GameTemplate_DeepCopyInto :: "go_libs \<Rightarrow> copier" where
  "GameTemplate_DeepCopyInto X = struct_copy
     [(''TypeMeta'', assign),
      (''ObjectMeta'', ObjectMeta_DeepCopyInto X),
      (''Spec'', GameTemplateSpec_DeepCopyInto X),
      (''Status'', GameTemplateStatus_DeepCopyInto X)]"

definition GameTemplateList_DeepCopyInto :: "go_libs \<Rightarrow> copier" where
  "GameTemplateList_DeepCopyInto X = struct_copy
     [(''TypeMeta'', assign),
      (''ListMeta'', ListMeta_DeepCopyInto X),
      (''Items'', copy_slice_each (GameTemplate_DeepCopyInto X))]"

definition TemplateRef_DeepCopyInto :: copier where
  "TemplateRef_DeepCopyInto = struct_copy []"

definition RestoreFromSpec_DeepCopyInto :: copier where
  "RestoreFromSpec_DeepCopyInto = struct_copy []"

definition StorageOverride_DeepCopyInto :: copier where
  "StorageOverride_DeepCopyInto = struct_copy []"

definition ExposureOverride_DeepCopyInto :: copier where
  "ExposureOverride_DeepCopyInto = struct_copy []"

definition GameServerSpec_DeepCopyInto :: "go_libs \<Rightarrow> copier" where
  "GameServerSpec_DeepCopyInto X = struct_copy
     [(''TemplateRef'', assign),
      (''Config'', copy_map (RangeOrder X)),
      (''Storage'', assign),
      (''Resources'', ResourceRequirements_DeepCopyInto X),
      (''NodeSelector'', copy_map (RangeOrder X)),
      (''Tolerations'', copy_slice_each (Toleration_DeepCopyInto X)),
      (''ExposeOverride'', copy_slice),
      (''EnvOverride'', copy_slice_each (EnvVar_DeepCopyInto X)),
      (''RestoreFrom'', copy_ptr assign)]"

definition GameServerStatus_DeepCopyInto :: "go_libs \<Rightarrow> copier" where
  "GameServerStatus_DeepCopyInto X = struct_copy
     [(''Conditions'', copy_slice_each (Condition_DeepCopyInto X))]"

definition GameServer_DeepCopyInto :: "go_libs \<Rightarrow> copier" where
  "GameServer_DeepCopyInto X = struct_copy
     [(''TypeMeta'', assign),
      (''ObjectMeta'', ObjectMeta_DeepCopyInto X),
      (''Spec'', GameServerSpec_DeepCopyInto X),
      (''Status'', GameServerStatus_DeepCopyInto X)]"

definition GameServerList_DeepCopyInto :: "go_libs \<Rightarrow> copier" where
  "GameServerList_DeepCopyInto X = struct_copy
     [(''TypeMeta'', assign),
      (''ListMeta'', ListMeta_DeepCopyInto X),
      (''Items'', copy_slice_each (GameServer_DeepCopyInto X))]"

definition GameServerRef_DeepCopyInto :: copier where
  "GameServerRef_DeepCopyInto = struct_copy []"

definition BackupSpec_DeepCopyInto :: copier where
  "BackupSpec_DeepCopyInto = struct_copy
     [(''GameServerRef'', assign)]"

definition BackupStatus_DeepCopyInto :: "go_libs \<Rightarrow> copier" where
  "BackupStatus_DeepCopyInto X = struct_copy
     [(''CreationTime'', unless_nil (Time_DeepCopy X)),
      (''Conditions'', copy_slice_each (Condition_DeepCopyInto X))]"

definition Backup_DeepCopyInto :: "go_libs \<Rightarrow> copier" where
  "Backup_DeepCopyInto X = struct_copy
     [(''TypeMeta'', assign),
      (''ObjectMeta'', ObjectMeta_DeepCopyInto X),
      (''Spec'', assign),
      (''Status'', BackupStatus_DeepCopyInto X)]"

definition BackupList_DeepCopyInto :: "go_libs \<Rightarrow> copier" where
  "BackupList_DeepCopyInto X = struct_copy
     [(''TypeMeta'', assign),
      (''ListMeta'', ListMeta_DeepCopyInto X),
      (''Items'', copy_slice_each (Backup_DeepCopyInto X))]"

definition BackupScheduleSpec_DeepCopyInto :: copier where
  "BackupScheduleSpec_DeepCopyInto = struct_copy
     [(''GameServerRef'', assign)]"

definition BackupScheduleStatus_DeepCopyInto :: "go_libs \<Rightarrow> copier" where
  "BackupScheduleStatus_DeepCopyInto X = struct_copy
     [(''LastScheduleTime'', unless_nil (Time_DeepCopy X)),
      (''LastSuccessfulTime'', unless_nil (Time_DeepCopy X)),
      (''ActiveBackups'', copy_slice),
      (''Conditions'', copy_slice_each (Condition_DeepCopyInto X))]"

definition BackupSchedule_DeepCopyInto :: "go_libs \<Rightarrow> copier" where
  "BackupSchedule_DeepCopyInto X = struct_copy
     [(''TypeMeta'', assign),
      (''ObjectMeta'', ObjectMeta_DeepCopyInto X),
      (''Spec'', assign),
      (''Status'', BackupScheduleStatus_DeepCopyInto X)]"

definition BackupScheduleList_DeepCopyInto :: "go_libs \<Rightarrow> copier" where
  "BackupScheduleList_DeepCopyInto X = struct_copy
     [(''TypeMeta'', assign),
      (''ListMeta'', ListMeta_DeepCopyInto X),
      (''Items'', copy_slice_each (BackupSchedule_DeepCopyInto X))]"

section \<open>DeepCopy\<close>

definition TemplatePort_DeepCopy :: "nat option \<Rightarrow> nat option gomem" where
  "TemplatePort_DeepCopy inn = new_copy TemplatePort_DeepCopyInto inn"

definition TemplateStorage_DeepCopy :: "nat option \<Rightarrow> nat option gomem" where
  "TemplateStorage_DeepCopy inn = new_copy TemplateStorage_DeepCopyInto inn"

definition ConfigKey_DeepCopy :: "nat option \<Rightarrow> nat option gomem" where
  "ConfigKey_DeepCopy inn = new_copy ConfigKey_DeepCopyInto inn"

definition ProbeSpec_DeepCopy :: "go_libs \<Rightarrow> nat option \<Rightarrow> nat option gomem" where
  "ProbeSpec_DeepCopy X inn = new_copy (ProbeSpec_DeepCopyInto X) inn"

definition GameTemplateSpec_DeepCopy :: "go_libs \<Rightarrow> nat option \<Rightarrow> nat option gomem" where
  "GameTemplateSpec_DeepCopy X inn = new_copy (GameTemplateSpec_DeepCopyInto X) inn"

definition GameTemplateStatus_DeepCopy :: "go_libs \<Rightarrow> nat option \<Rightarrow> nat option gomem" where
  "GameTemplateStatus_DeepCopy X inn = new_copy (GameTemplateStatus_DeepCopyInto X) inn"

definition GameTemplate_DeepCopy :: "go_libs \<Rightarrow> nat option \<Rightarrow> nat option gomem" where
  "GameTemplate_DeepCopy X inn = new_copy (GameTemplate_DeepCopyInto X) inn"

definition GameTemplateList_DeepCopy :: "go_libs \<Rightarrow> nat option \<Rightarrow> nat option gomem" where
  "GameTemplateList_DeepCopy X inn = new_copy (GameTemplateList_DeepCopyInto X) inn"

definition TemplateRef_DeepCopy :: "nat option \<Rightarrow> nat option gomem" where
  "TemplateRef_DeepCopy inn = new_copy TemplateRef_DeepCopyInto inn"

definition RestoreFromSpec_DeepCopy :: "nat option \<Rightarrow> nat option gomem" where
  "RestoreFromSpec_DeepCopy inn = new_copy RestoreFromSpec_DeepCopyInto inn"

definition StorageOverride_DeepCopy :: "nat option \<Rightarrow> nat option gomem" where
  "StorageOverride_DeepCopy inn = new_copy StorageOverride_DeepCopyInto inn"

definition ExposureOverride_DeepCopy :: "nat option \<Rightarrow> nat option gomem" where
  "ExposureOverride_DeepCopy inn = new_copy ExposureOverride_DeepCopyInto inn"

definition GameServerSpec_DeepCopy :: "go_libs \<Rightarrow> nat option \<Rightarrow> nat option gomem" where
  "GameServerSpec_DeepCopy X inn = new_copy (GameServerSpec_DeepCopyInto X) inn"

definition GameServerStatus_DeepCopy :: "go_libs \<Rightarrow> nat option \<Rightarrow> nat option gomem" where
  "GameServerStatus_DeepCopy X inn = new_copy (GameServerStatus_DeepCopyInto X) inn"

definition GameServer_DeepCopy :: "go_libs \<Rightarrow> nat option \<Rightarrow> nat option gomem" where
  "GameServer_DeepCopy X inn = new_copy (GameServer_DeepCopyInto X) inn"

definition GameServerList_DeepCopy :: "go_libs \<Rightarrow> nat option \<Rightarrow> nat option gomem" where
  "GameServerList_DeepCopy X inn = new_copy (GameServerList_DeepCopyInto X) inn"

definition GameServerRef_DeepCopy :: "nat option \<Rightarrow> nat option gomem" where
  "GameServerRef_DeepCopy inn = new_copy GameServerRef_DeepCopyInto inn"

definition BackupSpec_DeepCopy :: "nat option \<Rightarrow> nat option gomem" where
  "BackupSpec_DeepCopy inn = new_copy BackupSpec_DeepCopyInto inn"

definition BackupStatus_DeepCopy :: "go_libs \<Rightarrow> nat option \<Rightarrow> nat option gomem" where
  "BackupStatus_DeepCopy X inn = new_copy (BackupStatus_DeepCopyInto X) inn"

definition Backup_DeepCopy :: "go_libs \<Rightarrow> nat option \<Rightarrow> nat option gomem" where
  "Backup_DeepCopy X inn = new_copy (Backup_DeepCopyInto X) inn"

definition BackupList_DeepCopy :: "go_libs \<Rightarrow> nat option \<Rightarrow> nat option gomem" where
  "BackupList_DeepCopy X inn = new_copy (BackupList_DeepCopyInto X) inn"

definition BackupScheduleSpec_DeepCopy :: "nat option \<Rightarrow> nat option gomem" where
  "BackupScheduleSpec_DeepCopy inn = new_copy BackupScheduleSpec_DeepCopyInto inn"

definition BackupScheduleStatus_DeepCopy :: "go_libs \<Rightarrow> nat option \<Rightarrow> nat option gomem" where
  "BackupScheduleStatus_DeepCopy X inn = new_copy (BackupScheduleStatus_DeepCopyInto X) inn"

definition BackupSchedule_DeepCopy :: "go_libs \<Rightarrow> nat option \<Rightarrow> nat option gomem" where
  "BackupSchedule_DeepCopy X inn = new_copy (BackupSchedule_DeepCopyInto X) inn"

definition BackupScheduleList_DeepCopy :: "go_libs \<Rightarrow> nat option \<Rightarrow> nat option gomem" where
  "BackupScheduleList_DeepCopy X inn = new_copy (BackupScheduleList_DeepCopyInto X) inn"

section \<open>DeepCopyObject\<close>

text \<open>A \<open>runtime.Object\<close>: the nil interface, or the type it holds a pointer to and the pointer.\<close>

type_synonym go_object = "(string \<times> nat) option"

definition GameTemplate_DeepCopyObject :: "go_libs \<Rightarrow> nat option \<Rightarrow> go_object gomem" where
  "GameTemplate_DeepCopyObject X inn = do {
     c \<leftarrow> GameTemplate_DeepCopy X inn;
     State_Monad.return (case c of Some a \<Rightarrow> Some (''GameTemplate'', a) | None \<Rightarrow> None) }"

definition GameTemplateList_DeepCopyObject :: "go_libs \<Rightarrow> nat option \<Rightarrow> go_object gomem" where
  "GameTemplateList_DeepCopyObject X inn = do {
     c \<leftarrow> GameTemplateList_DeepCopy X inn;
     State_Monad.return (case c of Some a \<Rightarrow> Some (''GameTemplateList'', a) | None \<Rightarrow> None) }"

definition GameServer_DeepCopyObject :: "go_libs \<Rightarrow> nat option \<Rightarrow> go_object gomem" where
  "GameServer_DeepCopyObject X inn = do {
     c \<leftarrow> GameServer_DeepCopy X inn;
     State_Monad.return (case c of Some a \<Rightarrow> Some (''GameServer'', a) | None \<Rightarrow> None) }"

definition GameServerList_DeepCopyObject :: "go_libs \<Rightarrow> nat option \<Rightarrow> go_object gomem" where
  "GameServerList_DeepCopyObject X inn = do {
     c \<leftarrow> GameServerList_DeepCopy X inn;
     State_Monad.return (case c of Some a \<Rightarrow> Some (''GameServerList'', a) | None \<Rightarrow> None) }"

definition Backup_DeepCopyObject :: "go_libs \<Rightarrow> nat option \<Rightarrow> go_object gomem" where
  "Backup_DeepCopyObject X inn = do {
     c \<leftarrow> Backup_DeepCopy X inn;
     State_Monad.return (case c of Some a \<Rightarrow> Some (''Backup'', a) | None \<Rightarrow> None) }"

definition BackupList_DeepCopyObject :: "go_libs \<Rightarrow> nat option \<Rightarrow> go_object gomem" where
  "BackupList_DeepCopyObject X inn = do {
     c \<leftarrow> BackupList_DeepCopy X inn;
     State_Monad.return (case c of Some a \<Rightarrow> Some (''BackupList'', a) | None \<Rightarrow> None) }"

definition BackupSchedule_DeepCopyObject :: "go_libs \<Rightarrow> nat option \<Rightarrow> go_object gomem" where
  "BackupSchedule_DeepCopyObject X inn = do {
     c \<leftarrow> BackupSchedule_DeepCopy X inn;
     State_Monad.return (case c of Some a \<Rightarrow> Some (''BackupSchedule'', a) | None \<Rightarrow> None) }"

definition BackupScheduleList_DeepCopyObject :: "go_libs \<Rightarrow> nat option \<Rightarrow> go_object gomem" where
  "BackupScheduleList_DeepCopyObject X inn = do {
     c \<leftarrow> BackupScheduleList_DeepCopy X inn;
     State_Monad.return (case c of Some a \<Rightarrow> Some (''BackupScheduleList'', a) | None \<Rightarrow> None) }"

section \<open>All of them\<close>

definition api_copies :: "go_libs \<Rightarrow> (gtype \<times> (nat option \<Rightarrow> nat option gomem)) list" where
  "api_copies X =
     [(TemplatePort_type, TemplatePort_DeepCopy),
      (TemplateStorage_type, TemplateStorage_DeepCopy),
      (ConfigKey_type, ConfigKey_DeepCopy),
      (ProbeSpec_type X, ProbeSpec_DeepCopy X),
      (GameTemplateSpec_type X, GameTemplateSpec_DeepCopy X),
      (GameTemplateStatus_type X, GameTemplateStatus_DeepCopy X),
      (GameTemplate_type X, GameTemplate_DeepCopy X),
      (GameTemplateList_type X, GameTemplateList_DeepCopy X),
      (TemplateRef_type, TemplateRef_DeepCopy),
      (RestoreFromSpec_type, RestoreFromSpec_DeepCopy),
      (StorageOverride_type, StorageOverride_DeepCopy),
      (ExposureOverride_type, ExposureOverride_DeepCopy),
      (GameServerSpec_type X, GameServerSpec_DeepCopy X),
      (GameServerStatus_type X, GameServerStatus_DeepCopy X),
      (GameServer_type X, GameServer_DeepCopy X),
      (GameServerList_type X, GameServerList_DeepCopy X),
      (GameServerRef_type, GameServerRef_DeepCopy),
      (BackupSpec_type, BackupSpec_DeepCopy),
      (BackupStatus_type X, BackupStatus_DeepCopy X),
      (Backup_type X, Backup_DeepCopy X),
      (BackupList_type X, BackupList_DeepCopy X),
      (BackupScheduleSpec_type, BackupScheduleSpec_DeepCopy),
      (BackupScheduleStatus_type X, BackupScheduleStatus_DeepCopy X),
      (BackupSchedule_type X, BackupSchedule_DeepCopy X),
      (BackupScheduleList_type X, BackupScheduleList_DeepCopy X)]"

definition api_objects :: "go_libs \<Rightarrow> (string \<times> gtype \<times> (nat option \<Rightarrow> go_object gomem)) list" where
  "api_objects X =
     [(''GameTemplate'', GameTemplate_type X, GameTemplate_DeepCopyObject X),
      (''GameTemplateList'', GameTemplateList_type X, GameTemplateList_DeepCopyObject X),
      (''GameServer'', GameServer_type X, GameServer_DeepCopyObject X),
      (''GameServerList'', GameServerList_type X, GameServerList_DeepCopyObject X),
      (''Backup'', Backup_type X, Backup_DeepCopyObject X),
      (''BackupList'', BackupList_type X, BackupList_DeepCopyObject X),
      (''BackupSchedule'', BackupSchedule_type X, BackupSchedule_DeepCopyObject X),
      (''BackupScheduleList'', BackupScheduleList_type X, BackupScheduleList_DeepCopyObject X)]"

text \<open>Each struct is covered by its steps: the heads by a step that copies deeply, the rest by the assignment.\<close>

lemmas way_deep [simp] =
  assign_deep copy_ptr_deep unless_nil_deep copy_slice_deep copy_slice_each_deep copy_map_deep

lemma plain_structs [simp]:
  "pointer_free TemplatePort_type" "pointer_free TemplateStorage_type" "pointer_free TemplateRef_type"
  "pointer_free RestoreFromSpec_type" "pointer_free StorageOverride_type" "pointer_free ExposureOverride_type"
  "pointer_free GameServerRef_type" "pointer_free BackupSpec_type" "pointer_free BackupScheduleSpec_type"
  by (simp_all add: TemplatePort_type_def TemplateStorage_type_def TemplateRef_type_def
    RestoreFromSpec_type_def StorageOverride_type_def ExposureOverride_type_def
    GameServerRef_type_def BackupSpec_type_def BackupScheduleSpec_type_def)

lemma plain_deep [simp]:
  "deep_copier TemplatePort_type TemplatePort_DeepCopyInto"
  "deep_copier TemplateStorage_type TemplateStorage_DeepCopyInto"
  "deep_copier ConfigKey_type ConfigKey_DeepCopyInto"
  "deep_copier TemplateRef_type TemplateRef_DeepCopyInto"
  "deep_copier RestoreFromSpec_type RestoreFromSpec_DeepCopyInto"
  "deep_copier StorageOverride_type StorageOverride_DeepCopyInto"
  "deep_copier ExposureOverride_type ExposureOverride_DeepCopyInto"
  "deep_copier GameServerRef_type GameServerRef_DeepCopyInto"
  "deep_copier BackupSpec_type BackupSpec_DeepCopyInto"
  "deep_copier BackupScheduleSpec_type BackupScheduleSpec_DeepCopyInto"
  unfolding TemplatePort_type_def TemplatePort_DeepCopyInto_def
    TemplateStorage_type_def TemplateStorage_DeepCopyInto_def
    ConfigKey_type_def ConfigKey_DeepCopyInto_def
    TemplateRef_type_def TemplateRef_DeepCopyInto_def
    RestoreFromSpec_type_def RestoreFromSpec_DeepCopyInto_def
    StorageOverride_type_def StorageOverride_DeepCopyInto_def
    ExposureOverride_type_def ExposureOverride_DeepCopyInto_def
    GameServerRef_type_def GameServerRef_DeepCopyInto_def
    BackupSpec_type_def BackupSpec_DeepCopyInto_def
    BackupScheduleSpec_type_def BackupScheduleSpec_DeepCopyInto_def
  by (rule struct_deep; simp)+

lemma parts_deep [simp]:
  assumes "libs_copy X"
  shows "deep_copier (ProbeSpec_type X) (ProbeSpec_DeepCopyInto X)"
    and "deep_copier (GameTemplateStatus_type X) (GameTemplateStatus_DeepCopyInto X)"
    and "deep_copier (GameServerSpec_type X) (GameServerSpec_DeepCopyInto X)"
    and "deep_copier (GameServerStatus_type X) (GameServerStatus_DeepCopyInto X)"
    and "deep_copier (BackupStatus_type X) (BackupStatus_DeepCopyInto X)"
    and "deep_copier (BackupScheduleStatus_type X) (BackupScheduleStatus_DeepCopyInto X)"
  unfolding ProbeSpec_type_def ProbeSpec_DeepCopyInto_def
    GameTemplateStatus_type_def GameTemplateStatus_DeepCopyInto_def
    GameServerSpec_type_def GameServerSpec_DeepCopyInto_def
    GameServerStatus_type_def GameServerStatus_DeepCopyInto_def
    BackupStatus_type_def BackupStatus_DeepCopyInto_def
    BackupScheduleStatus_type_def BackupScheduleStatus_DeepCopyInto_def
  by (rule struct_deep; use assms in \<open>simp add: libs_copy_def\<close>)+

lemma specs_deep [simp]:
  assumes "libs_copy X"
  shows "deep_copier (GameTemplateSpec_type X) (GameTemplateSpec_DeepCopyInto X)"
    and "deep_copier (GameServer_type X) (GameServer_DeepCopyInto X)"
    and "deep_copier (Backup_type X) (Backup_DeepCopyInto X)"
    and "deep_copier (BackupSchedule_type X) (BackupSchedule_DeepCopyInto X)"
  unfolding GameTemplateSpec_type_def GameTemplateSpec_DeepCopyInto_def
    GameServer_type_def GameServer_DeepCopyInto_def
    Backup_type_def Backup_DeepCopyInto_def
    BackupSchedule_type_def BackupSchedule_DeepCopyInto_def
  by (rule struct_deep; use assms in \<open>simp add: libs_copy_def\<close>)+

lemma kinds_deep [simp]:
  assumes "libs_copy X"
  shows "deep_copier (GameTemplate_type X) (GameTemplate_DeepCopyInto X)"
    and "deep_copier (GameServerList_type X) (GameServerList_DeepCopyInto X)"
    and "deep_copier (BackupList_type X) (BackupList_DeepCopyInto X)"
    and "deep_copier (BackupScheduleList_type X) (BackupScheduleList_DeepCopyInto X)"
  unfolding GameTemplate_type_def GameTemplate_DeepCopyInto_def
    GameServerList_type_def GameServerList_DeepCopyInto_def
    BackupList_type_def BackupList_DeepCopyInto_def
    BackupScheduleList_type_def BackupScheduleList_DeepCopyInto_def
  by (rule struct_deep; use assms in \<open>simp add: libs_copy_def\<close>)+

lemma lists_deep [simp]:
  assumes "libs_copy X"
  shows "deep_copier (GameTemplateList_type X) (GameTemplateList_DeepCopyInto X)"
  unfolding GameTemplateList_type_def GameTemplateList_DeepCopyInto_def
  by (rule struct_deep; use assms in \<open>simp add: libs_copy_def\<close>)+

lemmas new_variables =
  TemplatePort_DeepCopy_def [abs_def] TemplateStorage_DeepCopy_def [abs_def]
  ConfigKey_DeepCopy_def [abs_def] ProbeSpec_DeepCopy_def [abs_def]
  GameTemplateSpec_DeepCopy_def [abs_def] GameTemplateStatus_DeepCopy_def [abs_def]
  GameTemplate_DeepCopy_def [abs_def] GameTemplateList_DeepCopy_def [abs_def]
  TemplateRef_DeepCopy_def [abs_def] RestoreFromSpec_DeepCopy_def [abs_def]
  StorageOverride_DeepCopy_def [abs_def] ExposureOverride_DeepCopy_def [abs_def]
  GameServerSpec_DeepCopy_def [abs_def] GameServerStatus_DeepCopy_def [abs_def]
  GameServer_DeepCopy_def [abs_def] GameServerList_DeepCopy_def [abs_def]
  GameServerRef_DeepCopy_def [abs_def] BackupSpec_DeepCopy_def [abs_def]
  BackupStatus_DeepCopy_def [abs_def] Backup_DeepCopy_def [abs_def]
  BackupList_DeepCopy_def [abs_def] BackupScheduleSpec_DeepCopy_def [abs_def]
  BackupScheduleStatus_DeepCopy_def [abs_def] BackupSchedule_DeepCopy_def [abs_def]
  BackupScheduleList_DeepCopy_def [abs_def]

text \<open>Every \<open>DeepCopy\<close> is that of a function that copies deeply.\<close>

definition deep_copies :: "gtype \<Rightarrow> (nat option \<Rightarrow> nat option gomem) \<Rightarrow> bool" where
  "deep_copies t dc \<longleftrightarrow> (\<exists>f. deep_copier t f \<and> dc = new_copy f)"

lemma new_copy_deep [simp]: "deep_copier t f \<Longrightarrow> deep_copies t (new_copy f)"
  by (auto simp: deep_copies_def)

lemma api_copies_deep:
  assumes "libs_copy X"
  shows "list_all (\<lambda>(t, dc). deep_copies t dc) (api_copies X)"
  unfolding api_copies_def new_variables using assms by simp

definition object_copies :: "string \<Rightarrow> gtype \<Rightarrow> (nat option \<Rightarrow> go_object gomem) \<Rightarrow> bool" where
  "object_copies kind t dco \<longleftrightarrow> (\<exists>f. deep_copier t f \<and> dco = (\<lambda>p. do {
     c \<leftarrow> new_copy f p;
     State_Monad.return (case c of Some a \<Rightarrow> Some (kind, a) | None \<Rightarrow> None) }))"

lemma new_object_deep [simp]:
  assumes "deep_copier t f"
  shows "object_copies kind t (\<lambda>p. do {
     c \<leftarrow> new_copy f p;
     State_Monad.return (case c of Some a \<Rightarrow> Some (kind, a) | None \<Rightarrow> None) })"
  unfolding object_copies_def using assms by blast

lemma api_objects_deep:
  assumes "libs_copy X"
  shows "list_all (\<lambda>(kind, t, dco). object_copies kind t dco) (api_objects X)"
  unfolding api_objects_def new_variables
    GameTemplate_DeepCopyObject_def [abs_def]
    GameTemplateList_DeepCopyObject_def [abs_def]
    GameServer_DeepCopyObject_def [abs_def]
    GameServerList_DeepCopyObject_def [abs_def]
    Backup_DeepCopyObject_def [abs_def]
    BackupList_DeepCopyObject_def [abs_def]
    BackupSchedule_DeepCopyObject_def [abs_def]
    BackupScheduleList_DeepCopyObject_def [abs_def]
  using assms by simp

end
