(* ===== verification/DeepCopyProperties.thy ===== *)
theory DeepCopyProperties
  imports DeepCopy
begin

text \<open>
  The generated copies do what the informer cache of the manager needs of them: a copy holds what the
  original holds and shares no memory with it, so a reconciler that changes an object it was given changes
  neither the cache nor what another reader is given.
\<close>

section \<open>A library and a memory\<close>

definition demo_string :: "string \<Rightarrow> gval" where
  "demo_string s = Basic (StrV s)"

definition copy_libs :: go_libs where
  "copy_libs = \<lparr>
     TypeMeta_type = TStruct [(''Kind'', TBasic), (''APIVersion'', TBasic)],
     ObjectMeta_type = TStruct [(''Name'', TBasic), (''Generation'', TBasic), (''Labels'', TMap TBasic)],
     ListMeta_type = TStruct [(''ResourceVersion'', TBasic)],
     Condition_type = TStruct [(''Type'', TBasic), (''Status'', TBasic), (''Reason'', TBasic)],
     Time_type = TBasic,
     EnvVar_type = TStruct [(''Name'', TBasic), (''Value'', TBasic), (''ValueFrom'', TPtr TBasic)],
     Toleration_type = TStruct [(''Key'', TBasic), (''TolerationSeconds'', TPtr TBasic)],
     Probe_type = TStruct [(''PeriodSeconds'', TBasic)],
     ResourceRequirements_type = TStruct [(''Limits'', TMap TBasic)],
     LocalObjectReference_type = TStruct [(''Name'', TBasic)],
     ObjectMeta_DeepCopyInto = struct_copy [(''Labels'', copy_map sorted_list_of_fset)],
     ListMeta_DeepCopyInto = assign,
     Condition_DeepCopyInto = assign,
     EnvVar_DeepCopyInto = struct_copy [(''ValueFrom'', copy_ptr assign)],
     Toleration_DeepCopyInto = struct_copy [(''TolerationSeconds'', copy_ptr assign)],
     Probe_DeepCopyInto = assign,
     ResourceRequirements_DeepCopyInto = struct_copy [(''Limits'', copy_map sorted_list_of_fset)],
     Time_DeepCopy = copy_ptr assign,
     RangeOrder = sorted_list_of_fset\<rparr>"

lemma copy_libs_copy: "libs_copy copy_libs"
proof -
  have order: "map_order sorted_list_of_fset"
    by (simp add: map_order_def sorted_list_of_fset.rep_eq)
  show ?thesis
    by (simp add: libs_copy_def copy_libs_def order; intro conjI; rule struct_deep; simp add: order)
qed

definition demo_server_value :: gval where
  "demo_server_value = Struct
     [(''TypeMeta'', Struct [(''Kind'', demo_string ''GameServer''), (''APIVersion'', demo_string ''v1alpha1'')]),
      (''ObjectMeta'', Struct [(''Name'', demo_string ''world''), (''Generation'', Basic (IntV 1)),
         (''Labels'', MapV (Some 1))]),
      (''Spec'', Struct
         [(''TemplateRef'', Struct [(''Name'', demo_string ''minecraft'')]),
          (''Config'', MapV (Some 2)),
          (''Storage'', Struct [(''ClassName'', demo_string []), (''Size'', demo_string ''5Gi'')]),
          (''Resources'', Struct [(''Limits'', MapV None)]),
          (''NodeSelector'', MapV None),
          (''Tolerations'', SliceV None),
          (''ExposeOverride'', SliceV (Some (3, 0, 1))),
          (''Suspend'', Basic (BoolV False)),
          (''EnvOverride'', SliceV (Some (4, 1, 1))),
          (''RestoreFrom'', Ptr (Some 5))]),
      (''Status'', Struct
         [(''Phase'', demo_string ''Ready''), (''Address'', demo_string ''10.0.0.1:25565''),
          (''ObservedGeneration'', Basic (IntV 1)), (''TemplateGeneration'', Basic (IntV 1)),
          (''ReadyReplicas'', Basic (IntV 1)), (''Conditions'', SliceV (Some (6, 0, 1)))])]"

definition demo_memory :: mem where
  "demo_memory = \<lparr>limit = 7, cells = (\<lambda>a.
     [Cell demo_server_value,
      Dict (fmap_of_list [(''team'', demo_string ''games'')]),
      Dict (fmap_of_list [(''maxPlayers'', demo_string ''20''), (''motd'', demo_string ''hi'')]),
      Arr [Struct [(''PortName'', demo_string ''game''), (''ExposeAs'', demo_string ''NodePort''),
        (''NodePort'', Basic (IntV 30000))]],
      Arr [Struct [(''Name'', demo_string ''A''), (''Value'', demo_string ''1''), (''ValueFrom'', Ptr None)],
        Struct [(''Name'', demo_string ''B''), (''Value'', demo_string ''2''), (''ValueFrom'', Ptr None)]],
      Cell (Struct [(''BackupName'', demo_string ''monday'')]),
      Arr [Struct [(''Type'', demo_string ''Ready''), (''Status'', demo_string ''True''),
        (''Reason'', demo_string ''Running'')]]] ! a)\<rparr>"

lemma demo_memory_typed: "well_typed (TPtr (GameServer_type copy_libs)) demo_memory (Ptr (Some 0))"
  by (auto simp: GameServer_type_def GameServerSpec_type_def GameServerStatus_type_def TemplateRef_type_def
    StorageOverride_type_def ExposureOverride_type_def RestoreFromSpec_type_def copy_libs_def demo_memory_def
    demo_server_value_def demo_string_def window_def intro!: fmpred_upd)

section \<open>A new variable\<close>

lemma new_copy_copies:
  assumes f: "deep_copier t f" and a: "well_typed (TPtr t) m (Ptr (Some a))"
    and run: "run_state (new_copy f (Some a)) m = (out, m')"
  obtains b where "out = Some b" and "copies (TPtr t) m (Ptr (Some a)) (Ptr (Some b)) m'"
proof -
  have ptr: "run_state (copy_ptr f (Ptr (Some a))) m = (Ptr out, m')"
    using run by (simp add: copy_ptr_def)
  have "copies (TPtr t) m (Ptr (Some a)) (Ptr out) m'"
    using copy_ptr_deep [OF f] a unfolding deep_copier_def ptr [symmetric] by (metis ptr fst_conv snd_conv)
  moreover obtain b where "out = Some b"
    using run by (auto simp: new_copy_def split_beta)
  ultimately show thesis using that by blast
qed

text \<open>A memory in which only some of the old cells were written.\<close>

definition written :: "nat set \<Rightarrow> mem \<Rightarrow> mem \<Rightarrow> bool" where
  "written S m m' \<longleftrightarrow> limit m \<le> limit m' \<and> (\<forall>c < limit m. c \<notin> S \<longrightarrow> cells m' c = cells m c)"

lemma written_apart:
  assumes "written S m m'" and "well_typed t m v" and "reach t m v \<inter> S = {}"
  shows "content t m' v = content t m v" and "reach t m' v = reach t m v" and "well_typed t m' v"
proof -
  have "\<forall>c \<in> reach t m v. cells m' c = cells m c" "limit m \<le> limit m'"
    using assms reach_allocated(1) [OF assms(2)] by (auto simp: written_def)
  from agree(1) [OF this] assms(2)
  show "content t m' v = content t m v" "reach t m' v = reach t m v" "well_typed t m' v" by simp_all
qed

lemma copies_apart:
  assumes c: "copies t m v v' m'" and v: "well_typed t m v"
  shows "written (reach t m' v') m' m'' \<Longrightarrow> content t m'' v = content t m v"
    and "written {..<limit m} m' m'' \<Longrightarrow> content t m'' v' = content t m v"
proof -
  have grow: "grows m m'" using c by (simp add: copies_def)
  note v' = grown_value [OF grow v]
  have "reach t m' v \<inter> reach t m' v' = {}"
    using c v' reach_allocated(1) [OF v] by (auto simp: copies_def)
  then show "content t m'' v = content t m v" if "written (reach t m' v') m' m''"
    using written_apart(1) [OF that v'(3)] v'(1) by simp
  show "content t m'' v' = content t m v" if "written {..<limit m} m' m''"
    using written_apart(1) [OF that, of t v'] c by (simp add: copies_def)
qed

section \<open>DeepCopy\<close>

text \<open>C27. A generated \<open>DeepCopy\<close> gives nil for nil, and otherwise a pointer to a value that holds what the
  original holds. The copy shares nothing with what was there before: whatever is written later to the memory
  of the copy, the original holds what it held, and whatever is written to the memory that was there, the copy
  holds what the original held.\<close>
theorem DeepCopy_isolates:
  assumes "libs_copy X" and "(t, DeepCopy) \<in> set (api_copies X)"
    and "well_typed (TPtr t) m (Ptr inn)" and "run_state (DeepCopy inn) m = (out, m')"
  shows "(out = None \<longleftrightarrow> inn = None) \<and> grows m m'
    \<and> content (TPtr t) m' (Ptr out) = content (TPtr t) m (Ptr inn)
    \<and> (\<forall>m''. written (reach (TPtr t) m' (Ptr out)) m' m''
          \<longrightarrow> content (TPtr t) m'' (Ptr inn) = content (TPtr t) m (Ptr inn))
    \<and> (\<forall>m''. written {..<limit m} m' m'' \<longrightarrow> content (TPtr t) m'' (Ptr out) = content (TPtr t) m (Ptr inn))"
proof -
  obtain f where f: "deep_copier t f" "DeepCopy = new_copy f"
    using api_copies_deep [OF assms(1)] assms(2) by (auto simp: list_all_iff deep_copies_def)
  show ?thesis
  proof (cases inn)
    case None
    then show ?thesis using assms(4) by (simp add: f new_copy_def)
  next
    case (Some a)
    obtain b where b: "out = Some b" "copies (TPtr t) m (Ptr inn) (Ptr out) m'"
      using new_copy_copies [OF f(1) assms(3) [unfolded Some] assms(4) [unfolded f(2) Some]] Some by blast
    from copies_apart [OF b(2) assms(3)] b Some show ?thesis
      unfolding copies_def by blast
  qed
qed

theorem DeepCopy_isolates_witness:
  "let (out, m') = run_state (GameServer_DeepCopy copy_libs (Some 0)) demo_memory;
       t = TPtr (GameServer_type copy_libs)
   in out \<noteq> None \<and> content t m' (Ptr out) = content t demo_memory (Ptr (Some 0))
     \<and> (\<forall>m''. written (reach t m' (Ptr out)) m' m'' \<longrightarrow> content t m'' (Ptr (Some 0)) = content t demo_memory (Ptr (Some 0)))"
proof -
  obtain out m' where run: "run_state (GameServer_DeepCopy copy_libs (Some 0)) demo_memory = (out, m')" by fastforce
  have "(GameServer_type copy_libs, GameServer_DeepCopy copy_libs) \<in> set (api_copies copy_libs)"
    by (simp add: api_copies_def)
  from DeepCopy_isolates [OF copy_libs_copy this demo_memory_typed run] show ?thesis
    by (simp add: run Let_def)
qed

section \<open>Readers of a cache\<close>

text \<open>An object that is cached: its kind, its layout, its \<open>DeepCopyObject\<close>, and where it lies.\<close>

type_synonym cached = "(string \<times> gtype \<times> (nat option \<Rightarrow> go_object gomem)) \<times> nat"

definition cached_type :: "cached \<Rightarrow> gtype" where
  "cached_type e = TPtr (fst (snd (fst e)))"

definition cached_ptr :: "cached \<Rightarrow> gval" where
  "cached_ptr e = Ptr (Some (snd e))"

definition read_cached :: "cached \<Rightarrow> go_object gomem" where
  "read_cached e = snd (snd (fst e)) (Some (snd e))"

definition cache_typed :: "go_libs \<Rightarrow> mem \<Rightarrow> cached list \<Rightarrow> bool" where
  "cache_typed X m cache \<longleftrightarrow>
     list_all (\<lambda>e. fst e \<in> set (api_objects X) \<and> well_typed (cached_type e) m (cached_ptr e)) cache"

text \<open>Readers of the cache take copies, and write what they like to the cells of their copies and to new cells.\<close>

record session =
  smem :: mem
  owned :: "nat set"

inductive reader_step :: "cached list \<Rightarrow> session \<Rightarrow> session \<Rightarrow> bool" for cache where
  Take: "e \<in> set cache \<Longrightarrow> run_state (read_cached e) (smem s) = (Some (kind, b), m') \<Longrightarrow>
    reader_step cache s \<lparr>smem = m', owned = owned s \<union> reach (cached_type e) m' (Ptr (Some b))\<rparr>"
| Write: "written (owned s) (smem s) m' \<Longrightarrow>
    reader_step cache s \<lparr>smem = m', owned = owned s \<union> {limit (smem s)..<limit m'}\<rparr>"


lemma read_cached_copies:
  assumes X: "libs_copy X" and e: "fst e \<in> set (api_objects X)" and v: "well_typed (cached_type e) m (cached_ptr e)"
    and run: "run_state (read_cached e) m = (obj, m')"
  obtains b where "obj = Some (fst (fst e), b)" and "copies (cached_type e) m (cached_ptr e) (Ptr (Some b)) m'"
proof -
  obtain kind t dco a where e': "e = ((kind, t, dco), a)" by (metis prod.exhaust)
  obtain f where f: "deep_copier t f" and dco: "dco (Some a) = do { c \<leftarrow> new_copy f (Some a);
      State_Monad.return (case c of Some a \<Rightarrow> Some (kind, a) | None \<Rightarrow> None) }"
    using api_objects_deep [OF X] e by (auto simp: e' list_all_iff object_copies_def)
  obtain c m'' where c: "run_state (new_copy f (Some a)) m = (c, m'')" by fastforce
  from new_copy_copies [OF f v [unfolded e' cached_type_def cached_ptr_def fst_conv snd_conv] c]
  obtain b where b: "c = Some b" "copies (TPtr t) m (Ptr (Some a)) (Ptr (Some b)) m''" .
  have "obj = Some (kind, b)" "m' = m''"
    using run by (simp_all add: read_cached_def e' dco c b(1))
  with that b(2) show thesis by (simp add: e' cached_type_def cached_ptr_def)
qed

text \<open>What the readers own is apart from the cache, and the cache holds what it held.\<close>

definition cache_intact :: "cached list \<Rightarrow> mem \<Rightarrow> session \<Rightarrow> bool" where
  "cache_intact cache m0 s \<longleftrightarrow> (\<forall>e \<in> set cache. well_typed (cached_type e) (smem s) (cached_ptr e)
     \<and> content (cached_type e) (smem s) (cached_ptr e) = content (cached_type e) m0 (cached_ptr e)
     \<and> reach (cached_type e) (smem s) (cached_ptr e) \<inter> owned s = {})"

lemma reader_step_keeps:
  assumes X: "libs_copy X" and cache: "\<forall>e \<in> set cache. fst e \<in> set (api_objects X)"
    and inv: "cache_intact cache m0 s" and step: "reader_step cache s s'"
  shows "cache_intact cache m0 s'"
  using step
proof (cases rule: reader_step.cases)
  case (Take e kind b m')
  have e: "fst e \<in> set (api_objects X)" "well_typed (cached_type e) (smem s) (cached_ptr e)"
    using cache inv Take(2) by (auto simp: cache_intact_def)
  obtain b' where "Some (kind, b) = Some (fst (fst e), b')"
    and c: "copies (cached_type e) (smem s) (cached_ptr e) (Ptr (Some b')) m'"
    by (rule read_cached_copies [OF X e Take(3)])
  then have new: "reach (cached_type e) m' (Ptr (Some b)) \<inter> {..<limit (smem s)} = {}" and grow: "grows (smem s) m'"
    by (simp_all add: copies_def)
  show ?thesis
    unfolding cache_intact_def Take(1) session.select_convs
  proof (intro ballI)
    fix d assume "d \<in> set cache"
    then have d: "well_typed (cached_type d) (smem s) (cached_ptr d)"
      and rest: "content (cached_type d) (smem s) (cached_ptr d) = content (cached_type d) m0 (cached_ptr d)"
        "reach (cached_type d) (smem s) (cached_ptr d) \<inter> owned s = {}"
      using inv by (auto simp: cache_intact_def)
    show "well_typed (cached_type d) m' (cached_ptr d)
      \<and> content (cached_type d) m' (cached_ptr d) = content (cached_type d) m0 (cached_ptr d)
      \<and> reach (cached_type d) m' (cached_ptr d) \<inter> (owned s \<union> reach (cached_type e) m' (Ptr (Some b))) = {}"
      using grown_value [OF grow d] rest new      using grown_value [OF grow d] rest new reach_allocated(1) [OF d] by auto
  qed
next
  case (Write m')
  have "{limit (smem s)..<limit m'} \<inter> reach (cached_type e) (smem s) (cached_ptr e) = {}" if "e \<in> set cache" for e
    using reach_allocated(1) [of "cached_type e" "smem s" "cached_ptr e"] inv that by (auto simp: cache_intact_def)
  with inv written_apart [OF Write(2)] show ?thesis
    unfolding cache_intact_def Write(1) by (simp add: Int_Un_distrib Int_commute)
qed

text \<open>C26. Whatever the readers of a cache write to the objects they were given, every object of the cache
  keeps what it held when they began, and the next reader is given an object of the right kind with just
  that.\<close>
theorem cache_survives_readers:
  assumes "libs_copy X" and "cache_typed X m0 cache" and "(reader_step cache)\<^sup>*\<^sup>* \<lparr>smem = m0, owned = {}\<rparr> s"
    and "e \<in> set cache" and "run_state (read_cached e) (smem s) = (obj, m')"
  shows "content (cached_type e) (smem s) (cached_ptr e) = content (cached_type e) m0 (cached_ptr e)
    \<and> (\<exists>b. obj = Some (fst (fst e), b)
        \<and> content (cached_type e) m' (Ptr (Some b)) = content (cached_type e) m0 (cached_ptr e))"
proof -
  have cache: "\<forall>e \<in> set cache. fst e \<in> set (api_objects X)"
    using assms(2) by (auto simp: cache_typed_def list_all_iff)
  from assms(3) have "cache_intact cache m0 s"
  proof induction
    case base
    then show ?case using assms(2) by (auto simp: cache_intact_def cache_typed_def list_all_iff)
  next
    case (step s s')
    then show ?case by (blast intro: reader_step_keeps [OF assms(1) cache])
  qed
  then have e: "well_typed (cached_type e) (smem s) (cached_ptr e)"
    "content (cached_type e) (smem s) (cached_ptr e) = content (cached_type e) m0 (cached_ptr e)"
    using assms(4) by (auto simp: cache_intact_def)
  obtain b where "obj = Some (fst (fst e), b)" "copies (cached_type e) (smem s) (cached_ptr e) (Ptr (Some b)) m'"
    using read_cached_copies [OF assms(1) _ e(1) assms(5)] cache assms(4) by blast
  with e(2) show ?thesis by (simp add: copies_def)
qed

text \<open>A reader takes a copy, and turns everything it owns into zero values.\<close>

definition demo_cache :: "cached list" where
  "demo_cache = [((''GameServer'', GameServer_type copy_libs, GameServer_DeepCopyObject copy_libs), 0)]"

theorem cache_survives_readers_witness:
  "\<exists>s. (reader_step demo_cache)\<^sup>*\<^sup>* \<lparr>smem = demo_memory, owned = {}\<rparr> s \<and> owned s \<noteq> {}
     \<and> (\<forall>c \<in> owned s. cells (smem s) c = Cell zero_val)
     \<and> content (TPtr (GameServer_type copy_libs)) (smem s) (Ptr (Some 0))
         = content (TPtr (GameServer_type copy_libs)) demo_memory (Ptr (Some 0))"
proof -
  let ?e = "((''GameServer'', GameServer_type copy_libs, GameServer_DeepCopyObject copy_libs), 0) :: cached"
  have e: "?e \<in> set demo_cache" by (simp add: demo_cache_def)
  have in_api: "fst ?e \<in> set (api_objects copy_libs)" by (simp add: api_objects_def)
  have v: "well_typed (cached_type ?e) demo_memory (cached_ptr ?e)"
    unfolding cached_type_def cached_ptr_def fst_conv snd_conv by (rule demo_memory_typed)
  have typed: "cache_typed copy_libs demo_memory demo_cache"
    unfolding cache_typed_def demo_cache_def using in_api v by (simp only: list.pred_inject simp_thms)
  obtain obj m' where run: "run_state (read_cached ?e) demo_memory = (obj, m')" by fastforce
  from read_cached_copies [OF copy_libs_copy in_api v run]
  obtain b where b: "obj = Some (''GameServer'', b)"
    and c: "copies (cached_type ?e) demo_memory (cached_ptr ?e) (Ptr (Some b)) m'" by auto
  let ?O = "reach (cached_type ?e) m' (Ptr (Some b))"
  let ?s1 = "\<lparr>smem = m', owned = {} \<union> ?O\<rparr>"
  let ?m2 = "m'\<lparr>cells := (\<lambda>c. if c \<in> ?O then Cell zero_val else cells m' c)\<rparr>"
  let ?s2 = "\<lparr>smem = ?m2, owned = ?O\<rparr>"
  have "reader_step demo_cache \<lparr>smem = demo_memory, owned = {}\<rparr> ?s1"
    using reader_step.Take [OF e, of "\<lparr>smem = demo_memory, owned = {}\<rparr>" "''GameServer''" b m'] run b by simp
  moreover have "reader_step demo_cache ?s1 ?s2"
    using reader_step.Write [of ?s1 ?m2 demo_cache] by (simp add: written_def)
  ultimately have steps: "(reader_step demo_cache)\<^sup>*\<^sup>* \<lparr>smem = demo_memory, owned = {}\<rparr> ?s2"
    by (rule rtranclp.rtrancl_into_rtrancl [OF r_into_rtranclp])
  obtain obj2 m3 where run2: "run_state (read_cached ?e) (smem ?s2) = (obj2, m3)" by fastforce
  have "b \<in> ?O" by (simp add: cached_type_def)
  with cache_survives_readers [OF copy_libs_copy typed steps e run2] steps show ?thesis
    by (intro exI [of _ ?s2]) (auto simp: cached_type_def cached_ptr_def)
qed

end
