(* ===== verification/ServerLiveness.thy ===== *)
theory ServerLiveness
  imports OperatorProperties ServerFailures Faults
begin

text \<open>
  The loop of the operator: a cluster, the requests that wait in the work queues of its controllers, and steps
  that serve a request or are somebody else's. What comes of a fair execution: a server whose pods come up is
  reported Ready, and stays so.
\<close>

section \<open>The loop\<close>

type_synonym loop_state = "cluster \<times> turn set"

text \<open>The work queues as controller-runtime documents them: a request that was served comes back when its
  reconcile failed or asked for a delay; other requests stay; anything may be added, by a watch for example.\<close>

inductive loop_step :: "lib \<Rightarrow> 'w client \<Rightarrow> ('w \<Rightarrow> cluster) \<Rightarrow> turn option \<Rightarrow> loop_state \<Rightarrow> loop_state \<Rightarrow> bool"
  for L C view where
  serve: "t \<in> q \<Longrightarrow> turn_step L C view t r c c' \<Longrightarrow> q - {t} \<subseteq> q' \<Longrightarrow> (asks_again r \<Longrightarrow> t \<in> q') \<Longrightarrow>
    loop_step L C view (Some t) (c, q) (c', q')"
| outside: "outside_step c c' \<Longrightarrow> q \<subseteq> q' \<Longrightarrow> loop_step L C view None (c, q) (c', q')"

definition execution :: "lib \<Rightarrow> 'w client \<Rightarrow> ('w \<Rightarrow> cluster) \<Rightarrow> (nat \<Rightarrow> turn option) \<Rightarrow> (nat \<Rightarrow> loop_state) \<Rightarrow> bool" where
  "execution L C view served st \<longleftrightarrow> (\<forall>i. loop_step L C view (served i) (st i) (st (Suc i)))"

text \<open>Every request that waits is served some time.\<close>

definition fair_queue :: "(nat \<Rightarrow> turn option) \<Rightarrow> (nat \<Rightarrow> loop_state) \<Rightarrow> bool" where
  "fair_queue served st \<longleftrightarrow> (\<forall>i. \<forall>t \<in> snd (st i). \<exists>j \<ge> i. served j = Some t)"

text \<open>A step leaves a server, its template, its claim and its Deployment as they are; the status of the template and
  of the Deployment may change.\<close>

definition left_alone :: "game_server \<Rightarrow> cluster \<Rightarrow> cluster \<Rightarrow> bool" where
  "left_alone gs c c' \<longleftrightarrow>
     (let k = object_key (gsMeta gs); t = ('''', gsTemplateRefName (gsSpec gs)) in
      fmlookup (clGameServers c') k = fmlookup (clGameServers c) k
      \<and> rel_option same_template (fmlookup (clGameTemplates c) t) (fmlookup (clGameTemplates c') t)
      \<and> rel_option same_claim (fmlookup (clPVCs c) (claim_key k)) (fmlookup (clPVCs c') (claim_key k))
      \<and> (\<forall>d. fmlookup (clDeployments c) k = Some d \<longrightarrow>
           (\<exists>d'. fmlookup (clDeployments c') k = Some d' \<and> depSpec d' = depSpec d \<and> mLabels (depMeta d') = mLabels (depMeta d))))"

text \<open>The scheduler and the nodes: a Deployment that stays as it is, with its claim, has a ready pod from some
  time on.\<close>

definition deployed :: "lib \<Rightarrow> game_server \<Rightarrow> game_template \<Rightarrow> cluster \<Rightarrow> bool" where
  "deployed L gs tpl c \<longleftrightarrow> fmlookup (clPVCs c) (claim_key (object_key (gsMeta gs))) \<noteq> None
     \<and> (\<exists>d. deployment_present L gs tpl d c)"

definition pod_ready :: "game_server \<Rightarrow> cluster \<Rightarrow> bool" where
  "pod_ready gs c \<longleftrightarrow> (case fmlookup (clDeployments c) (object_key (gsMeta gs)) of
     None \<Rightarrow> False | Some d \<Rightarrow> 1 \<le> sint (depReadyReplicas d))"

definition pods_come_up :: "lib \<Rightarrow> game_server \<Rightarrow> game_template \<Rightarrow> (nat \<Rightarrow> loop_state) \<Rightarrow> bool" where
  "pods_come_up L gs tpl st \<longleftrightarrow>
     ((\<exists>n. \<forall>i \<ge> n. deployed L gs tpl (fst (st i))) \<longrightarrow> (\<exists>n. \<forall>i \<ge> n. pod_ready gs (fst (st i))))"

section \<open>What a turn reports\<close>

definition reported_ready :: "game_server \<Rightarrow> game_template \<Rightarrow> cluster \<Rightarrow> bool" where
  "reported_ready gs tpl c \<longleftrightarrow> (\<exists>g. fmlookup (clGameServers c) (object_key (gsMeta gs)) = Some g \<and> same_object g gs
     \<and> gsPhase (gsStatus g) = PhaseReady \<and> 1 \<le> sint (gsReadyReplicas (gsStatus g))
     \<and> map_option cStatus (find_cond ConditionReady (gsConditions (gsStatus g))) = Some ConditionTrue
     \<and> gsObservedGeneration (gsStatus g) = mGeneration (gsMeta gs)
     \<and> gsTemplateGeneration (gsStatus g) = mGeneration (tplMeta tpl))"

lemma same_template_builders:
  assumes "same_template t tpl"
  shows "BuildDeployment L gs t = BuildDeployment L gs tpl" "ValidateConfig L gs t = ValidateConfig L gs tpl"
    "storage_size gs t = storage_size gs tpl"
proof -
  have "resolveEnv L gs t = resolveEnv L gs tpl" using assms by (simp add: resolveEnv_def)
  then have "game_container L gs t = game_container L gs tpl" using assms
    by (simp add: game_container_def container_ports_def primaryPort_def cong: option.case_cong)
  then show "BuildDeployment L gs t = BuildDeployment L gs tpl" using assms by (simp add: BuildDeployment_def)
  have entry: "check_entry L t = check_entry L tpl" using assms by (simp add: check_entry_def fun_eq_iff cong: option.case_cong)
  have "check_entries L t m cfg ns = check_entries L tpl m cfg ns" for m cfg ns
    by (induction ns) (simp_all add: entry split: option.split)
  moreover have "check_required t cfg ks = check_required tpl cfg ks" for cfg ks
    using assms by (induction ks) simp_all
  ultimately show "ValidateConfig L gs t = ValidateConfig L gs tpl"
    using assms by (simp add: ValidateConfig_def Let_def cong: option.case_cong)
  show "storage_size gs t = storage_size gs tpl" using assms by (simp add: storage_size_def Let_def)
qed

lemma run_effect_reports:
  assumes law: "owner_law L" and eff: "run_effect L c g t r c'" and g: "same_object g gs" and t: "same_template t tpl"
    and active: "\<not> gsSuspend (gsSpec gs)"
  shows "deployed L gs tpl c'" and "pod_ready gs c' \<longleftrightarrow> pod_ready gs c"
    and "asks_again r \<longleftrightarrow> \<not> pod_ready gs c" and "pod_ready gs c \<Longrightarrow> reported_ready gs tpl c'"
proof -
  from eff obtain d ys t1 t2 t3 t4 f m p
    where d: "deployment_applied (fmlookup (clDeployments c) (mNamespace (gsMeta g), DeploymentName g))
            (own_deployment L g (BuildDeployment L g t)) d"
    and f: "f = final_status t4 (prepared t1 t2 t3 g) t d ys"
    and c': "c' = c\<lparr>clServiceAccounts := m, clPVCs := fmupd (mNamespace (gsMeta g), PVCName g) p (clPVCs c),
                  clDeployments := fmupd (mNamespace (gsMeta g), DeploymentName g) d (clDeployments c),
                  clServices := put_services ys (clServices c),
                  clGameServers := fmupd (object_key (gsMeta g)) (g\<lparr>gsStatus := gsStatus f\<rparr>) (clGameServers c)\<rparr>"
    and r: "r = (Result (if observed_phase g d = PhaseReady then 0 else 10 * Second), None)"
    unfolding run_effect_def by blast
  have key: "(mNamespace (gsMeta g), DeploymentName g) = object_key (gsMeta gs)" "object_key (gsMeta g) = object_key (gsMeta gs)"
    using g server_keys(2) [of g] by simp_all
  have "BuildDeployment L g t = BuildDeployment L gs tpl"
    using same_object_builders(1) [OF g] same_template_builders(1) [OF t] by simp
  moreover have "mLabels (depMeta d) = baseLabels gs"
    using d owned_law(3) [OF law built_metas(1,2)] same_object_names(4) [OF g]
    by (simp add: deployment_applied_def builder_simps)
  ultimately have "deployment_present L gs tpl d c'"
    using d by (simp add: deployment_present_def c' deployment_applied_def key server_keys(2) [of gs])
  moreover have "fmlookup (clPVCs c') (claim_key (object_key (gsMeta gs))) \<noteq> None"
    using server_keys(1) [of g] key(2) by (simp add: c')
  ultimately show "deployed L gs tpl c'" unfolding deployed_def by blast
  have replicas: "depReadyReplicas d = (case fmlookup (clDeployments c) (object_key (gsMeta gs)) of
      None \<Rightarrow> 0 | Some z \<Rightarrow> depReadyReplicas z)"
    using d by (simp add: deployment_applied_def key)
  then show up: "pod_ready gs c' \<longleftrightarrow> pod_ready gs c" by (simp add: pod_ready_def c' key split: option.split)
  have ready_iff: "1 \<le> sint (depReadyReplicas d) \<longleftrightarrow> pod_ready gs c" using up by (simp add: pod_ready_def c' key)
  note phase = observed_phase_def [of g d]
  show "asks_again r \<longleftrightarrow> \<not> pod_ready gs c"
    using g active ready_iff by (simp add: r phase PhaseReady_def PhaseProvisioning_def Second_def)
  show "reported_ready gs tpl c'" if "pod_ready gs c"
  proof -
    have ready: "1 \<le> sint (depReadyReplicas d)" using that ready_iff by simp
    have "gsStatus f = gsStatus (setCondition t4 (set_phase PhaseReady (status_of (prepared t1 t2 t3 g) t d ys))
        ConditionReady ConditionTrue ''PodReady'' ''pod is Ready'')"
      using ready active g prepared_same [of t1 t2 t3 g] by (simp add: f final_status_def observed_phase_def)
    moreover have "map_option cStatus (find_cond ConditionReady (gsConditions (gsStatus
        (setCondition t4 (set_phase PhaseReady (status_of (prepared t1 t2 t3 g) t d ys))
          ConditionReady ConditionTrue ''PodReady'' ''pod is Ready'')))) = Some ConditionTrue"
      by (rule gs_cond.status_set) simp
    ultimately show ?thesis
      using g t ready final_status_reports [OF prepared_same f] active
      by (simp add: reported_ready_def c' key phase)
  qed
qed

section \<open>Every step keeps the server on its way\<close>

text \<open>The server can be reconciled to the end, now and later, but for its restore source: its template is there
  and its configuration is valid.\<close>

definition on_track :: "lib \<Rightarrow> game_server \<Rightarrow> game_template \<Rightarrow> cluster \<Rightarrow> bool" where
  "on_track L gs tpl c \<longleftrightarrow> (\<exists>g t. fmlookup (clGameServers c) (object_key (gsMeta gs)) = Some g \<and> same_object g gs
     \<and> deployable L c g t \<and> same_template t tpl)"

lemma runnable_iff:
  "runnable L c g t \<longleftrightarrow> fmlookup (clGameServers c) (object_key (gsMeta g)) = Some g \<and> deployable L c g t \<and> restore_ready c g"
  by (auto simp: runnable_def deployable_def)

lemma restore_ready_same: "same_object g gs \<Longrightarrow> restore_ready c g = restore_ready c gs"
  using same_object_names(1) [of g gs] by (simp add: restore_ready_def cong: option.case_cong)

lemma deployable_same_template:
  assumes "deployable L c g t" and "same_template t' t"
    and "fmlookup (clGameTemplates c') ('''', gsTemplateRefName (gsSpec g)) = Some t'"
  shows "deployable L c' g t'"
  using assms by (simp add: deployable_def same_template_builders [OF assms(2)])

lemma deployable_same_object:
  assumes "deployable L c g t" and "same_object g' g" and "clGameTemplates c' = clGameTemplates c"
  shows "deployable L c' g' t"
proof -
  have "resolveExposure g' = resolveExposure g" using same_object_exposure(1) [OF assms(2)] by blast
  with assms same_object_builders(4) [OF assms(2)] show ?thesis by (simp add: deployable_def storage_size_def)
qed

lemma own_run:
  assumes api: "api_server C view" and law: "owner_law L" and g: "fmlookup (clGameServers c) (object_key (gsMeta gs)) = Some g"
    "same_object g gs" and step: "turn_step L C view (ServerTurn (object_key (gsMeta gs))) r c c'"
  shows "runnable L c g t \<Longrightarrow> run_effect L c g t r c'" and "blocked_by L c g = Some f \<Longrightarrow> failure_effect L c g f r c'"
proof -
  have key: "object_key (gsMeta gs) = object_key (gsMeta g)" using g(2) by simp
  show "run_effect L c g t r c'" if "runnable L c g t"
    using step
  proof cases
    case (server run s)
    with that have "runnable L (view (world s)) g t" by simp
    from ensures_after [OF api_server.reconcile_effect [OF api law this]] show ?thesis
      unfolding server key .
  qed
  show "failure_effect L c g f r c'" if "blocked_by L c g = Some f"
    using step
  proof cases
    case (server run s)
    with that g(1) key have "fmlookup (clGameServers (view (world s))) (object_key (gsMeta g)) = Some g"
      "blocked_by L (view (world s)) g = Some f" by simp_all
    from ensures_after [OF api_server.blocked_effect [OF api this]] show ?thesis
      unfolding server key .
  qed
qed

lemma own_turn:
  assumes api: "api_server C view" and law: "owner_law L" and track: "on_track L gs tpl c" and active: "\<not> gsSuspend (gsSpec gs)"
    and step: "turn_step L C view (ServerTurn (object_key (gsMeta gs))) r c c'"
  shows "on_track L gs tpl c' \<and> (deployed L gs tpl c \<or> restore_ready c gs \<longrightarrow> deployed L gs tpl c')
    \<and> (pod_ready gs c' \<longleftrightarrow> pod_ready gs c) \<and> (asks_again r \<longleftrightarrow> \<not> (pod_ready gs c \<and> restore_ready c gs))
    \<and> (pod_ready gs c \<and> restore_ready c gs \<longrightarrow> reported_ready gs tpl c')"
proof -
  from track obtain g t where g: "fmlookup (clGameServers c) (object_key (gsMeta gs)) = Some g" "same_object g gs"
    and t: "deployable L c g t" "same_template t tpl"
    unfolding on_track_def by blast
  note run = own_run [OF api law g step]
  show ?thesis
  proof (cases "restore_ready c gs")
    case True
    then have "runnable L c g t" using g t by (simp add: runnable_iff restore_ready_same [OF g(2)])
    note eff = run(1) [OF this]
    obtain g' where g': "fmlookup (clGameServers c') (object_key (gsMeta g)) = Some g'" "same_object g' g" "runnable L c' g' t"
      by (rule run_effect_settles [OF law \<open>runnable L c g t\<close> eff])
    have "on_track L gs tpl c'"
      unfolding on_track_def by (intro exI [of _ g'] exI [of _ t]) (use g' g(2) t(2) in \<open>simp add: runnable_iff\<close>)
    with True run_effect_reports [OF law eff g(2) t(2) active] show ?thesis by simp
  next
    case False
    then have "blocked_by L c g = Some (ConditionRestoreSourceResolved, ''Unavailable'', Some PhaseDegraded, 30 * Second)"
      using t(1) restore_ready_same [OF g(2)] by (auto simp: blocked_by_def deployable_def)
    from run(2) [OF this] obtain m h where h: "same_object h g" and again: "asks_again r"
      and c': "c' = c\<lparr>clServiceAccounts := m, clGameServers := fmupd (object_key (gsMeta g)) h (clGameServers c)\<rparr>"
      unfolding failure_effect_def failure_reported_def by (auto simp: Second_def)
    have "deployable L c' h t" by (rule deployable_same_object [OF t(1) h]) (simp add: c')
    then have "on_track L gs tpl c'"
      unfolding on_track_def by (intro exI [of _ h] exI [of _ t]) (use g(2) h t(2) in \<open>simp add: c'\<close>)
    with False again show ?thesis by (auto simp: c' deployed_def deployment_present_def pod_ready_def)
  qed
qed

lemma loop_step_cases:
  assumes "loop_step L C view lab (c, q) (c', q')"
  obtains (own) r where "lab = Some t" and "turn_step L C view t r c c'" and "asks_again r \<Longrightarrow> t \<in> q'"
  | (foreign) j r where "lab = Some j" and "j \<noteq> t" and "turn_step L C view j r c c'" and "t \<in> q \<Longrightarrow> t \<in> q'"
  | (outside) "lab = None" and "outside_step c c'" and "t \<in> q \<Longrightarrow> t \<in> q'"
  using assms
proof cases
  case (serve j r)
  then show thesis using own foreign by (cases "j = t") blast+
qed (use outside in blast)

lemma foreign_turn_leaves_alone:
  assumes "api_server C view" and "owner_law L" and "permutes L" and "turn_step L C view t r c c'"
    and "t \<noteq> ServerTurn (object_key (gsMeta gs))"
  shows "left_alone gs c c'"
proof -
  from turn_ok [OF assms(1-4)] have "fmrel same_template (clGameTemplates c) (clGameTemplates c')"
    by (simp add: operator_ok_def)
  with turn_keeps_server [OF assms] show ?thesis
    by (simp add: left_alone_def fmrelD option.rel_refl)
qed

lemma foreign_step_keeps:
  assumes "left_alone gs c c'"
  shows "deployed L gs tpl c \<Longrightarrow> deployed L gs tpl c'" and "reported_ready gs tpl c \<Longrightarrow> reported_ready gs tpl c'"
    and "on_track L gs tpl c \<Longrightarrow> on_track L gs tpl c'"
proof -
  have "fmlookup (clPVCs c') (claim_key (object_key (gsMeta gs))) \<noteq> None"
    if "fmlookup (clPVCs c) (claim_key (object_key (gsMeta gs))) \<noteq> None"
    using assms that by (auto simp: left_alone_def Let_def option_rel_Some1)
  then show "deployed L gs tpl c \<Longrightarrow> deployed L gs tpl c'"
    using assms unfolding deployed_def deployment_present_def left_alone_def Let_def server_keys(2) by metis
  show "reported_ready gs tpl c \<Longrightarrow> reported_ready gs tpl c'"
    using assms by (simp add: reported_ready_def left_alone_def Let_def)
  assume "on_track L gs tpl c"
  then obtain g t where g: "fmlookup (clGameServers c) (object_key (gsMeta gs)) = Some g" "same_object g gs"
    and t: "deployable L c g t" "same_template t tpl"
    unfolding on_track_def by blast
  from t(1) g(2) have "fmlookup (clGameTemplates c) ('''', gsTemplateRefName (gsSpec gs)) = Some t"
    by (simp add: deployable_def)
  with assms obtain t' where t': "fmlookup (clGameTemplates c') ('''', gsTemplateRefName (gsSpec gs)) = Some t'"
    "same_template t' t" by (auto simp: left_alone_def Let_def option_rel_Some1)
  have "deployable L c' g t'"
    by (rule deployable_same_template [OF t(1) t'(2)]) (use t'(1) g(2) in simp)
  moreover have "fmlookup (clGameServers c') (object_key (gsMeta gs)) = Some g"
    using g(1) assms by (simp add: left_alone_def Let_def)
  ultimately show "on_track L gs tpl c'"
    unfolding on_track_def by (intro exI [of _ g] exI [of _ t']) (use g(2) t(2) t'(2) in simp)
qed

section \<open>A server becomes Ready\<close>

lemma stays_from:
  fixes P :: "nat \<Rightarrow> bool"
  assumes "P n" and "\<And>i. n \<le> i \<Longrightarrow> P i \<Longrightarrow> P (Suc i)" and "n \<le> i"
  shows "P i"
  using assms(3,1) by (induction rule: dec_induct) (use assms(2) in auto)

text \<open>An execution for one server, which the others leave alone.\<close>

definition server_execution :: "lib \<Rightarrow> 'w client \<Rightarrow> ('w \<Rightarrow> cluster) \<Rightarrow> game_server \<Rightarrow> game_template
    \<Rightarrow> (nat \<Rightarrow> turn option) \<Rightarrow> (nat \<Rightarrow> loop_state) \<Rightarrow> bool" where
  "server_execution L C view gs tpl served st \<longleftrightarrow> execution L C view served st
     \<and> (\<forall>i. served i = None \<longrightarrow> left_alone gs (fst (st i)) (fst (st (Suc i))))
     \<and> on_track L gs tpl (fst (st 0)) \<and> ServerTurn (object_key (gsMeta gs)) \<in> snd (st 0) \<and> \<not> gsSuspend (gsSpec gs)"

text \<open>The Backup that a server restores from becomes Ready some time, or the server has its claim by then.\<close>

definition source_comes_up :: "game_server \<Rightarrow> (nat \<Rightarrow> loop_state) \<Rightarrow> bool" where
  "source_comes_up gs st \<longleftrightarrow> (\<exists>n. \<forall>i \<ge> n. restore_ready (fst (st i)) gs)"

text \<open>Until a server is deployed and reported Ready, it waits in the queue.\<close>

definition settled_or_due :: "lib \<Rightarrow> game_server \<Rightarrow> game_template \<Rightarrow> loop_state \<Rightarrow> bool" where
  "settled_or_due L gs tpl x \<longleftrightarrow> ServerTurn (object_key (gsMeta gs)) \<in> snd x
     \<or> (deployed L gs tpl (fst x) \<and> reported_ready gs tpl (fst x))"

lemma server_execution_step:
  assumes api: "api_server C view" and law: "owner_law L" and perm: "permutes L"
    and run: "server_execution L C view gs tpl served st" and track: "on_track L gs tpl (fst (st i))"
  defines "own \<equiv> served i = Some (ServerTurn (object_key (gsMeta gs)))"
  shows "on_track L gs tpl (fst (st (Suc i)))"
    and "settled_or_due L gs tpl (st i) \<Longrightarrow> settled_or_due L gs tpl (st (Suc i))"
    and "deployed L gs tpl (fst (st i)) \<or> (own \<and> restore_ready (fst (st i)) gs) \<Longrightarrow> deployed L gs tpl (fst (st (Suc i)))"
    and "reported_ready gs tpl (fst (st i)) \<or> own \<Longrightarrow> pod_ready gs (fst (st i)) \<Longrightarrow> restore_ready (fst (st i)) gs \<Longrightarrow>
      reported_ready gs tpl (fst (st (Suc i)))"
proof -
  obtain c q c' q' where st: "st i = (c, q)" "st (Suc i) = (c', q')" by (cases "st i", cases "st (Suc i)")
  have active: "\<not> gsSuspend (gsSpec gs)" and step: "loop_step L C view (served i) (c, q) (c', q')"
    and alone: "served i = None \<Longrightarrow> left_alone gs c c'"
    using run st unfolding server_execution_def execution_def by (metis fst_conv)+
  note track = track [unfolded st fst_conv]
  have "on_track L gs tpl c' \<and> (settled_or_due L gs tpl (c, q) \<longrightarrow> settled_or_due L gs tpl (c', q'))
    \<and> (deployed L gs tpl c \<or> (own \<and> restore_ready c gs) \<longrightarrow> deployed L gs tpl c')
    \<and> (reported_ready gs tpl c \<or> own \<longrightarrow> pod_ready gs c \<longrightarrow> restore_ready c gs \<longrightarrow> reported_ready gs tpl c')"
    using step
  proof (cases rule: loop_step_cases [where t = "ServerTurn (object_key (gsMeta gs))"])
    case (own r)
    with own_turn [OF api law track active this(2)] show ?thesis
      by (cases "asks_again r") (auto simp: settled_or_due_def)
  next
    case (foreign j r)
    with foreign_step_keeps [OF foreign_turn_leaves_alone [OF api law perm foreign(3,2)]] track show ?thesis
      by (auto simp: settled_or_due_def own_def)
  next
    case outside
    with foreign_step_keeps [OF alone] track show ?thesis by (auto simp: settled_or_due_def own_def)
  qed
  then show "on_track L gs tpl (fst (st (Suc i)))"
    and "settled_or_due L gs tpl (st i) \<Longrightarrow> settled_or_due L gs tpl (st (Suc i))"
    and "deployed L gs tpl (fst (st i)) \<or> (own \<and> restore_ready (fst (st i)) gs) \<Longrightarrow> deployed L gs tpl (fst (st (Suc i)))"
    and "reported_ready gs tpl (fst (st i)) \<or> own \<Longrightarrow> pod_ready gs (fst (st i)) \<Longrightarrow> restore_ready (fst (st i)) gs \<Longrightarrow>
      reported_ready gs tpl (fst (st (Suc i)))"
    unfolding st fst_conv by blast+
qed

lemma server_stays_on_track:
  assumes "api_server C view" and "owner_law L" and "permutes L" and "server_execution L C view gs tpl served st"
  shows "on_track L gs tpl (fst (st i))"
  by (induction i) (use assms(4) server_execution_step(1) [OF assms] in \<open>auto simp: server_execution_def\<close>)

lemma ready_in_the_end:
  assumes "api_server C view" and "owner_law L" and "permutes L"
    and "server_execution L C view gs tpl served st" and "fair_queue served st"
    and "source_comes_up gs st" and "pods_come_up L gs tpl st"
  shows "\<exists>n. \<forall>i \<ge> n. deployed L gs tpl (fst (st i)) \<and> reported_ready gs tpl (fst (st i))"
proof -
  let ?k = "object_key (gsMeta gs)"
  note step = server_execution_step [OF assms(1-4)]
  have start: "on_track L gs tpl (fst (st 0))" "settled_or_due L gs tpl (st 0)"
    using assms(4) by (simp_all add: server_execution_def settled_or_due_def)
  note track = server_stays_on_track [OF assms(1-4)]
  have due: "settled_or_due L gs tpl (st i)" for i by (induction i) (use start step(2) [OF track] in auto)
  have progress: "\<exists>j \<ge> i. served j = Some (ServerTurn ?k)"
    if "\<not> (deployed L gs tpl (fst (st i)) \<and> reported_ready gs tpl (fst (st i)))" for i
    using assms(5) due [of i] that unfolding fair_queue_def settled_or_due_def by blast
  from assms(6) obtain a where source: "restore_ready (fst (st i)) gs" if "a \<le> i" for i
    unfolding source_comes_up_def by blast
  obtain b where "deployed L gs tpl (fst (st b))"
    using progress [of a] step(3) [OF track] source by blast
  then have dep: "deployed L gs tpl (fst (st i))" if "b \<le> i" for i
    by (rule stays_from [where P = "\<lambda>i. deployed L gs tpl (fst (st i))", OF _ _ that]) (use step(3) [OF track] in blast)
  then obtain d where up: "pod_ready gs (fst (st i))" if "d \<le> i" for i
    using assms(7) unfolding pods_come_up_def by blast
  let ?n = "max a (max b d)"
  have next_report: "reported_ready gs tpl (fst (st (Suc i)))"
    if "?n \<le> i" "reported_ready gs tpl (fst (st i)) \<or> served i = Some (ServerTurn ?k)" for i
    using step(4) [OF track, of i] that source [of i] up [of i] by simp
  obtain m where m: "?n \<le> m" "reported_ready gs tpl (fst (st m))"
    using progress [of ?n] next_report by (metis le_SucI order_refl)
  have "reported_ready gs tpl (fst (st i))" if "m \<le> i" for i
    by (rule stays_from [where P = "\<lambda>i. reported_ready gs tpl (fst (st i))", OF m(2) _ that])
      (use next_report m(1) in auto)
  with dep m(1) have "\<forall>i \<ge> m. deployed L gs tpl (fst (st i)) \<and> reported_ready gs tpl (fst (st i))" by simp
  then show ?thesis by blast
qed

text \<open>C4. A GameServer becomes Ready, and stays so. Take any fair execution of the controller's work queue in which the
  server is waiting at first, is not suspended, has a template and a valid configuration, and is left alone by the
  others (as are its template and its Deployment). If the Backup it restores from, when there is one, is Ready from
  some time on, and a Deployment that stays as it is gets a ready pod some time, then from some time on the Deployment is
  as the template has it and the server is reported Ready, with the condition Ready True and its
  generations observed. This holds whatever the other reconcilers and the other servers do in between, and
  without any watch: until the server is Ready, every reconcile asks for the next.\<close>

theorem server_becomes_ready:
  assumes "api_server C view" and "owner_law L" and "newest_first (SortNewestFirst L)"
    and "server_execution L C view gs tpl served st" and "fair_queue served st"
    and "source_comes_up gs st" and "pods_come_up L gs tpl st"
  shows "\<exists>n. \<forall>i \<ge> n. deployed L gs tpl (fst (st i)) \<and> reported_ready gs tpl (fst (st i))"
  by (rule ready_in_the_end [OF assms(1,2) newest_permutes [OF assms(3)] assms(4-7)])

text \<open>The witness: the demo server is deployed, its pod comes up, and the next reconcile reports it.\<close>

definition pods_started :: "cluster \<Rightarrow> cluster" where
  "pods_started c = c\<lparr>clDeployments := fmmap (\<lambda>d. d\<lparr>depReadyReplicas := 1\<rparr>) (clDeployments c)\<rparr>"

abbreviation demo_turn :: "cluster \<Rightarrow> cluster" where
  "demo_turn c \<equiv> cluster_after store_view (GameServer_Reconcile demo_lib store_client (''games'', ''midgard'')) (in_store c)"

definition demo_served :: "nat \<Rightarrow> turn option" where
  "demo_served i = (if i = 0 \<or> i = 2 then Some (ServerTurn (''games'', ''midgard'')) else None)"

definition demo_states :: "nat \<Rightarrow> loop_state" where
  "demo_states i =
     (if i = 0 then (demo_cluster, {ServerTurn (''games'', ''midgard'')})
      else if i = 1 then (demo_turn demo_cluster, {ServerTurn (''games'', ''midgard'')})
      else if i = 2 then (pods_started (demo_turn demo_cluster), {ServerTurn (''games'', ''midgard'')})
      else (demo_turn (pods_started (demo_turn demo_cluster)), {}))"

lemma outside_step_refl [simp]: "outside_step c c"
  using network [where c = c and m = "clServices c" and m' = "clServiceAccounts c"] by simp

lemma left_alone_refl [simp]: "left_alone gs c c"
  by (simp add: left_alone_def Let_def option.rel_refl)

lemma pods_started_step: "outside_step c (pods_started c)" "left_alone gs c (pods_started c)"
proof -
  show "outside_step c (pods_started c)"
    unfolding pods_started_def by (rule outside_step.pods) auto
  show "left_alone gs c (pods_started c)"
    by (auto simp: left_alone_def Let_def pods_started_def option.rel_refl)
qed

lemma pods_started_view: "store_view (world (in_store (pods_started (store_view w)))) = pods_started (store_view w)"
proof -
  have "keyed_view depMeta (fmmap (\<lambda>d. d\<lparr>depReadyReplicas := 1\<rparr>) (keyed_view depMeta m)) =
      fmmap (\<lambda>d. d\<lparr>depReadyReplicas := 1\<rparr>) (keyed_view depMeta m)" for m
    by (rule fmap_ext) (auto simp: keyed_view_lookup split: option.split)
  then show ?thesis
    by (intro cluster.equality)
      (simp_all add: in_store_def pods_started_def keyed_cluster_def store_view_def)
qed

lemma demo_key: "object_key (gsMeta demo_server) = (''games'', ''midgard'')"
  by (simp add: object_key_def demo_defs)

lemma demo_turn_step:
  assumes "store_view (world (in_store c)) = c"
  shows "\<exists>r. turn_step demo_lib store_client store_view (ServerTurn (''games'', ''midgard'')) r c (demo_turn c)"
  using turn_step.server [OF refl, of demo_lib store_client store_view "(''games'', ''midgard'')" "in_store c"]
  unfolding assms by blast

lemma demo_on_track: "on_track demo_lib demo_server demo_template demo_cluster"
  unfolding on_track_def
  by (intro exI [of _ demo_server] exI [of _ demo_template]) (use demo_runnable in \<open>simp add: runnable_iff\<close>)

lemma demo_restore_ready: "restore_ready c demo_server"
  by (simp add: restore_ready_def demo_defs)

lemma demo_views:
  "store_view (world (in_store demo_cluster)) = demo_cluster"
  "store_view (world (in_store (pods_started (demo_turn demo_cluster)))) = pods_started (demo_turn demo_cluster)"
  using demo_start_view pods_started_view unfolding cluster_after_def by (simp_all add: in_store_def demo_start_def)

lemma demo_own_turn:
  assumes "store_view (world (in_store c)) = c" and "on_track demo_lib demo_server demo_template c"
  obtains r where "turn_step demo_lib store_client store_view (ServerTurn (''games'', ''midgard'')) r c (demo_turn c)"
    and "on_track demo_lib demo_server demo_template (demo_turn c)" and "deployed demo_lib demo_server demo_template (demo_turn c)"
    and "pod_ready demo_server (demo_turn c) \<longleftrightarrow> pod_ready demo_server c" and "asks_again r \<longleftrightarrow> \<not> pod_ready demo_server c"
proof -
  obtain r where r: "turn_step demo_lib store_client store_view (ServerTurn (''games'', ''midgard'')) r c (demo_turn c)"
    using demo_turn_step [OF assms(1)] by blast
  have "\<not> gsSuspend (gsSpec demo_server)" by (simp add: demo_defs)
  from own_turn [OF store.api_server_axioms demo_owner_law assms(2) this, unfolded demo_key, OF r]
  show thesis by (intro that [OF r]) (simp_all add: demo_restore_ready)
qed

lemma started_pod_ready:
  assumes "deployed L gs tpl c"
  shows "pod_ready gs (pods_started c)"
  using assms by (auto simp: deployed_def deployment_present_def server_keys pod_ready_def pods_started_def)

lemma demo_execution:
  "server_execution demo_lib store_client store_view demo_server demo_template demo_served demo_states"
  "fair_queue demo_served demo_states" "source_comes_up demo_server demo_states"
  "pods_come_up demo_lib demo_server demo_template demo_states"
proof -
  let ?c1 = "demo_turn demo_cluster" and ?c2 = "pods_started (demo_turn demo_cluster)"
  obtain r1 where r1: "turn_step demo_lib store_client store_view (ServerTurn (''games'', ''midgard'')) r1 demo_cluster ?c1"
    "on_track demo_lib demo_server demo_template ?c1" "deployed demo_lib demo_server demo_template ?c1"
    by (rule demo_own_turn [OF demo_views(1) demo_on_track])
  have track2: "on_track demo_lib demo_server demo_template ?c2"
    by (rule foreign_step_keeps(3) [OF pods_started_step(2) r1(2)])
  obtain r2 where r2: "turn_step demo_lib store_client store_view (ServerTurn (''games'', ''midgard'')) r2 ?c2 (demo_turn ?c2)"
    "pod_ready demo_server (demo_turn ?c2) \<longleftrightarrow> pod_ready demo_server ?c2" "asks_again r2 \<longleftrightarrow> \<not> pod_ready demo_server ?c2"
    by (rule demo_own_turn [OF demo_views(2) track2])
  have up: "pod_ready demo_server ?c2" by (rule started_pod_ready [OF r1(3)])
  have "loop_step demo_lib store_client store_view (demo_served i) (demo_states i) (demo_states (Suc i))" for i
  proof -
    consider "i = 0" | "i = 1" | "i = 2" | "2 < i" by linarith
    then show ?thesis
      by cases (auto simp: demo_served_def demo_states_def r2(3) up
        intro!: loop_step.serve [OF _ r1(1)] loop_step.serve [OF _ r2(1)] loop_step.outside pods_started_step(1))
  qed
  moreover have "left_alone demo_server (fst (demo_states i)) (fst (demo_states (Suc i)))" if "demo_served i = None" for i
    using that by (auto simp: demo_served_def demo_states_def pods_started_step(2) split: if_splits)
  ultimately show "server_execution demo_lib store_client store_view demo_server demo_template demo_served demo_states"
    unfolding server_execution_def execution_def
    by (simp add: demo_states_def demo_on_track demo_key)
  show "fair_queue demo_served demo_states"
    unfolding fair_queue_def demo_states_def demo_served_def by (auto split: if_splits intro: exI [of _ 2])
  show "source_comes_up demo_server demo_states" by (simp add: source_comes_up_def demo_restore_ready)
  have "pod_ready demo_server (fst (demo_states i))" if "3 \<le> i" for i
    using that up r2(2) by (simp add: demo_states_def)
  then show "pods_come_up demo_lib demo_server demo_template demo_states" unfolding pods_come_up_def by blast
qed

theorem server_becomes_ready_witness:
  "\<exists>n. \<forall>i \<ge> n. reported_ready demo_server demo_template (fst (demo_states i))"
  using server_becomes_ready [OF store.api_server_axioms demo_owner_law demo_newest_first demo_execution] by blast

end
