(* ===== verification/RestoreLiveness.thy ===== *)
theory RestoreLiveness
  imports ServerLiveness
begin

text \<open>
  Two reconcilers, the storage and the scheduler together: in a fair execution a Backup that the user made
  becomes Ready, and a server that restores from it is deployed on the backed-up world and reported Ready.
\<close>

section \<open>A Backup in the loop\<close>

text \<open>The server that is backed up, and its claim.\<close>

definition source_key :: "backup \<Rightarrow> key" where
  "source_key b = (mNamespace (bMeta b), bGameServerRefName (bSpec b))"

text \<open>A Backup as a run left it or the user made it, with its server, and any snapshot of its name taken of that
  server's claim.\<close>

definition backup_known :: "backup \<Rightarrow> cluster \<Rightarrow> bool" where
  "backup_known b c \<longleftrightarrow>
     (\<exists>b'. fmlookup (clBackups c) (object_key (bMeta b)) = Some b' \<and> same_backup_object b' b
        \<and> bVolumeSnapshotName (bStatus b') \<in> {'''', mName (bMeta b)})
     \<and> fmlookup (clGameServers c) (source_key b) \<noteq> None
     \<and> pred_option (\<lambda>vs. vssPVCName (vsSpec vs) = Some (snd (claim_key (source_key b))))
         (fmlookup (clVolumeSnapshots c) (snapshot_key b))"

definition snapshot_taken :: "backup \<Rightarrow> cluster \<Rightarrow> bool" where
  "snapshot_taken b c \<longleftrightarrow> fmlookup (clVolumeSnapshots c) (snapshot_key b) \<noteq> None"

definition snapshot_in :: "string \<Rightarrow> backup \<Rightarrow> cluster \<Rightarrow> bool" where
  "snapshot_in ph b c \<longleftrightarrow> (case fmlookup (clVolumeSnapshots c) (snapshot_key b) of
     None \<Rightarrow> False | Some vs \<Rightarrow> mirrored_phase vs = ph)"

definition backup_done :: "backup \<Rightarrow> cluster \<Rightarrow> bool" where
  "backup_done b c \<longleftrightarrow> snapshot_taken b c \<and> (\<exists>b'. fmlookup (clBackups c) (object_key (bMeta b)) = Some b'
     \<and> same_backup_object b' b \<and> bPhase (bStatus b') = BackupPhaseReady \<and> bVolumeSnapshotName (bStatus b') = mName (bMeta b))"

text \<open>A step leaves the Backup, its server and its snapshot as they are; the status of the snapshot may change.\<close>

definition backup_left_alone :: "backup \<Rightarrow> cluster \<Rightarrow> cluster \<Rightarrow> bool" where
  "backup_left_alone b c c' \<longleftrightarrow>
     fmlookup (clBackups c') (object_key (bMeta b)) = fmlookup (clBackups c) (object_key (bMeta b))
     \<and> (fmlookup (clGameServers c) (source_key b) \<noteq> None \<longrightarrow> fmlookup (clGameServers c') (source_key b) \<noteq> None)
     \<and> rel_option (\<lambda>v v'. vsSpec v' = vsSpec v) (fmlookup (clVolumeSnapshots c) (snapshot_key b))
         (fmlookup (clVolumeSnapshots c') (snapshot_key b))"

lemma snapshot_key_eq: "snapshot_key b = object_key (bMeta b)"
  by (simp add: snapshot_key_def VolumeSnapshotName_def object_key_def)

lemma left_alone_backup:
  assumes "backup_left_alone b c c'"
  shows "backup_known b c \<Longrightarrow> backup_known b c'" and "snapshot_taken b c \<Longrightarrow> snapshot_taken b c'"
    and "backup_done b c \<Longrightarrow> backup_done b c'"
  using assms
  by (auto simp: backup_left_alone_def backup_known_def snapshot_taken_def backup_done_def pred_option_def
      option_rel_Some1 elim!: option.rel_cases)

lemma foreign_turn_leaves_backup:
  assumes "api_server C view" and "owner_law L" and "permutes L" and step: "turn_step L C view t r c c'"
    and other: "t \<noteq> BackupTurn (object_key (bMeta b))" and known: "backup_known b c"
    and manual: "fmlookup (mLabels (bMeta b)) labelSchedule = None"
  shows "backup_left_alone b c c'"
proof -
  note scope = turn_in_scope [OF assms(1-4)]
  from known obtain b' where b': "fmlookup (clBackups c) (object_key (bMeta b)) = Some b'" "same_backup_object b' b"
    unfolding backup_known_def by blast
  then have no_child: "\<not> child_backup k b'" for k using manual by (simp add: child_backup_def)
  have "fmlookup (clBackups c') (object_key (bMeta b)) = fmlookup (clBackups c) (object_key (bMeta b))"
  proof (cases t)
    case (ScheduleTurn k)
    with scope obtain m where "clBackups c' = m" "children_only k (clBackups c) m" by auto
    then show ?thesis using only_atD no_child b'(1) unfolding children_only_def by fastforce
  qed (use scope other in \<open>auto simp: only_atD\<close>)
  moreover have "fmlookup (clVolumeSnapshots c') (snapshot_key b) = fmlookup (clVolumeSnapshots c) (snapshot_key b)"
    unfolding snapshot_key_eq by (cases t) (use scope other in \<open>auto simp: only_atD\<close>)
  moreover have "fmlookup (clGameServers c') (source_key b) \<noteq> None" if "fmlookup (clGameServers c) (source_key b) \<noteq> None"
  proof -
    from turn_ok [OF assms(1-4)] have "fmrel same_object (clGameServers c) (clGameServers c')" by (simp add: operator_ok_def)
    from fmrelD [OF this, of "source_key b"] that show ?thesis by (auto simp: option_rel_Some1)
  qed
  ultimately show ?thesis by (simp add: backup_left_alone_def option.rel_refl)
qed


text \<open>What a turn of a known Backup does: its phase follows the snapshot, which it takes when there is none.\<close>

lemma own_backup_effect:
  assumes api: "api_server C view" and law: "owner_law L" and known: "backup_known b c"
    and step: "turn_step L C view (BackupTurn (object_key (bMeta b))) r c c'"
  obtains b' b2 where "same_backup_object b' b" and "same_backup_object b2 b"
    and "clGameServers c' = clGameServers c" and "fmlookup (clBackups c') (object_key (bMeta b)) = Some b2"
    and "backup_reported c b' b2" and "bVolumeSnapshotName (bStatus b2) \<in> {'''', mName (bMeta b)}"
    and "backup_phase c b' = (case fmlookup (clVolumeSnapshots c) (snapshot_key b) of
      None \<Rightarrow> BackupPhaseInProgress | Some vs \<Rightarrow> mirrored_phase vs)"
    and "r = (Result (backup_delay c b'), None)"
    and "if fmlookup (clVolumeSnapshots c) (snapshot_key b) \<noteq> None then clVolumeSnapshots c' = clVolumeSnapshots c
      else \<exists>vs. vssPVCName (vsSpec vs) = Some (snd (claim_key (source_key b))) \<and> vsStatus vs = None
        \<and> clVolumeSnapshots c' = fmupd (snapshot_key b) vs (clVolumeSnapshots c)"
proof -
  from known obtain b' g where b': "fmlookup (clBackups c) (object_key (bMeta b)) = Some b'" "same_backup_object b' b"
    and name: "bVolumeSnapshotName (bStatus b') \<in> {'''', mName (bMeta b)}"
    and g: "fmlookup (clGameServers c) (source_key b) = Some g"
    unfolding backup_known_def by blast
  have key: "object_key (bMeta b) = object_key (bMeta b')" using b'(2) by simp
  have sk: "snapshot_key b' = snapshot_key b" "source_key b' = source_key b"
    using b'(2) by (simp_all add: snapshot_key_eq source_key_def)
  from step obtain w where eff: "backup_run_effect c b' r c'" and w: "c = view w"
  proof cases
    case (backup run s)
    from backup b'(1) key have "fmlookup (clBackups (view (world s))) (object_key (bMeta b')) = Some b'" by simp
    from ensures_after [OF api_server.backup_effect [OF api law this]] show thesis
      using that [of "world s"] unfolding backup key by blast
  qed
  have keyed: "object_key (vsMeta vs) = k" if "fmlookup (clVolumeSnapshots c) k = Some vs" for k vs
    using api_server.snapshots_keyed [OF api] that unfolding w by blast
  have "object_key (gsMeta g) = source_key b"
    using api g unfolding w api_server_def by (blast dest: api_kind.keyed)
  then have claim: "PVCName g = snd (claim_key (source_key b))" using server_keys(1) [of g] by (metis snd_conv)
  note life = backup_effect_life [OF eff keyed]
  from life(3) obtain b2 where rep: "backup_reported c b' b2"
    and c': "c' = c\<lparr>clVolumeSnapshots := clVolumeSnapshots c', clBackups := fmupd (object_key (bMeta b')) b2 (clBackups c)\<rparr>"
    by blast
  show thesis
  proof (rule that [OF b'(2) _ _ _ rep _ _ life(1)])
    show "same_backup_object b2 b" "bVolumeSnapshotName (bStatus b2) \<in> {'''', mName (bMeta b)}"
      using rep b'(2) name by (auto simp: backup_reported_def VolumeSnapshotName_def)
    show "clGameServers c' = clGameServers c" "fmlookup (clBackups c') (object_key (bMeta b)) = Some b2"
      by (subst c', simp add: key)+
  qed (use g sk claim life(2) in \<open>auto simp: backup_phase_def snapshot_present_def source_key_def\<close>)
qed

lemma own_backup_turn:
  assumes api: "api_server C view" and law: "owner_law L" and known: "backup_known b c"
    and step: "turn_step L C view (BackupTurn (object_key (bMeta b))) r c c'"
  shows "backup_known b c'" and "snapshot_taken b c'"
    and "snapshot_in BackupPhaseReady b c \<Longrightarrow> backup_done b c' \<and> \<not> asks_again r"
    and "asks_again r \<or> snapshot_in BackupPhaseReady b c \<or> snapshot_in BackupPhaseFailed b c"
    and "if snapshot_taken b c then clVolumeSnapshots c' = clVolumeSnapshots c else snapshot_in BackupPhaseInProgress b c'"
proof -
  from own_backup_effect [OF assms] obtain b' b2 where b': "same_backup_object b' b"
    and b2: "same_backup_object b2 b" "bVolumeSnapshotName (bStatus b2) \<in> {'''', mName (bMeta b)}"
    and parts: "clGameServers c' = clGameServers c" "fmlookup (clBackups c') (object_key (bMeta b)) = Some b2"
    and rep: "backup_reported c b' b2"
    and phase: "backup_phase c b' = (case fmlookup (clVolumeSnapshots c) (snapshot_key b) of
      None \<Rightarrow> BackupPhaseInProgress | Some vs \<Rightarrow> mirrored_phase vs)"
    and r: "r = (Result (backup_delay c b'), None)"
    and snaps: "if fmlookup (clVolumeSnapshots c) (snapshot_key b) \<noteq> None then clVolumeSnapshots c' = clVolumeSnapshots c
      else \<exists>vs. vssPVCName (vsSpec vs) = Some (snd (claim_key (source_key b))) \<and> vsStatus vs = None
        \<and> clVolumeSnapshots c' = fmupd (snapshot_key b) vs (clVolumeSnapshots c)"
    by blast
  show "if snapshot_taken b c then clVolumeSnapshots c' = clVolumeSnapshots c else snapshot_in BackupPhaseInProgress b c'"
    using snaps by (auto simp: snapshot_taken_def snapshot_in_def mirrored_phase_def split: if_splits)
  show "snapshot_taken b c'" using snaps by (auto simp: snapshot_taken_def split: if_splits)
  show "backup_known b c'"
    using known b2 snaps by (auto simp: backup_known_def parts pred_option_def split: if_splits)
  show "backup_done b c' \<and> \<not> asks_again r" if "snapshot_in BackupPhaseReady b c"
  proof -
    from that have ready: "backup_phase c b' = BackupPhaseReady" "fmlookup (clVolumeSnapshots c) (snapshot_key b) \<noteq> None"
      by (auto simp: snapshot_in_def phase split: option.splits)
    note names = BackupPhaseReady_def BackupPhasePending_def BackupPhaseInProgress_def
    have "bVolumeSnapshotName (bStatus b2) = mName (bMeta b)" "bPhase (bStatus b2) = BackupPhaseReady"
      using rep ready(1) b' by (simp_all add: backup_reported_def VolumeSnapshotName_def names)
    moreover have "\<not> asks_again r" using ready(1) by (simp add: r backup_delay_def names)
    ultimately show ?thesis
      using b2 parts(2) \<open>snapshot_taken b c'\<close> by (auto simp: backup_done_def)
  qed
  show "asks_again r \<or> snapshot_in BackupPhaseReady b c \<or> snapshot_in BackupPhaseFailed b c"
    using phase b' by (auto simp: r snapshot_in_def backup_delay_def snapshot_key_eq mirrored_phase_def Second_def split: option.splits)
qed


section \<open>A Backup becomes Ready\<close>

definition backup_execution :: "lib \<Rightarrow> 'w client \<Rightarrow> ('w \<Rightarrow> cluster) \<Rightarrow> backup \<Rightarrow> (nat \<Rightarrow> turn option) \<Rightarrow> (nat \<Rightarrow> loop_state) \<Rightarrow> bool" where
  "backup_execution L C view b served st \<longleftrightarrow> execution L C view served st
     \<and> (\<forall>i. served i = None \<longrightarrow> backup_left_alone b (fst (st i)) (fst (st (Suc i))))
     \<and> backup_known b (fst (st 0)) \<and> BackupTurn (object_key (bMeta b)) \<in> snd (st 0)
     \<and> fmlookup (mLabels (bMeta b)) labelSchedule = None"

text \<open>The storage: a snapshot that stays becomes ready some time, and never fails.\<close>

definition storage_delivers :: "backup \<Rightarrow> (nat \<Rightarrow> loop_state) \<Rightarrow> bool" where
  "storage_delivers b st \<longleftrightarrow> (\<forall>i. \<not> snapshot_in BackupPhaseFailed b (fst (st i)))
     \<and> ((\<exists>n. \<forall>i \<ge> n. snapshot_taken b (fst (st i))) \<longrightarrow> (\<exists>n. \<forall>i \<ge> n. snapshot_in BackupPhaseReady b (fst (st i))))"

definition backup_done_or_due :: "backup \<Rightarrow> loop_state \<Rightarrow> bool" where
  "backup_done_or_due b x \<longleftrightarrow> BackupTurn (object_key (bMeta b)) \<in> snd x \<or> backup_done b (fst x)"

lemma backup_execution_step:
  assumes api: "api_server C view" and law: "owner_law L" and perm: "permutes L"
    and run: "backup_execution L C view b served st" and known: "backup_known b (fst (st i))"
    and sound: "\<not> snapshot_in BackupPhaseFailed b (fst (st i))"
  defines "own \<equiv> served i = Some (BackupTurn (object_key (bMeta b)))"
  shows "backup_known b (fst (st (Suc i)))"
    and "backup_done_or_due b (st i) \<Longrightarrow> backup_done_or_due b (st (Suc i))"
    and "snapshot_taken b (fst (st i)) \<or> own \<Longrightarrow> snapshot_taken b (fst (st (Suc i)))"
    and "backup_done b (fst (st i)) \<or> own \<Longrightarrow> snapshot_in BackupPhaseReady b (fst (st i)) \<Longrightarrow>
      backup_done b (fst (st (Suc i)))"
proof -
  obtain c q c' q' where st: "st i = (c, q)" "st (Suc i) = (c', q')" by (cases "st i", cases "st (Suc i)")
  have step: "loop_step L C view (served i) (c, q) (c', q')" and manual: "fmlookup (mLabels (bMeta b)) labelSchedule = None"
    and alone: "served i = None \<Longrightarrow> backup_left_alone b c c'"
    using run st unfolding backup_execution_def execution_def by (metis fst_conv)+
  note known = known [unfolded st fst_conv] and sound = sound [unfolded st fst_conv]
  have "backup_known b c' \<and> (backup_done_or_due b (c, q) \<longrightarrow> backup_done_or_due b (c', q'))
    \<and> (snapshot_taken b c \<or> own \<longrightarrow> snapshot_taken b c')
    \<and> (backup_done b c \<or> own \<longrightarrow> snapshot_in BackupPhaseReady b c \<longrightarrow> backup_done b c')"
    using step
  proof (cases rule: loop_step_cases [where t = "BackupTurn (object_key (bMeta b))"])
    case (own r)
    with own_backup_turn [OF api law known this(2)] sound show ?thesis by (auto simp: backup_done_or_due_def)
  next
    case (foreign j r)
    with left_alone_backup [OF foreign_turn_leaves_backup [OF api law perm foreign(3,2) known manual]] known show ?thesis
      by (auto simp: backup_done_or_due_def own_def)
  next
    case outside
    with left_alone_backup [OF alone] known show ?thesis by (auto simp: backup_done_or_due_def own_def)
  qed
  then show "backup_known b (fst (st (Suc i)))"
    and "backup_done_or_due b (st i) \<Longrightarrow> backup_done_or_due b (st (Suc i))"
    and "snapshot_taken b (fst (st i)) \<or> own \<Longrightarrow> snapshot_taken b (fst (st (Suc i)))"
    and "backup_done b (fst (st i)) \<or> own \<Longrightarrow> snapshot_in BackupPhaseReady b (fst (st i)) \<Longrightarrow>
      backup_done b (fst (st (Suc i)))"
    unfolding st fst_conv by blast+
qed

lemma backup_stays_known:
  assumes "api_server C view" and "owner_law L" and "permutes L" and "backup_execution L C view b served st"
    and "storage_delivers b st"
  shows "backup_known b (fst (st i))" and "backup_done_or_due b (st i)"
proof -
  have sound: "\<not> snapshot_in BackupPhaseFailed b (fst (st i))" for i using assms(5) by (simp add: storage_delivers_def)
  note step = backup_execution_step [OF assms(1-4) _ sound]
  show known: "backup_known b (fst (st i))" for i
    by (induction i) (use assms(4) step(1) in \<open>auto simp: backup_execution_def\<close>)
  show "backup_done_or_due b (st i)"
    by (induction i) (use assms(4) step(2) [OF known] in \<open>auto simp: backup_execution_def backup_done_or_due_def\<close>)
qed

lemma backup_becomes_ready:
  assumes "api_server C view" and "owner_law L" and "permutes L" and "backup_execution L C view b served st"
    and "storage_delivers b st" and "fair_queue served st"
  shows "\<exists>n. \<forall>i \<ge> n. backup_done b (fst (st i))"
proof -
  let ?t = "BackupTurn (object_key (bMeta b))"
  have sound: "\<not> snapshot_in BackupPhaseFailed b (fst (st i))" for i using assms(5) by (simp add: storage_delivers_def)
  note known = backup_stays_known [OF assms(1-5)]
  note step = backup_execution_step [OF assms(1-4) known(1) sound]
  have progress: "\<exists>j \<ge> i. served j = Some ?t" if "\<not> backup_done b (fst (st i))" for i
    using assms(6) known(2) [of i] that unfolding fair_queue_def backup_done_or_due_def by blast
  have "?t \<in> snd (st 0)" using assms(4) by (simp add: backup_execution_def)
  then obtain a where "served a = Some ?t" using assms(6) unfolding fair_queue_def by blast
  then have taken: "snapshot_taken b (fst (st i))" if "Suc a \<le> i" for i
    by (intro stays_from [where P = "\<lambda>i. snapshot_taken b (fst (st i))", OF _ _ that]) (use step(3) in blast)+
  then obtain d where ready: "snapshot_in BackupPhaseReady b (fst (st i))" if "d \<le> i" for i
    using assms(5) unfolding storage_delivers_def by blast
  have next_done: "backup_done b (fst (st (Suc i)))" if "d \<le> i" "backup_done b (fst (st i)) \<or> served i = Some ?t" for i
    using step(4) that(2) ready [OF that(1)] by blast
  obtain m where m: "d \<le> m" "backup_done b (fst (st m))"
    using progress [of d] next_done by (metis le_SucI order_refl)
  have "backup_done b (fst (st i))" if "m \<le> i" for i
    by (rule stays_from [where P = "\<lambda>i. backup_done b (fst (st i))", OF m(2) _ that]) (use next_done m(1) in auto)
  then show ?thesis by blast
qed


section \<open>A restore completes\<close>

text \<open>The claim of a server, if it is there, takes its data from the snapshot of the Backup.\<close>

definition restores_snapshot :: "game_server \<Rightarrow> backup \<Rightarrow> cluster \<Rightarrow> bool" where
  "restores_snapshot gs b c \<longleftrightarrow> pred_option (\<lambda>p. pvcDataSourceRef (pvcSpec p) =
       Some \<lparr>torAPIGroup = Some snapshotAPIGroup, torKind = ''VolumeSnapshot'', torName = mName (bMeta b)\<rparr>)
     (fmlookup (clPVCs c) (claim_key (object_key (gsMeta gs))))"

definition restores_from :: "game_server \<Rightarrow> backup \<Rightarrow> bool" where
  "restores_from gs b \<longleftrightarrow> gsRestoreFrom (gsSpec gs) = Some (mName (bMeta b)) \<and> mNamespace (gsMeta gs) = mNamespace (bMeta b)"

lemma own_turn_restores:
  assumes api: "api_server C view" and law: "owner_law L" and track: "on_track L gs tpl c" and known: "backup_known b c"
    and gs: "restores_from gs b" and restores: "restores_snapshot gs b c"
    and step: "turn_step L C view (ServerTurn (object_key (gsMeta gs))) r c c'"
  shows "restores_snapshot gs b c'"
proof -
  from track obtain g t where g: "fmlookup (clGameServers c) (object_key (gsMeta gs)) = Some g" "same_object g gs"
    and t: "deployable L c g t" "same_template t tpl"
    unfolding on_track_def by blast
  note run = own_run [OF api law g step]
  have key: "(mNamespace (gsMeta g), PVCName g) = claim_key (object_key (gsMeta gs))"
    using g(2) server_keys(1) [of g] by simp
  show ?thesis
  proof (cases "restore_ready c gs")
    case True
    then have ready: "restore_ready c g" and "runnable L c g t"
      using g t by (simp_all add: runnable_iff restore_ready_same [OF g(2)])
    note eff = run(1) [OF this(2)]
    show ?thesis
    proof (cases "fmlookup (clPVCs c) (claim_key (object_key (gsMeta gs)))")
      case None
      have bkey: "(mNamespace (gsMeta g), mName (bMeta b)) = object_key (bMeta b)"
        using gs g(2) by (simp add: restores_from_def object_key_def)
      have src: "gsRestoreFrom (gsSpec g) = Some (mName (bMeta b))" using gs g(2) by (simp add: restores_from_def)
      from ready None obtain b2 where b2: "fmlookup (clBackups c) (object_key (bMeta b)) = Some b2"
        "bVolumeSnapshotName (bStatus b2) \<noteq> ''''"
        unfolding restore_ready_def src option.case key bkey by auto
      with known have "bVolumeSnapshotName (bStatus b2) = mName (bMeta b)" by (auto simp: backup_known_def)
      from run_effect_restores(1) [OF eff src _ _ this] None b2 this show ?thesis
        unfolding key bkey restores_snapshot_def by (auto simp: key)
    next
      case (Some z)
      from eff obtain p d where p: "pvc_applied (Some z) d p" "fmlookup (clPVCs c') (claim_key (object_key (gsMeta gs))) = Some p"
        unfolding run_effect_def key Some by auto
      then show ?thesis using restores Some by (simp add: restores_snapshot_def pvc_applied_def)
    qed
  next
    case False
    then have "blocked_by L c g = Some (ConditionRestoreSourceResolved, ''Unavailable'', Some PhaseDegraded, 30 * Second)"
      using t(1) restore_ready_same [OF g(2)] by (auto simp: blocked_by_def deployable_def)
    from run(2) [OF this] have "clPVCs c' = clPVCs c" unfolding failure_effect_def by auto
    with restores show ?thesis by (simp add: restores_snapshot_def)
  qed
qed

text \<open>Both of them in one execution; the new server has no claim at first.\<close>

definition restore_execution :: "lib \<Rightarrow> 'w client \<Rightarrow> ('w \<Rightarrow> cluster) \<Rightarrow> backup \<Rightarrow> game_server \<Rightarrow> game_template
    \<Rightarrow> (nat \<Rightarrow> turn option) \<Rightarrow> (nat \<Rightarrow> loop_state) \<Rightarrow> bool" where
  "restore_execution L C view b gs tpl served st \<longleftrightarrow> backup_execution L C view b served st
     \<and> server_execution L C view gs tpl served st \<and> restores_from gs b \<and> mName (bMeta b) \<noteq> ''''
     \<and> fmlookup (clPVCs (fst (st 0))) (claim_key (object_key (gsMeta gs))) = None"

lemma restores_throughout:
  assumes "api_server C view" and "owner_law L" and "permutes L" and "restore_execution L C view b gs tpl served st"
    and "storage_delivers b st"
  shows "restores_snapshot gs b (fst (st i))"
proof -
  have bex: "backup_execution L C view b served st" and sex: "server_execution L C view gs tpl served st"
    and gs: "restores_from gs b" and start: "restores_snapshot gs b (fst (st 0))"
    using assms(4) by (simp_all add: restore_execution_def restores_snapshot_def)
  note track = server_stays_on_track [OF assms(1-3) sex] and known = backup_stays_known(1) [OF assms(1-3) bex assms(5)]
  have alone: "restores_snapshot gs b c'" if "left_alone gs c c'" "restores_snapshot gs b c" for c c'
    using that by (auto simp: left_alone_def Let_def restores_snapshot_def elim!: option.rel_cases)
  show ?thesis
  proof (induction i)
    case (Suc i)
    obtain c q c' q' where st: "st i = (c, q)" "st (Suc i) = (c', q')" by (cases "st i", cases "st (Suc i)")
    have step: "loop_step L C view (served i) (c, q) (c', q')" and out: "served i = None \<Longrightarrow> left_alone gs c c'"
      using sex st unfolding server_execution_def execution_def by (metis fst_conv)+
    have now: "on_track L gs tpl c" "backup_known b c" "restores_snapshot gs b c"
      using track [of i] known [of i] Suc st by simp_all
    from step have "restores_snapshot gs b c'"
    proof (cases rule: loop_step_cases [where t = "ServerTurn (object_key (gsMeta gs))"])
      case (own r)
      show ?thesis by (rule own_turn_restores [OF assms(1,2) now(1,2) gs now(3) own(2)])
    next
      case (foreign j r)
      show ?thesis by (rule alone [OF foreign_turn_leaves_alone [OF assms(1-3) foreign(3,2)] now(3)])
    next
      case outside
      show ?thesis by (rule alone [OF out [OF outside(1)] now(3)])
    qed
    then show ?case using st by simp
  qed (rule start)
qed


lemma done_restore_ready:
  assumes "backup_done b c" and "restores_from gs b" and "mName (bMeta b) \<noteq> ''''"
  shows "restore_ready c gs"
  using assms by (auto simp: restore_ready_def restores_from_def backup_done_def object_key_def)

lemma restored_world:
  assumes "deployed L gs tpl c" and "restores_snapshot gs b c" and "backup_known b c" and "snapshot_taken b c"
    and "restores_from gs b" and src: "object_key (gsMeta src) = source_key b"
  shows "restored_from gs src c"
proof -
  from assms(1,2) obtain p where p: "fmlookup (clPVCs c) (claim_key (object_key (gsMeta gs))) = Some p"
    "pvcDataSourceRef (pvcSpec p) =
       Some \<lparr>torAPIGroup = Some snapshotAPIGroup, torKind = ''VolumeSnapshot'', torName = mName (bMeta b)\<rparr>"
    by (auto simp: deployed_def restores_snapshot_def)
  from assms(3,4) obtain vs where vs: "fmlookup (clVolumeSnapshots c) (snapshot_key b) = Some vs"
    "vssPVCName (vsSpec vs) = Some (snd (claim_key (source_key b)))"
    by (auto simp: snapshot_taken_def backup_known_def)
  have "PVCName src = snd (claim_key (source_key b))" using server_keys(1) [of src] src by (metis snd_conv)
  moreover have "snapshot_key b = (mNamespace (gsMeta gs), mName (bMeta b))"
    using assms(5) by (simp add: snapshot_key_def VolumeSnapshotName_def restores_from_def)
  ultimately show ?thesis
    using p vs server_keys(1) [of gs] unfolding restored_from_def by force
qed

text \<open>C5. A restore completes. Take any fair execution in which a Backup that the user made and a server that
  restores from it wait in the work queues (in any order, with any other turns in between), which the others
  leave alone; the new server has no claim at first. If the storage makes the snapshot ready some time and a
  deployed server's pod comes up some time, then from some time on the Backup is Ready and names its snapshot, the claim of the new
  server takes its data from a snapshot of the claim of the server that was backed up, its Deployment is as the
  template has it, and it is reported Ready.\<close>

theorem restore_completes:
  assumes "api_server C view" and "owner_law L" and "newest_first (SortNewestFirst L)"
    and "restore_execution L C view b gs tpl served st" and "fair_queue served st"
    and "storage_delivers b st" and "pods_come_up L gs tpl st" and "object_key (gsMeta src) = source_key b"
  shows "\<exists>n. \<forall>i \<ge> n. backup_done b (fst (st i)) \<and> deployed L gs tpl (fst (st i))
    \<and> reported_ready gs tpl (fst (st i)) \<and> restored_from gs src (fst (st i))"
proof -
  note perm = newest_permutes [OF assms(3)]
  have bex: "backup_execution L C view b served st" and sex: "server_execution L C view gs tpl served st"
    and gs: "restores_from gs b" and name: "mName (bMeta b) \<noteq> ''''"
    using assms(4) by (simp_all add: restore_execution_def)
  from backup_becomes_ready [OF assms(1,2) perm bex assms(6,5)]
  obtain n where n: "backup_done b (fst (st i))" if "n \<le> i" for i by blast
  then have "source_comes_up gs st" unfolding source_comes_up_def using done_restore_ready gs name by blast
  from ready_in_the_end [OF assms(1,2) perm sex assms(5) this assms(7)]
  obtain m where m: "deployed L gs tpl (fst (st i)) \<and> reported_ready gs tpl (fst (st i))" if "m \<le> i" for i by blast
  have "restored_from gs src (fst (st i))" if "max m n \<le> i" for i
    by (rule restored_world [where L = L and tpl = tpl, OF _ restores_throughout [OF assms(1,2) perm assms(4,6)]
          backup_stays_known(1) [OF assms(1,2) perm bex assms(6)] _ gs assms(8)])
      (use m [of i] n [of i] that in \<open>simp_all add: backup_done_def\<close>)
  with m n show ?thesis by (intro exI [of _ "max m n"]) simp
qed


text \<open>The witness: a new Backup of the demo server and a server that restores from it.\<close>

definition fresh_backup :: backup where
  "fresh_backup = (demo_backup ''nightly-1'' 0 False)\<lparr>bStatus := zero_backup_status\<rparr>"

definition restore_cluster :: cluster where
  "restore_cluster = add_server asgard (demo_cluster\<lparr>clBackups := fmupd (''games'', ''nightly-1'') fresh_backup fmempty\<rparr>)"

abbreviation backup_turn :: "cluster \<Rightarrow> cluster" where
  "backup_turn c \<equiv> cluster_after store_view (Backup_Reconcile demo_lib store_client (''games'', ''nightly-1'')) (in_store c)"

abbreviation asgard_turn :: "cluster \<Rightarrow> cluster" where
  "asgard_turn c \<equiv> cluster_after store_view (GameServer_Reconcile demo_lib store_client (''games'', ''asgard'')) (in_store c)"

definition restore_clusters :: "nat \<Rightarrow> cluster" where
  "restore_clusters i =
     (let c1 = backup_turn restore_cluster; c2 = snapshot_progress (''games'', ''nightly-1'') ready_status c1;
          c3 = backup_turn c2; c4 = asgard_turn c3; c5 = pods_started c4; c6 = asgard_turn c5
      in [restore_cluster, c1, c2, c3, c4, c5, c6] ! min i 6)"

definition restore_served :: "nat \<Rightarrow> turn option" where
  "restore_served i =
     (if i = 0 \<or> i = 2 then Some (BackupTurn (''games'', ''nightly-1''))
      else if i = 3 \<or> i = 5 then Some (ServerTurn (''games'', ''asgard'')) else None)"

definition restore_queue :: "nat \<Rightarrow> turn set" where
  "restore_queue i = (if i \<le> 2 then {BackupTurn (''games'', ''nightly-1'')} else {})
     \<union> (if i \<le> 5 then {ServerTurn (''games'', ''asgard'')} else {})"

definition restore_states :: "nat \<Rightarrow> loop_state" where
  "restore_states i = (restore_clusters i, restore_queue i)"

lemma restore_clusters_steps:
  "restore_clusters 0 = restore_cluster" "restore_clusters 1 = backup_turn (restore_clusters 0)"
  "restore_clusters 2 = snapshot_progress (''games'', ''nightly-1'') ready_status (restore_clusters 1)"
  "restore_clusters 3 = backup_turn (restore_clusters 2)" "restore_clusters 4 = asgard_turn (restore_clusters 3)"
  "restore_clusters 5 = pods_started (restore_clusters 4)" "restore_clusters 6 = asgard_turn (restore_clusters 5)"
  "6 \<le> i \<Longrightarrow> restore_clusters i = restore_clusters 6"
  by (simp_all add: restore_clusters_def Let_def min_def numeral_eq_Suc)

lemma fresh_backup_facts [simp]:
  "object_key (bMeta fresh_backup) = (''games'', ''nightly-1'')" "source_key fresh_backup = (''games'', ''midgard'')"
  "snapshot_key fresh_backup = (''games'', ''nightly-1'')" "mName (bMeta fresh_backup) = ''nightly-1''"
  "fmlookup (mLabels (bMeta fresh_backup)) labelSchedule = None" "bVolumeSnapshotName (bStatus fresh_backup) = ''''"
  "restores_from asgard fresh_backup" "\<not> gsSuspend (gsSpec asgard)"
  by (simp_all add: fresh_backup_def snapshot_key_eq source_key_def restores_from_def asgard_def restoring_server_def
      demo_defs object_key_def)

lemma in_store_again: "store_view (world (in_store (store_view w))) = store_view w"
  by (simp add: in_store_view store_keyed)

lemma restore_views:
  "store_view (world (in_store (restore_clusters 0))) = restore_clusters 0"
  "store_view (world (in_store (restore_clusters 2))) = restore_clusters 2"
  "store_view (world (in_store (restore_clusters 3))) = restore_clusters 3"
  "store_view (world (in_store (restore_clusters 5))) = restore_clusters 5"
proof -
  show "store_view (world (in_store (restore_clusters 0))) = restore_clusters 0"
    by (simp add: restore_clusters_steps(1) restore_cluster_def add_server_def in_store_view keyed_cluster_def demo_cluster_def
      keyed_view_upd object_key_def demo_defs fresh_backup_def)
  show "store_view (world (in_store (restore_clusters 2))) = restore_clusters 2"
    "store_view (world (in_store (restore_clusters 3))) = restore_clusters 3"
    "store_view (world (in_store (restore_clusters 5))) = restore_clusters 5"
    unfolding restore_clusters_steps(2,3,4,5,6) cluster_after_def
    by (rule in_store_progress in_store_again pods_started_view)+
qed


lemma backup_turn_step:
  assumes "store_view (world (in_store c)) = c" and "backup_known fresh_backup c"
  obtains r where "turn_step demo_lib store_client store_view (BackupTurn (''games'', ''nightly-1'')) r c (backup_turn c)"
    and "backup_known fresh_backup (backup_turn c)" and "snapshot_taken fresh_backup (backup_turn c)"
    and "snapshot_in BackupPhaseReady fresh_backup c \<Longrightarrow> backup_done fresh_backup (backup_turn c) \<and> \<not> asks_again r"
    and "if snapshot_taken fresh_backup c then clVolumeSnapshots (backup_turn c) = clVolumeSnapshots c
      else asks_again r \<and> snapshot_in BackupPhaseInProgress fresh_backup (backup_turn c)"
proof -
  let ?r = "result (Backup_Reconcile demo_lib store_client (''games'', ''nightly-1'')) (in_store c)"
  have step: "turn_step demo_lib store_client store_view (BackupTurn (''games'', ''nightly-1'')) ?r c (backup_turn c)"
    using turn_step.backup [OF refl, of demo_lib store_client store_view "(''games'', ''nightly-1'')" "in_store c"]
    unfolding assms(1) .
  note own = own_backup_turn [OF store.api_server_axioms demo_owner_law assms(2), unfolded fresh_backup_facts, OF step]
  have "asks_again ?r" if "\<not> snapshot_taken fresh_backup c"
    using own(4) that by (auto simp: snapshot_in_def snapshot_taken_def)
  with own(5) that [OF step own(1-3)] show thesis by (simp split: if_splits)
qed

lemma asgard_turn_step:
  assumes "store_view (world (in_store c)) = c" and "on_track demo_lib asgard demo_template c" and "restore_ready c asgard"
  obtains r where "turn_step demo_lib store_client store_view (ServerTurn (''games'', ''asgard'')) r c (asgard_turn c)"
    and "on_track demo_lib asgard demo_template (asgard_turn c)" and "deployed demo_lib asgard demo_template (asgard_turn c)"
    and "pod_ready asgard (asgard_turn c) \<longleftrightarrow> pod_ready asgard c" and "asks_again r \<longleftrightarrow> \<not> pod_ready asgard c"
    and "clVolumeSnapshots (asgard_turn c) = clVolumeSnapshots c"
proof -
  let ?r = "result (GameServer_Reconcile demo_lib store_client (''games'', ''asgard'')) (in_store c)"
  have step: "turn_step demo_lib store_client store_view (ServerTurn (''games'', ''asgard'')) ?r c (asgard_turn c)"
    using turn_step.server [OF refl, of demo_lib store_client store_view "(''games'', ''asgard'')" "in_store c"]
    unfolding assms(1) .
  have "clVolumeSnapshots (asgard_turn c) = clVolumeSnapshots c"
    using turn_in_scope [OF store.api_server_axioms demo_owner_law newest_permutes [OF demo_newest_first] step] by auto
  with own_turn [OF store.api_server_axioms demo_owner_law assms(2) fresh_backup_facts(8), unfolded asgard_facts, OF step] assms(3)
    that [OF step] show thesis by simp
qed

lemma restore_start:
  "backup_known fresh_backup (restore_clusters 0)" "on_track demo_lib asgard demo_template (restore_clusters 0)"
  "\<not> snapshot_taken fresh_backup (restore_clusters 0)" "clPVCs (restore_clusters 0) = fmempty"
proof -
  show "backup_known fresh_backup (restore_clusters 0)"
    by (simp add: backup_known_def restore_clusters_steps(1) restore_cluster_def add_server_def demo_cluster_def)
  have "deployable demo_lib (restore_clusters 0) asgard demo_template"
    using asgard_deployable by (simp add: deployable_def restore_clusters_steps(1) restore_cluster_def add_server_def saved_cluster_def)
  then show "on_track demo_lib asgard demo_template (restore_clusters 0)"
    unfolding on_track_def
    by (intro exI [of _ asgard] exI [of _ demo_template])
      (simp add: restore_clusters_steps(1) restore_cluster_def add_server_def)
  show "\<not> snapshot_taken fresh_backup (restore_clusters 0)" "clPVCs (restore_clusters 0) = fmempty"
    by (simp_all add: snapshot_taken_def restore_clusters_steps(1) restore_cluster_def add_server_def demo_cluster_def)
qed

lemma progress_step:
  "outside_step c (snapshot_progress k s c)" "left_alone gs c (snapshot_progress k s c)"
  "backup_left_alone b c (snapshot_progress k s c)"
proof -
  have c: "\<exists>m. snapshot_progress k s c = c\<lparr>clPVCs := clPVCs c, clVolumeSnapshots := m\<rparr>"
    by (cases "fmlookup (clVolumeSnapshots c) k") (auto simp: snapshot_progress_def intro: exI [of _ "clVolumeSnapshots c"])
  then show "outside_step c (snapshot_progress k s c)" using outside_step.storage [of c "clPVCs c"] by force
  show "left_alone gs c (snapshot_progress k s c)"
    by (auto simp: left_alone_def Let_def snapshot_progress_def option.rel_refl split: option.split)
  show "backup_left_alone b c (snapshot_progress k s c)"
    by (auto simp: backup_left_alone_def snapshot_progress_def option.rel_refl split: option.split)
qed

lemma pods_started_backup [simp]: "backup_left_alone b c (pods_started c)"
  by (simp add: backup_left_alone_def pods_started_def option.rel_refl)

lemma backup_left_alone_refl [simp]: "backup_left_alone b c c"
  by (simp add: backup_left_alone_def option.rel_refl)


text \<open>The steps of the example, first those that make the Backup Ready, then those that deploy the server.\<close>

lemma nightly_run:
  obtains r0 r2 where
    "turn_step demo_lib store_client store_view (BackupTurn (''games'', ''nightly-1'')) r0 (restore_clusters 0) (restore_clusters 1)"
    and "asks_again r0"
    and "turn_step demo_lib store_client store_view (BackupTurn (''games'', ''nightly-1'')) r2 (restore_clusters 2) (restore_clusters 3)"
    and "\<not> asks_again r2"
    and "snapshot_in BackupPhaseInProgress fresh_backup (restore_clusters 1)"
    and "snapshot_in BackupPhaseReady fresh_backup (restore_clusters 2)"
    and "clVolumeSnapshots (restore_clusters 3) = clVolumeSnapshots (restore_clusters 2)"
    and "backup_known fresh_backup (restore_clusters 3)" and "backup_done fresh_backup (restore_clusters 3)"
    and "on_track demo_lib asgard demo_template (restore_clusters 3)"
proof -
  note steps = restore_clusters_steps
  obtain r0 where r0: "turn_step demo_lib store_client store_view (BackupTurn (''games'', ''nightly-1'')) r0 (restore_clusters 0) (restore_clusters 1)"
    "backup_known fresh_backup (restore_clusters 1)" "snapshot_taken fresh_backup (restore_clusters 1)" "asks_again r0"
    "snapshot_in BackupPhaseInProgress fresh_backup (restore_clusters 1)"
    unfolding steps(2) by (rule backup_turn_step [OF restore_views(1) restore_start(1)]) (use restore_start(3) in simp)
  have known2: "backup_known fresh_backup (restore_clusters 2)"
    unfolding steps(3) by (rule left_alone_backup(1) [OF progress_step(3) r0(2)])
  have ready2: "snapshot_in BackupPhaseReady fresh_backup (restore_clusters 2)"
    using r0(3) unfolding steps(3)
    by (auto simp: snapshot_in_def snapshot_taken_def snapshot_progress_def mirrored_phase_def ready_status_def)
  then have taken2: "snapshot_taken fresh_backup (restore_clusters 2)"
    by (auto simp: snapshot_in_def snapshot_taken_def split: option.splits)
  obtain r2 where
    r2: "turn_step demo_lib store_client store_view (BackupTurn (''games'', ''nightly-1'')) r2 (restore_clusters 2) (restore_clusters 3)"
      "backup_done fresh_backup (restore_clusters 3)" "\<not> asks_again r2"
      "clVolumeSnapshots (restore_clusters 3) = clVolumeSnapshots (restore_clusters 2)"
      "backup_known fresh_backup (restore_clusters 3)"
    unfolding steps(4) by (rule backup_turn_step [OF restore_views(2) known2]) (use ready2 taken2 in simp)
  note foreign = foreign_turn_leaves_alone [OF store.api_server_axioms demo_owner_law newest_permutes [OF demo_newest_first]]
  have "on_track demo_lib asgard demo_template (restore_clusters 1)"
    by (rule foreign_step_keeps(3) [OF foreign [OF r0(1)] restore_start(2)]) simp
  then have "on_track demo_lib asgard demo_template (restore_clusters 2)"
    unfolding steps(3) by (rule foreign_step_keeps(3) [OF progress_step(2)])
  from foreign_step_keeps(3) [OF foreign [OF r2(1)] this]
  have "on_track demo_lib asgard demo_template (restore_clusters 3)" by simp
  from that [OF r0(1,4) r2(1,3) r0(5) ready2 r2(4,5,2) this] show thesis .
qed

lemma asgard_run:
  obtains r3 r5 where
    "turn_step demo_lib store_client store_view (ServerTurn (''games'', ''asgard'')) r3 (restore_clusters 3) (restore_clusters 4)"
    and "turn_step demo_lib store_client store_view (ServerTurn (''games'', ''asgard'')) r5 (restore_clusters 5) (restore_clusters 6)"
    and "\<not> asks_again r5" and "pod_ready asgard (restore_clusters 6)"
    and "clVolumeSnapshots (restore_clusters 4) = clVolumeSnapshots (restore_clusters 3)"
    and "clVolumeSnapshots (restore_clusters 5) = clVolumeSnapshots (restore_clusters 3)"
    and "clVolumeSnapshots (restore_clusters 6) = clVolumeSnapshots (restore_clusters 3)"
proof -
  note steps = restore_clusters_steps
  have known3: "backup_known fresh_backup (restore_clusters 3)" and done3: "backup_done fresh_backup (restore_clusters 3)"
    and track3: "on_track demo_lib asgard demo_template (restore_clusters 3)" by (rule nightly_run; assumption)+
  have restores: "restore_ready c asgard" if "backup_done fresh_backup c" for c
    by (rule done_restore_ready [OF that]) simp_all
  obtain r3 where r3: "turn_step demo_lib store_client store_view (ServerTurn (''games'', ''asgard'')) r3 (restore_clusters 3) (restore_clusters 4)"
    "on_track demo_lib asgard demo_template (restore_clusters 4)" "deployed demo_lib asgard demo_template (restore_clusters 4)"
    "clVolumeSnapshots (restore_clusters 4) = clVolumeSnapshots (restore_clusters 3)"
    unfolding steps(5) by (rule asgard_turn_step [OF restore_views(3) track3 restores [OF done3]])
  have "backup_done fresh_backup (restore_clusters 4)"
    by (rule left_alone_backup(3) [OF foreign_turn_leaves_backup [OF store.api_server_axioms demo_owner_law
          newest_permutes [OF demo_newest_first] r3(1) _ known3] done3]) simp_all
  then have done5: "backup_done fresh_backup (restore_clusters 5)"
    unfolding steps(6) by (rule left_alone_backup(3) [OF pods_started_backup])
  have track5: "on_track demo_lib asgard demo_template (restore_clusters 5)"
    unfolding steps(6) by (rule foreign_step_keeps(3) [OF pods_started_step(2) r3(2)])
  have up: "pod_ready asgard (restore_clusters 5)" unfolding steps(6) by (rule started_pod_ready [OF r3(3)])
  obtain r5 where r5: "turn_step demo_lib store_client store_view (ServerTurn (''games'', ''asgard'')) r5 (restore_clusters 5) (restore_clusters 6)"
    "pod_ready asgard (restore_clusters 6)" "\<not> asks_again r5"
    "clVolumeSnapshots (restore_clusters 6) = clVolumeSnapshots (restore_clusters 5)"
    unfolding steps(7) by (rule asgard_turn_step [OF restore_views(4) track5 restores [OF done5]]) (use up in simp)
  have "clVolumeSnapshots (restore_clusters 5) = clVolumeSnapshots (restore_clusters 4)"
    unfolding steps(6) by (simp add: pods_started_def)
  with that [OF r3(1) r5(1,3,2) r3(4)] r3(4) r5(4) show thesis by simp
qed

lemma restore_snapshots:
  "\<not> snapshot_taken fresh_backup (restore_clusters 0)" "snapshot_in BackupPhaseInProgress fresh_backup (restore_clusters 1)"
  "2 \<le> i \<Longrightarrow> snapshot_in BackupPhaseReady fresh_backup (restore_clusters i)"
proof -
  show "\<not> snapshot_taken fresh_backup (restore_clusters 0)" by (rule restore_start(3))
  show "snapshot_in BackupPhaseInProgress fresh_backup (restore_clusters 1)" by (rule nightly_run)
  have ready: "snapshot_in BackupPhaseReady fresh_backup (restore_clusters 2)"
    and s3: "clVolumeSnapshots (restore_clusters 3) = clVolumeSnapshots (restore_clusters 2)" by (rule nightly_run; assumption)+
  have s: "clVolumeSnapshots (restore_clusters 4) = clVolumeSnapshots (restore_clusters 3)"
    "clVolumeSnapshots (restore_clusters 5) = clVolumeSnapshots (restore_clusters 3)"
    "clVolumeSnapshots (restore_clusters 6) = clVolumeSnapshots (restore_clusters 3)" by (rule asgard_run; assumption)+
  show "snapshot_in BackupPhaseReady fresh_backup (restore_clusters i)" if "2 \<le> i"
  proof -
    from that have "i = 2 \<or> i = 3 \<or> i = 4 \<or> i = 5 \<or> 6 \<le> i" by linarith
    then have "clVolumeSnapshots (restore_clusters i) = clVolumeSnapshots (restore_clusters 2)"
      using s3 s restore_clusters_steps(8) [of i] by auto
    with ready show ?thesis by (simp add: snapshot_in_def)
  qed
qed


lemma restore_clusters_late: "6 \<le> i \<Longrightarrow> restore_clusters (Suc i) = restore_clusters i"
  using restore_clusters_steps(8) [of i] restore_clusters_steps(8) [of "Suc i"] by simp

lemma restore_loop_step:
  "loop_step demo_lib store_client store_view (restore_served i) (restore_states i) (restore_states (Suc i))"
proof -
  obtain r0 r2 where backup:
    "turn_step demo_lib store_client store_view (BackupTurn (''games'', ''nightly-1'')) r0 (restore_clusters 0) (restore_clusters 1)"
    "turn_step demo_lib store_client store_view (BackupTurn (''games'', ''nightly-1'')) r2 (restore_clusters 2) (restore_clusters 3)"
    "\<not> asks_again r2" by (rule nightly_run)
  obtain r3 r5 where server:
    "turn_step demo_lib store_client store_view (ServerTurn (''games'', ''asgard'')) r3 (restore_clusters 3) (restore_clusters 4)"
    "turn_step demo_lib store_client store_view (ServerTurn (''games'', ''asgard'')) r5 (restore_clusters 5) (restore_clusters 6)"
    "\<not> asks_again r5" by (rule asgard_run)
  note turns = loop_step.serve [OF _ backup(1) [unfolded One_nat_def]] loop_step.serve [OF _ backup(2)]
    loop_step.serve [OF _ server(1)] loop_step.serve [OF _ server(2)]
  have progress: "outside_step (restore_clusters 1) (restore_clusters 2)" "outside_step (restore_clusters 4) (restore_clusters 5)"
    unfolding restore_clusters_steps(3,6) by (rule progress_step(1) pods_started_step(1))+
  consider "i = 0" | "i = 1" | "i = 2" | "i = 3" | "i = 4" | "i = 5" | "6 \<le> i" by linarith
  then show ?thesis
    by cases (auto simp: restore_served_def restore_states_def restore_queue_def backup(3) server(3)
        restore_clusters_late numeral_2_eq_2 [symmetric] intro!: turns loop_step.outside progress [unfolded One_nat_def])
qed


lemma restore_left_alone:
  assumes "restore_served i = None"
  shows "backup_left_alone fresh_backup (restore_clusters i) (restore_clusters (Suc i))"
    and "left_alone asgard (restore_clusters i) (restore_clusters (Suc i))"
proof -
  have steps: "backup_left_alone fresh_backup (restore_clusters 1) (restore_clusters 2)"
    "left_alone asgard (restore_clusters 1) (restore_clusters 2)"
    "backup_left_alone fresh_backup (restore_clusters 4) (restore_clusters 5)"
    "left_alone asgard (restore_clusters 4) (restore_clusters 5)"
    unfolding restore_clusters_steps(3,6) by (rule progress_step pods_started_step pods_started_backup)+
  have "i \<noteq> 0 \<and> i \<noteq> 2 \<and> i \<noteq> 3 \<and> i \<noteq> 5" using assms by (auto simp: restore_served_def)
  then consider "i = 1" | "i = 4" | "6 \<le> i" by linarith
  then show "backup_left_alone fresh_backup (restore_clusters i) (restore_clusters (Suc i))"
    using steps(1,3) by cases (simp_all add: restore_clusters_late numeral_2_eq_2)
  from \<open>i \<noteq> 0 \<and> i \<noteq> 2 \<and> i \<noteq> 3 \<and> i \<noteq> 5\<close> consider "i = 1" | "i = 4" | "6 \<le> i" by linarith
  then show "left_alone asgard (restore_clusters i) (restore_clusters (Suc i))"
    using steps(2,4) by cases (simp_all add: restore_clusters_late numeral_2_eq_2)
qed

lemma restore_runs:
  "restore_execution demo_lib store_client store_view fresh_backup asgard demo_template restore_served restore_states"
proof -
  have "execution demo_lib store_client store_view restore_served restore_states"
    unfolding execution_def by (simp add: restore_loop_step)
  then show ?thesis
    unfolding restore_execution_def backup_execution_def server_execution_def
    by (simp add: restore_states_def restore_queue_def restore_start restore_left_alone asgard_facts)
qed

lemma restore_fair: "fair_queue restore_served restore_states"
proof -
  have "restore_served 2 = Some (BackupTurn (''games'', ''nightly-1''))"
    "restore_served 5 = Some (ServerTurn (''games'', ''asgard''))"
    by (simp_all add: restore_served_def)
  moreover have "(t = BackupTurn (''games'', ''nightly-1'') \<and> i \<le> 2) \<or> (t = ServerTurn (''games'', ''asgard'') \<and> i \<le> 5)"
    if "t \<in> restore_queue i" for t i
    using that by (simp add: restore_queue_def split: if_splits)
  ultimately show ?thesis unfolding fair_queue_def restore_states_def snd_conv by blast
qed

lemma restore_environment:
  "storage_delivers fresh_backup restore_states" "pods_come_up demo_lib asgard demo_template restore_states"
proof -
  have none: "clVolumeSnapshots (restore_clusters 0) = fmempty"
    by (simp add: restore_clusters_steps(1) restore_cluster_def add_server_def demo_cluster_def)
  have one: "snapshot_in ph b c \<Longrightarrow> snapshot_in ph' b c \<Longrightarrow> ph = ph'" for ph ph' b c
    by (simp add: snapshot_in_def split: option.splits)
  have sound: "\<not> snapshot_in BackupPhaseFailed fresh_backup (restore_clusters i)" for i
  proof -
    consider "i = 0" | "i = 1" | "2 \<le> i" by linarith
    then show ?thesis
    proof cases
      case 1
      with none show ?thesis by (simp add: snapshot_in_def)
    qed (use one [OF restore_snapshots(2)] one [OF restore_snapshots(3)] in fastforce)+
  qed
  show "storage_delivers fresh_backup restore_states"
    unfolding storage_delivers_def restore_states_def fst_conv using sound restore_snapshots(3) by blast
  have "pod_ready asgard (restore_clusters i)" if "6 \<le> i" for i
    unfolding restore_clusters_steps(8) [OF that] by (rule asgard_run)
  then show "pods_come_up demo_lib asgard demo_template restore_states"
    unfolding pods_come_up_def restore_states_def fst_conv by blast
qed

theorem restore_completes_witness:
  "\<exists>n. \<forall>i \<ge> n. backup_done fresh_backup (fst (restore_states i)) \<and> deployed demo_lib asgard demo_template (fst (restore_states i))
    \<and> reported_ready asgard demo_template (fst (restore_states i)) \<and> restored_from asgard demo_server (fst (restore_states i))"
  by (rule restore_completes [OF store.api_server_axioms demo_owner_law demo_newest_first restore_runs restore_fair restore_environment])
    (simp add: demo_defs object_key_def)

end
