(* ===== verification/Scheme.thy ===== *)
theory Scheme
  imports Manager DeepCopy
begin

text \<open>
  The scheme: the Go types under which the manager's client and caches know the API. \<^verbatim>\<open>groupversion_info.go\<close>
  starts a list of functions that add to a scheme, the \<open>init\<close> of each types file puts one more at its end, and
  \<open>AddToScheme\<close> calls them in order. The scheme and its two operations are apimachinery's, parameters.
\<close>

section \<open>The builder\<close>

record 's scheme_ops =
  AddToGroupVersion :: "string \<times> string \<Rightarrow> 's \<Rightarrow> 's"
  AddKnownTypes :: "string \<times> string \<Rightarrow> string list \<Rightarrow> 's \<Rightarrow> 's"

type_synonym 's adder = "'s \<Rightarrow> string option \<times> 's"

definition SchemeBuilder :: "'s scheme_ops \<Rightarrow> 's adder list" where
  "SchemeBuilder S = [\<lambda>s. (None, AddToGroupVersion S SchemeGroupVersion s)]"

definition Backup_init :: "'s scheme_ops \<Rightarrow> 's adder list \<Rightarrow> 's adder list" where
  "Backup_init S builder = builder @ [\<lambda>s. (None, AddKnownTypes S SchemeGroupVersion [''Backup'', ''BackupList''] s)]"

definition BackupSchedule_init :: "'s scheme_ops \<Rightarrow> 's adder list \<Rightarrow> 's adder list" where
  "BackupSchedule_init S builder = builder @
     [\<lambda>s. (None, AddKnownTypes S SchemeGroupVersion [''BackupSchedule'', ''BackupScheduleList''] s)]"

definition GameServer_init :: "'s scheme_ops \<Rightarrow> 's adder list \<Rightarrow> 's adder list" where
  "GameServer_init S builder = builder @
     [\<lambda>s. (None, AddKnownTypes S SchemeGroupVersion [''GameServer'', ''GameServerList''] s)]"

definition GameTemplate_init :: "'s scheme_ops \<Rightarrow> 's adder list \<Rightarrow> 's adder list" where
  "GameTemplate_init S builder = builder @
     [\<lambda>s. (None, AddKnownTypes S SchemeGroupVersion [''GameTemplate'', ''GameTemplateList''] s)]"

text \<open>The package variables first, then the \<open>init\<close> functions, file by file.\<close>

definition package_init :: "'s scheme_ops \<Rightarrow> 's adder list" where
  "package_init S = GameTemplate_init S (GameServer_init S (BackupSchedule_init S (Backup_init S (SchemeBuilder S))))"

primrec run_adders :: "'s adder list \<Rightarrow> 's adder" where
  "run_adders [] s = (None, s)"
| "run_adders (f # fs) s = (case f s of (Some err, s') \<Rightarrow> (Some err, s') | (None, s') \<Rightarrow> run_adders fs s')"

text \<open>\<open>AddToScheme\<close> is the method of the package variable, which the \<open>init\<close> functions have filled when \<open>main\<close>
  calls it.\<close>

definition api_AddToScheme :: "'s scheme_ops \<Rightarrow> 's adder" where
  "api_AddToScheme S = run_adders (package_init S)"

section \<open>What is registered\<close>

text \<open>As documented: \<open>AddKnownTypes\<close> registers the types under their names, and nothing that is known is
  forgotten.\<close>

definition scheme_law :: "'s scheme_ops \<Rightarrow> ('s \<Rightarrow> ((string \<times> string) \<times> string) set) \<Rightarrow> bool" where
  "scheme_law S known \<longleftrightarrow>
     (\<forall>gv ts s. known (AddKnownTypes S gv ts s) = known s \<union> {gv} \<times> set ts)
     \<and> (\<forall>gv s. known s \<subseteq> known (AddToGroupVersion S gv s))"

text \<open>After start-up the scheme knows every kind of the package, each of which has a \<open>DeepCopyObject\<close>, as the
  scheme demands, and no other was added; so it knows the kind of each of the four controllers and its list.\<close>

theorem kinds_are_registered:
  assumes "scheme_law S known"
  shows "let s' = snd (api_AddToScheme S s) in
    fst (api_AddToScheme S s) = None
    \<and> known s' = known (AddToGroupVersion S SchemeGroupVersion s)
        \<union> {SchemeGroupVersion} \<times> set (map fst (api_objects X))
    \<and> (\<forall>ctl \<in> {GameServer_SetupWithManager, GameTemplate_SetupWithManager, Backup_SetupWithManager,
          BackupSchedule_SetupWithManager}.
        {(SchemeGroupVersion, ctrlFor ctl), (SchemeGroupVersion, ctrlFor ctl @ ''List'')} \<subseteq> known s')"
proof -
  let ?gv = SchemeGroupVersion and ?g = "AddToGroupVersion S SchemeGroupVersion s"
  have run: "api_AddToScheme S s = (None, AddKnownTypes S ?gv [''GameTemplate'', ''GameTemplateList'']
      (AddKnownTypes S ?gv [''GameServer'', ''GameServerList'']
      (AddKnownTypes S ?gv [''BackupSchedule'', ''BackupScheduleList'']
      (AddKnownTypes S ?gv [''Backup'', ''BackupList''] ?g))))"
    by (simp add: api_AddToScheme_def package_init_def SchemeBuilder_def GameTemplate_init_def GameServer_init_def
      Backup_init_def BackupSchedule_init_def)
  have names: "map fst (api_objects X) = [''GameTemplate'', ''GameTemplateList'', ''GameServer'', ''GameServerList'',
      ''Backup'', ''BackupList'', ''BackupSchedule'', ''BackupScheduleList'']"
    by (simp only: api_objects_def list.map fst_conv)
  have known: "known (snd (api_AddToScheme S s)) = known ?g \<union> {?gv} \<times> set (map fst (api_objects X))"
    using assms unfolding run names snd_conv scheme_law_def
    by (simp only: list.set Sigma_Un_distrib2 [symmetric] Un_assoc Un_insert_left Un_empty_left insert_commute)
  have "ctrlFor ctl \<in> set (map fst (api_objects X))" "ctrlFor ctl @ ''List'' \<in> set (map fst (api_objects X))"
    if "ctl \<in> {GameServer_SetupWithManager, GameTemplate_SetupWithManager, Backup_SetupWithManager,
      BackupSchedule_SetupWithManager}" for ctl
    using that unfolding names
    by (auto simp: GameServer_SetupWithManager_def GameTemplate_SetupWithManager_def
      Backup_SetupWithManager_def BackupSchedule_SetupWithManager_def)
  with known show ?thesis
    unfolding Let_def run by (auto simp: run)
qed

text \<open>A scheme that is just the set of the types it knows.\<close>

lemma kinds_are_registered_witness:
  "(SchemeGroupVersion, ''GameServer'') \<in> snd (api_AddToScheme
     \<lparr>AddToGroupVersion = \<lambda>gv s. s, AddKnownTypes = \<lambda>gv ts s. s \<union> {gv} \<times> set ts\<rparr> {})"
proof -
  let ?S = "\<lparr>AddToGroupVersion = \<lambda>gv s. s, AddKnownTypes = \<lambda>gv ts s. s \<union> {gv} \<times> set ts\<rparr>"
  have "scheme_law ?S (\<lambda>s. s)" by (simp add: scheme_law_def)
  from kinds_are_registered [OF this, of "{}"] show ?thesis
    by (simp add: Let_def GameServer_SetupWithManager_def)
qed

end
