(* ===== verification/Spec2Isabelle.thy ===== *)
theory Spec2Isabelle
  imports ComponentProperties AdmissionProperties OperatorProperties WiringProperties ManagerProperties
    ScheduleCatchUp FailureProperties FaultProperties SharedProperties DeepCopyProperties
    RestoreLiveness Scheme
begin

text \<open>
  A verification of the game server operator (\<^verbatim>\<open>src/\<close>): a Kubernetes operator that runs game servers from
  templates, backs their worlds up and restores them.

  \<^bold>\<open>The program.\<close> A \<open>GameTemplate\<close> says how a game runs, a \<open>GameServer\<close> names a template and its own
  configuration, a \<open>Backup\<close> is one snapshot of a server's world, a \<open>BackupSchedule\<close> makes Backups by a cron
  expression and deletes old ones. Each kind has a reconciler that reads objects, brings its children to the
  state that is wanted, and writes a status. Two webhooks check templates and servers at admission. \<open>main\<close>
  parses flags, registers types, reconcilers and webhooks with controller-runtime, and starts it. The
  reconcilers interact only over the API server: a schedule creates the Backups that the Backup reconciler
  serves, a server restores from the snapshot a Ready Backup names, a template change wakes its servers.

  \<^bold>\<open>Which theory models which part.\<close>
  \<^item> \<open>Prelude\<close>: Go's integers as words, instants and durations in nanoseconds, \<open>strconv\<close>, \<open>strings\<close>, \<open>fmt\<close>.
  \<^item> \<open>Api_Types\<close>: \<^verbatim>\<open>api/v1alpha1/*_types.go\<close> and what the operator reads of the Kubernetes types; one record per
    struct, one field per field.
  \<^item> \<open>Kube\<close>: the client and the third-party functions as parameters, the monad of a reconciler (world and list
    of API calls), and the event logic \<open>produces\<close>.
  \<^item> \<open>Labels\<close>, \<open>Config\<close>, \<open>Exposure\<close>, \<open>Builders\<close>: \<^verbatim>\<open>internal/controller/builders.go\<close> and
    \<^verbatim>\<open>snapshot_builders.go\<close>; \<open>Security\<close>: \<^verbatim>\<open>security.go\<close>; \<open>Conditions\<close>: the condition setters of the four
    controllers.
  \<^item> \<open>GameServerController\<close>, \<open>BackupController\<close>, \<open>ScheduleController\<close>, \<open>TemplateController\<close>: \<open>Reconcile\<close> and the
    helpers of \<^verbatim>\<open>gameserver_controller.go\<close>, \<^verbatim>\<open>backup_controller.go\<close>, \<^verbatim>\<open>backupschedule_controller.go\<close>,
    \<^verbatim>\<open>gametemplate_controller.go\<close>. A long Go function is cut where it returns early; each definition names its
    part, each early return is a branch.
  \<^item> \<open>Webhooks\<close>: \<^verbatim>\<open>internal/webhook/v1alpha1\<close>. \<open>Wiring\<close>: \<open>SetupWithManager\<close> and the requests the watches make
    (what a registration means is controller-runtime's; \<open>enqueued\<close> writes out its documentation). \<open>Manager\<close>:
    \<^verbatim>\<open>cmd/main.go\<close>, with one exit for every call that can fail. \<open>Scheme\<close>: \<^verbatim>\<open>groupversion_info.go\<close> and the
    \<open>init\<close> functions.
  \<^item> \<open>Go_Memory\<close>, \<open>Go_Copy\<close>, \<open>DeepCopy\<close>: \<^verbatim>\<open>zz_generated.deepcopy.go\<close> on a memory of cells. Here, and only here,
    objects are pointers, slices and maps; elsewhere a value of Go is a value of HOL, which
    \<open>cache_survives_readers\<close> justifies: what a reconciler does to the object it was given reaches nobody else.
  \<^item> \<open>Cluster\<close>: what is relied on of the API server, as locales (\<open>api_kind\<close>, \<open>api_server\<close>); \<open>Store\<close> is a server that
    satisfies them. \<open>Fixtures\<close> and \<open>GameServerDemo\<close>: the inputs of the witnesses.

  \<^bold>\<open>What is proved.\<close> Of the pure components (\<open>ComponentProperties\<close>, \<open>AdmissionProperties\<close>): what
  they compute, on every input. Of a run of a reconciler, for every client and every world
  (\<open>GameServerFacts\<close>, \<open>GameServerRuns\<close>, \<open>GameServerProperties\<close>, \<open>BackupProperties\<close>, \<open>ScheduleFacts\<close>,
  \<open>ScheduleProperties\<close>, \<open>Faults\<close>, \<open>FaultProperties\<close>): which calls it may make and what it returns. The world may
  change between any two calls, so these hold under interference, write conflicts and failing calls. Of a
  cluster (\<open>ChildApplier\<close>, \<open>Convergence\<close>, \<open>ClusterProperties\<close>, \<open>BackupEffects\<close>, \<open>RestoreProperties\<close>,
  \<open>ScheduleEffects\<close>, \<open>RetentionProperties\<close>, \<open>ScheduleLiveness\<close>, \<open>ScheduleCatchUp\<close>, \<open>ServerFailures\<close>,
  \<open>FailureProperties\<close>, \<open>Operator\<close>, \<open>OperatorProperties\<close>): the cluster after a run as a function of the cluster
  before it, refinement of the abstract specifications (a running server, the life of a Backup), what holds in
  all histories of turns, that a schedule makes up what it missed. A turn of a reconciler is atomic there.
  \<open>Isolation\<close>: every turn touches only the objects of its own request, so what holds of a server holds whatever the
  other requests do. On it rest the theories about executions without end, in which the requests of all reconcilers
  wait in one work queue (\<open>ServerLiveness\<close>: a server that is left alone becomes Ready; \<open>RestoreLiveness\<close>: a Backup becomes
  Ready, and a server that restores from it gets the world that was backed up).
  A last layer shares the cluster (\<open>Shared\<close>, \<open>SharedProperties\<close>): others act between any two calls, reads may be
  stale, calls fail and answers get lost, and still every step of a run is harmless. The last group is about
  the process: \<open>WiringProperties\<close>, \<open>ManagerProperties\<close>, \<open>Scheme\<close>, \<open>DeepCopyProperties\<close>.

  \<^bold>\<open>Assumptions, each by name.\<close> \<open>api_server\<close>: reads answer what is stored, writes of an object that was just
  read succeed and change nothing else; a specification is stored as it was sent (a server that fills in defaults is not
  covered by it). \<open>shared_server\<close>, which is much weaker: a call happens, at some point
  between the steps of the others, or not; and the others do not touch claims. \<open>fair_queue\<close>: a request that
  waits is served some time. \<open>pods_come_up\<close>, \<open>storage_delivers\<close>, \<open>source_comes_up\<close>: the pod of a deployed server runs
  some time, a snapshot that was taken becomes ready, so does the source of a restore. \<open>left_alone\<close>,
  \<open>backup_left_alone\<close>: steps outside the operator do not change the specifications of the objects in question.
  \<open>owner_law\<close>: \<open>SetControllerReference\<close> on a new object.
  \<open>map_order\<close>: a range over a map visits every key once. \<open>newest_first\<close>: \<open>slices.SortFunc\<close> permutes and sorts.
  \<open>cron_contract\<close>, \<open>cron_fires\<close>: \<open>Next\<close> answers the first later fire time, or the zero time. \<open>owners_law\<close>: the handler
  of \<open>Owns\<close>. \<open>scheme_law\<close>: \<open>AddKnownTypes\<close> registers by name. \<open>libs_copy\<close>: the Kubernetes structs copy
  deeply. Each is shown to hold of a concrete instance, on which the properties that need it are applied.

  \<^bold>\<open>Bounds.\<close> No definition has fuel: every recursion is over a list or a number. \<open>int32\<close> and \<open>int64\<close> are words, so
  the counts and ports of the code wrap as in Go; durations and instants are integers, and where \<open>time.Time.Sub\<close>
  saturates the model saturates.

  \<^bold>\<open>Not modelled.\<close> Log output and events. \<^verbatim>\<open>test/utils\<close>, which runs \<^verbatim>\<open>kubectl\<close> and \<^verbatim>\<open>make\<close>, and the tests. The
  manifests, RBAC rules and CRD schemas under \<^verbatim>\<open>config/\<close> (a check that a schema makes is a hypothesis where a
  property needs it). The flags that package \<open>zap\<close> binds are a parameter. Fields of Kubernetes types that the
  operator only passes on are opaque. A \<open>DeepCopyInto\<close> whose source and target are the same variable.
\<close>

end
